(* ===== verification/Prelude.thy ===== *)
theory Prelude
  imports "HOL-Library.Monad_Syntax"
begin

text \<open>
  What the components share: the collections of facts the proofs draw on, and generic lemmas on
  computations that may fail, on lists and on maps.
\<close>

named_theorems steps \<open>elimination rules that open one step of a computation that returned\<close>
named_theorems keeps \<open>operations that preserve a component's invariant\<close>

text \<open>Taking a computation apart: one \<open>let\<close> or one bind at a time, without copying the bound term.\<close>

lemma let_Some [steps]: "Let s f = Some d \<Longrightarrow> (\<And>x. f x = Some d \<Longrightarrow> P) \<Longrightarrow> P"
  by (simp add: Let_def)

lemma bind_Some [steps]: "Option.bind m f = Some d \<Longrightarrow> (\<And>x. m = Some x \<Longrightarrow> f x = Some d \<Longrightarrow> P) \<Longrightarrow> P"
  by (cases m) auto

text \<open>Lists.\<close>

lemma length_filter_all: "length (filter P xs) = length xs \<longleftrightarrow> list_all P xs"
  by (induction xs) (auto simp: le_imp_less_Suc less_imp_neq)

lemma length_filter_upd:
  "i < length xs \<Longrightarrow> P (xs ! i) \<Longrightarrow> \<not> P y \<Longrightarrow> Suc (length (filter P (xs[i := y]))) = length (filter P xs)"
proof (induction xs arbitrary: i)
  case (Cons x xs)
  then show ?case by (cases i) auto
qed simp

lemma length_filter_upd_in:
  "i < length xs \<Longrightarrow> \<not> P (xs ! i) \<Longrightarrow> P y \<Longrightarrow> length (filter P (xs[i := y])) = Suc (length (filter P xs))"
proof (induction xs arbitrary: i)
  case (Cons x xs)
  then show ?case by (cases i) auto
qed simp

lemma length_filter_upd_same:
  "i < length xs \<Longrightarrow> P (xs ! i) = P y \<Longrightarrow> length (filter P (xs[i := y])) = length (filter P xs)"
proof (induction xs arbitrary: i)
  case (Cons x xs)
  then show ?case by (cases i) auto
qed simp

lemma filter_unique: "distinct (map g xs) \<Longrightarrow> x \<in> set xs \<Longrightarrow> filter (\<lambda>y. g y = g x) xs = [x]"
proof (induction xs)
  case (Cons y ys)
  then show ?case by (cases "y = x") (auto simp: filter_empty_conv, metis image_eqI)
qed simp

text \<open>Running a list of operations over a state, and what every operation keeps the run keeps.\<close>

fun run_ops :: "('op \<Rightarrow> 's \<Rightarrow> 's) \<Rightarrow> 'op list \<Rightarrow> 's \<Rightarrow> 's" where
  "run_ops step [] s = s"
| "run_ops step (x # xs) s = run_ops step xs (step x s)"

lemma run_ops_invariant: "(\<And>x s. I s \<Longrightarrow> I (step x s)) \<Longrightarrow> I s \<Longrightarrow> I (run_ops step xs s)"
  by (induction xs arbitrary: s) auto

lemma run_ops_append [simp]: "run_ops step (xs @ ys) s = run_ops step ys (run_ops step xs s)"
  by (induction xs arbitrary: s) auto

text \<open>
  Errors as values: \<open>Inl\<close> an error, \<open>Inr\<close> a result.  \<open>ebind\<close> sequences two fallible computations;
  \<open>efold\<close> runs a fallible step over a list and stops at the first error.
\<close>

definition ebind :: "'e + 'a \<Rightarrow> ('a \<Rightarrow> 'e + 'b) \<Rightarrow> 'e + 'b" where
  "ebind m f = (case m of Inl e \<Rightarrow> Inl e | Inr x \<Rightarrow> f x)"

lemma ebind_simps [simp]: "ebind (Inl e) f = Inl e" "ebind (Inr x) f = f x"
  by (simp_all add: ebind_def)

lemma ebind_cong [fundef_cong]:
  "m = m' \<Longrightarrow> (\<And>x. m' = Inr x \<Longrightarrow> f x = g x) \<Longrightarrow> ebind m f = ebind m' g"
  by (auto simp: ebind_def split: sum.splits)

lemma ebind_Inr [steps]: "ebind m f = Inr y \<Longrightarrow> (\<And>x. m = Inr x \<Longrightarrow> f x = Inr y \<Longrightarrow> P) \<Longrightarrow> P"
  by (auto simp: ebind_def split: sum.splits)

lemma if_Inr [steps]:
  "(if b then Inl e else m) = Inr y \<Longrightarrow> (\<not> b \<Longrightarrow> m = Inr y \<Longrightarrow> P) \<Longrightarrow> P"
  by (auto split: if_splits)

fun efold :: "('a \<Rightarrow> 's \<Rightarrow> 'e + 's) \<Rightarrow> 'a list \<Rightarrow> 's \<Rightarrow> 'e + 's" where
  "efold f [] s = Inr s"
| "efold f (x # xs) s = ebind (f x s) (efold f xs)"

lemma efold_append [simp]: "efold f (xs @ ys) s = ebind (efold f xs s) (efold f ys)"
proof (induction xs arbitrary: s)
  case (Cons x xs)
  then show ?case by (cases "f x s") auto
qed simp

lemma efold_invariant:
  "efold f xs s = Inr t \<Longrightarrow> (\<And>x s t. x \<in> set xs \<Longrightarrow> I s \<Longrightarrow> f x s = Inr t \<Longrightarrow> I t) \<Longrightarrow> I s \<Longrightarrow> I t"
proof (induction xs arbitrary: s)
  case (Cons x xs)
  from Cons.prems(1) obtain u where u: "f x s = Inr u" "efold f xs u = Inr t"
    by (auto elim: ebind_Inr)
  have "I u" using Cons.prems(2) [OF _ Cons.prems(3) u(1)] by simp
  with Cons.IH [OF u(2)] Cons.prems(2) show ?case by auto
qed simp

lemma efold_each: "efold f xs s = Inr t \<Longrightarrow> x \<in> set xs \<Longrightarrow> \<exists>u v. f x u = Inr v"
proof (induction xs arbitrary: s)
  case (Cons y ys)
  then show ?case by (cases "f y s") auto
qed simp

lemma fold_invariant: "I s \<Longrightarrow> (\<And>x s. x \<in> set xs \<Longrightarrow> I s \<Longrightarrow> I (f x s)) \<Longrightarrow> I (fold f xs s)"
  by (induction xs arbitrary: s) auto

lemma efold_map: "efold f (map g xs) s = efold (\<lambda>x. f (g x)) xs s"
proof (induction xs arbitrary: s)
  case (Cons x xs)
  then show ?case by (cases "f (g x) s") auto
qed simp

text \<open>Stable sorting: an element with a key no other has goes to its place.\<close>

lemma sort_key_snoc:
  "f c \<notin> f ` set xs \<Longrightarrow> sort_key f (xs @ [c]) = insort_key f c (sort_key f xs)"
proof (induction xs)
  case (Cons x xs)
  then have "sort_key f ((x # xs) @ [c]) = insort_key f x (insort_key f c (sort_key f xs))" by simp
  also have "\<dots> = insort_key f c (insort_key f x (sort_key f xs))"
    by (rule insort_key_left_comm) (use Cons.prems in auto)
  finally show ?case by simp
qed simp

lemma map_insort_key:
  "g c = g c' \<Longrightarrow> (\<And>y. y \<in> set ys \<Longrightarrow> (f c \<le> f y) = (f c' \<le> f y)) \<Longrightarrow>
   map g (insort_key f c ys) = map g (insort_key f c' ys)"
  by (induction ys) auto

end
