(* ===== verification/Rounding.thy ===== *)
theory Rounding
  imports Complex_Main
begin

text \<open>
  Floating-point rounding over exact rationals, for any base \<open>b \<ge> 2\<close>, precision \<open>p\<close> and least
  exponent \<open>emin\<close>: round to nearest, ties to even.  Python's \<open>float\<close> is the instance
  \<open>b = 2, p = 53, emin = -1074\<close> (theory \<open>PyFloat\<close>); the arithmetic of \<open>decimal.Decimal\<close> under
  its default context is the instance \<open>b = 10, p = 28\<close> (theory \<open>PyDecimal\<close>).  Everything is
  executable.  The lemmas give what the programs rely on: rounding is monotone, keeps the sign,
  is odd, and returns a representable number unchanged.
\<close>

section \<open>Rounding to an integer, ties to even\<close>

definition rhe :: "rat \<Rightarrow> int" where
  "rhe x = (let f = \<lfloor>x\<rfloor>; d = x - of_int f in
     if d < 1 / 2 then f else if 1 / 2 < d then f + 1 else if even f then f else f + 1)"

lemma rhe_of_int [simp]: "rhe (of_int n) = n"
  by (simp add: rhe_def)

lemma rhe_0 [simp]: "rhe 0 = 0"
  using rhe_of_int [of 0] by simp

lemma rhe_cases: "rhe x = \<lfloor>x\<rfloor> \<or> rhe x = \<lfloor>x\<rfloor> + 1"
  by (auto simp: rhe_def Let_def)

lemma rhe_error: "\<bar>of_int (rhe x) - x\<bar> \<le> 1 / 2"
proof -
  have "of_int \<lfloor>x\<rfloor> \<le> x" and "x < of_int \<lfloor>x\<rfloor> + 1" by linarith+
  then show ?thesis by (auto simp: rhe_def Let_def abs_le_iff)
qed

lemma rhe_mono:
  assumes "x \<le> y"
  shows "rhe x \<le> rhe y"
proof (cases "\<lfloor>x\<rfloor> = \<lfloor>y\<rfloor>")
  case True
  then show ?thesis using assms by (auto simp: rhe_def Let_def)
next
  case False
  then have "\<lfloor>x\<rfloor> + 1 \<le> \<lfloor>y\<rfloor>" using floor_mono [OF assms] by linarith
  then show ?thesis using rhe_cases [of x] rhe_cases [of y] by linarith
qed

lemma rhe_minus [simp]: "rhe (- x) = - rhe x"
proof (cases "x \<in> \<int>")
  case True
  then obtain n where "x = of_int n" by (elim Ints_cases)
  then show ?thesis using rhe_of_int [of "- n"] by simp
next
  case False
  have lt: "of_int \<lfloor>x\<rfloor> < x"
    using False by (metis Ints_of_int of_int_floor_le order_le_less)
  have fl: "\<lfloor>- x\<rfloor> = - \<lfloor>x\<rfloor> - 1"
    by (rule floor_unique) (use lt floor_correct [of x] in auto)
  show ?thesis unfolding rhe_def Let_def fl by auto
qed

lemma rhe_le_int: "x \<le> of_int n \<Longrightarrow> rhe x \<le> n"
  using rhe_mono [of x "of_int n"] by simp

lemma rhe_ge_int: "of_int n \<le> x \<Longrightarrow> n \<le> rhe x"
  using rhe_mono [of "of_int n" x] by simp

section \<open>Powers with an integer exponent and the integer logarithm\<close>

definition scale :: "nat \<Rightarrow> int \<Rightarrow> rat" where
  "scale b e = (if 0 \<le> e then of_nat b ^ nat e else 1 / of_nat b ^ nat (- e))"

lemma scale_pos [simp]: "0 < b \<Longrightarrow> 0 < scale b e"
  by (simp add: scale_def)

lemma scale_nonzero [simp]: "0 < b \<Longrightarrow> scale b e \<noteq> 0"
  using scale_pos [of b e] by linarith

lemma scale_0 [simp]: "scale b 0 = 1"
  by (simp add: scale_def)

lemma scale_of_nat: "scale b (int n) = of_nat (b ^ n)"
  by (simp add: scale_def)

lemma scale_Suc:
  assumes "0 < b"
  shows "scale b (e + 1) = of_nat b * scale b e"
proof (cases "0 \<le> e")
  case True
  then show ?thesis by (simp add: scale_def nat_add_distrib)
next
  case False
  then have "nat (- e) = Suc (nat (- (e + 1)))" by simp
  with False assms show ?thesis by (cases "e = - 1") (auto simp: scale_def)
qed

lemma scale_add_nat: "0 < b \<Longrightarrow> scale b (e + int n) = scale b e * of_nat (b ^ n)"
proof (induction n)
  case 0
  show ?case by simp
next
  case (Suc n)
  have "scale b (e + int (Suc n)) = scale b ((e + int n) + 1)" by (simp add: ac_simps)
  also have "\<dots> = of_nat b * (scale b e * of_nat (b ^ n))"
    using Suc scale_Suc [of b "e + int n"] by simp
  finally show ?case by simp
qed

lemma scale_mono:
  assumes "0 < b" and "e \<le> f"
  shows "scale b e \<le> scale b f"
proof -
  obtain n where f: "f = e + int n"
    using assms(2) zle_iff_zadd by blast
  have "(1::rat) \<le> of_nat (b ^ n)" using assms(1) by (simp add: Suc_leI)
  then have "scale b e * 1 \<le> scale b e * of_nat (b ^ n)"
    using scale_pos [OF assms(1), of e] by (intro mult_left_mono) auto
  then show ?thesis using scale_add_nat [OF assms(1)] f by simp
qed

text \<open>The number of base-\<open>b\<close> digits of a positive integer (0 for the others).\<close>

function ndigits :: "int \<Rightarrow> int \<Rightarrow> int" where
  "ndigits b n = (if b < 2 \<or> n \<le> 0 then 0 else 1 + ndigits b (n div b))"
  by pat_completeness auto
termination
proof (relation "measure (\<lambda>(b, n). nat n)")
  fix b n :: int
  assume "\<not> (b < 2 \<or> n \<le> 0)"
  then have "n div b < n" by (intro int_div_less_self) auto
  with \<open>\<not> (b < 2 \<or> n \<le> 0)\<close> show "((b, n div b), (b, n)) \<in> measure (\<lambda>(b, n). nat n)" by simp
qed simp

declare ndigits.simps [simp del]

lemma ndigits_nonneg: "0 \<le> ndigits b n"
proof (induction b n rule: ndigits.induct)
  case (1 b n)
  then show ?case by (subst ndigits.simps) auto
qed

lemma ndigits_pos: "2 \<le> b \<Longrightarrow> 0 < n \<Longrightarrow> 0 < ndigits b n"
  using ndigits_nonneg [of b "n div b"] by (simp add: ndigits.simps [of b n])

lemma ndigits_lower: "2 \<le> b \<Longrightarrow> 0 < n \<Longrightarrow> b ^ nat (ndigits b n - 1) \<le> n"
proof (induction b n rule: ndigits.induct)
  case (1 b n)
  show ?case
  proof (cases "n < b")
    case True
    then have "ndigits b (n div b) = 0" using 1 by (simp add: ndigits.simps [of b 0] zdiv_eq_0_iff)
    with 1 show ?thesis by (simp add: ndigits.simps [of b n])
  next
    case False
    then have pos: "0 < n div b" using 1 by (simp add: pos_imp_zdiv_pos_iff)
    then have IH: "b ^ nat (ndigits b (n div b) - 1) \<le> n div b" using 1 by auto
    have dpos: "0 < ndigits b (n div b)" using ndigits_pos pos 1 by simp
    then have "nat (ndigits b n - 1) = Suc (nat (ndigits b (n div b) - 1))"
      using 1 by (simp add: ndigits.simps [of b n])
    then have "b ^ nat (ndigits b n - 1) = b * b ^ nat (ndigits b (n div b) - 1)" by simp
    also have "\<dots> \<le> b * (n div b)" using IH 1 by (intro mult_left_mono) auto
    also have "\<dots> \<le> n" using 1 by (metis cancel_ab_semigroup_add_class.add_diff_cancel_left'
        diff_ge_0_iff_ge mult_div_mod_eq pos_mod_sign zero_less_numeral less_le_trans)
    finally show ?thesis .
  qed
qed

lemma ndigits_upper: "2 \<le> b \<Longrightarrow> n < b ^ nat (ndigits b n)"
proof (induction b n rule: ndigits.induct)
  case (1 b n)
  show ?case
  proof (cases "n \<le> 0")
    case True
    then show ?thesis by (simp add: ndigits.simps [of b n])
  next
    case False
    then have IH: "n div b < b ^ nat (ndigits b (n div b))" using 1 by auto
    then have "b * (n div b + 1) \<le> b * b ^ nat (ndigits b (n div b))"
      using 1 by (intro mult_left_mono) auto
    moreover have "n < b * (n div b + 1)"
      using pos_mod_bound [of b n] mult_div_mod_eq [of b n] 1 by (simp only: distrib_left) linarith
    moreover have "b ^ nat (ndigits b n) = b * b ^ nat (ndigits b (n div b))"
      using False 1 ndigits_nonneg [of b "n div b"] by (simp add: ndigits.simps [of b n] nat_add_distrib)
    ultimately show ?thesis by simp
  qed
qed

text \<open>\<open>ilog b x\<close> is the \<open>e\<close> with \<open>b\<^sup>e \<le> \<bar>x\<bar> < b\<^sup>e\<^sup>+\<^sup>1\<close>.\<close>

definition ilog :: "nat \<Rightarrow> rat \<Rightarrow> int" where
  "ilog b x = (let (n, d) = quotient_of \<bar>x\<bar>; k = ndigits (int b) n - ndigits (int b) d
     in if scale b k \<le> \<bar>x\<bar> then k else k - 1)"


lemma ndigits_rat:
  assumes "2 \<le> b" and "0 < n"
  shows "scale b (ndigits (int b) n - 1) \<le> of_int n" and "of_int n < scale b (ndigits (int b) n)"
proof -
  have pos: "0 < ndigits (int b) n" using ndigits_pos [of "int b" n] assms by simp
  have "scale b (ndigits (int b) n - 1) = of_int (int b ^ nat (ndigits (int b) n - 1))"
    using pos by (simp add: scale_def)
  also have "\<dots> \<le> of_int n" using ndigits_lower [of "int b" n] assms by (simp only: of_int_le_iff)
  finally show "scale b (ndigits (int b) n - 1) \<le> of_int n" .
  have "of_int n < (of_int (int b ^ nat (ndigits (int b) n)) :: rat)"
    using ndigits_upper [of "int b" n] assms(1) by (simp only: of_int_less_iff)
  then show "of_int n < scale b (ndigits (int b) n)" using pos by (simp add: scale_def)
qed

lemma scale_add: "0 < b \<Longrightarrow> scale b (e + f) = scale b e * scale b f"
proof (cases "0 \<le> f")
  case True
  assume "0 < b"
  with True show ?thesis using scale_add_nat [of b e "nat f"] by (simp add: scale_def)
next
  case False
  assume b: "0 < b"
  have "scale b e = scale b ((e + f) + int (nat (- f)))" using False by simp
  also have "\<dots> = scale b (e + f) * scale b (- f)"
    using scale_add_nat [OF b, of "e + f" "nat (- f)"] False by (simp add: scale_def)
  finally have "scale b e * scale b f = scale b (e + f) * (scale b (- f) * scale b f)" by simp
  moreover have "scale b (- f) * scale b f = 1" using b False by (simp add: scale_def)
  ultimately show ?thesis by simp
qed

lemma scale_strict: "2 \<le> b \<Longrightarrow> e < f \<Longrightarrow> scale b e < scale b f"
proof -
  assume b: "2 \<le> b" and ef: "e < f"
  have "scale b e < of_nat b * scale b e" using b scale_pos [of b e] by simp
  also have "\<dots> = scale b (e + 1)" using b scale_Suc [of b e] by simp
  also have "\<dots> \<le> scale b f" using b ef by (intro scale_mono) auto
  finally show ?thesis .
qed

lemma scale_less_cancel: "2 \<le> b \<Longrightarrow> scale b e < scale b f \<Longrightarrow> e < f"
  using scale_mono [of b f e] by fastforce

lemma ilog_bounds:
  assumes b: "2 \<le> b" and x: "x \<noteq> 0"
  shows "scale b (ilog b x) \<le> \<bar>x\<bar>" and "\<bar>x\<bar> < scale b (ilog b x + 1)"
proof -
  obtain n d where q: "quotient_of \<bar>x\<bar> = (n, d)" by fastforce
  have d: "0 < d" using quotient_of_denom_pos [OF q] .
  have xq: "\<bar>x\<bar> = of_int n / of_int d" using quotient_of_div [OF q] .
  have n: "0 < n" using x d xq
    by (metis abs_ge_zero divide_eq_0_iff abs_eq_0 of_int_0 of_int_0_le_iff order_le_less
        zero_le_divide_iff of_int_less_0_iff not_less)
  define j where "j = ndigits (int b) n"
  define l where "l = ndigits (int b) d"
  have nn: "scale b (j - 1) \<le> of_int n" "of_int n < scale b j"
    using ndigits_rat [of b n] b n by (auto simp: j_def)
  have dd: "scale b (l - 1) \<le> of_int d" "of_int d < scale b l"
    using ndigits_rat [of b d] b d by (auto simp: l_def)
  have up: "\<bar>x\<bar> < scale b (j - l + 1)"
  proof -
    have "scale b j = scale b (j - l + 1) * scale b (l - 1)"
      using scale_add [of b "j - l + 1" "l - 1"] b by simp
    also have "\<dots> \<le> scale b (j - l + 1) * of_int d"
      using dd(1) b by (intro mult_left_mono) (auto intro: less_imp_le)
    finally have "of_int n < scale b (j - l + 1) * of_int d" using nn(2) by linarith
    then show ?thesis using d by (simp add: xq divide_less_eq)
  qed
  have lo: "scale b (j - l - 1) \<le> \<bar>x\<bar>"
  proof -
    have "scale b (j - l - 1) * of_int d \<le> scale b (j - l - 1) * scale b l"
      using dd(2) b by (intro mult_left_mono) (auto intro: less_imp_le)
    also have "\<dots> = scale b (j - 1)" using scale_add [of b "j - l - 1" l] b by simp
    finally have "scale b (j - l - 1) * of_int d \<le> of_int n" using nn(1) by linarith
    then show ?thesis using d by (simp add: xq le_divide_eq)
  qed
  have il: "ilog b x = (if scale b (j - l) \<le> \<bar>x\<bar> then j - l else j - l - 1)"
    by (simp add: ilog_def q j_def l_def Let_def)
  show "scale b (ilog b x) \<le> \<bar>x\<bar>" and "\<bar>x\<bar> < scale b (ilog b x + 1)"
    using up lo by (auto simp: il)
qed

lemma ilog_unique:
  assumes "2 \<le> b" and "scale b e \<le> \<bar>x\<bar>" and "\<bar>x\<bar> < scale b (e + 1)"
  shows "ilog b x = e"
proof -
  have "0 < scale b e" using assms(1) by simp
  then have x: "x \<noteq> 0" using assms(2) by linarith
  have "scale b (ilog b x) < scale b (e + 1)" and "scale b e < scale b (ilog b x + 1)"
    using ilog_bounds [OF assms(1) x] assms by linarith+
  then have "ilog b x < e + 1" and "e < ilog b x + 1" using scale_less_cancel [OF assms(1)] by blast+
  then show ?thesis by simp
qed

lemma ilog_le:
  assumes "2 \<le> b" and "x \<noteq> 0" and "\<bar>x\<bar> < scale b (e + 1)"
  shows "ilog b x \<le> e"
proof -
  have "scale b (ilog b x) < scale b (e + 1)" using ilog_bounds(1) [OF assms(1,2)] assms(3) by linarith
  then show ?thesis using scale_less_cancel [OF assms(1)] by fastforce
qed

lemma ilog_mono:
  assumes "2 \<le> b" and "0 < x" and "x \<le> y"
  shows "ilog b x \<le> ilog b y"
  using ilog_le [of b x "ilog b y"] ilog_bounds(2) [of b y] assms by auto

section \<open>Rounding to \<open>p\<close> digits\<close>

definition rexp :: "nat \<Rightarrow> nat \<Rightarrow> int \<Rightarrow> rat \<Rightarrow> int" where
  "rexp b p emin x = max emin (ilog b x - (int p - 1))"

definition rnd :: "nat \<Rightarrow> nat \<Rightarrow> int \<Rightarrow> rat \<Rightarrow> rat" where
  "rnd b p emin x =
     (if x = 0 then 0 else let s = scale b (rexp b p emin x) in of_int (rhe (x / s)) * s)"

text \<open>The representable numbers: \<open>p\<close>-digit integers times a power of the base.\<close>

definition representable :: "nat \<Rightarrow> nat \<Rightarrow> int \<Rightarrow> rat \<Rightarrow> bool" where
  "representable b p emin x \<longleftrightarrow>
     (\<exists>m e. emin \<le> e \<and> \<bar>m\<bar> \<le> int (b ^ p) \<and> x = of_int m * scale b e)"

lemma rnd_0 [simp]: "rnd b p emin 0 = 0"
  by (simp add: rnd_def)

lemma ilog_minus [simp]: "ilog b (- x) = ilog b x"
  by (simp add: ilog_def)

lemma rnd_minus [simp]: "rnd b p emin (- x) = - rnd b p emin x"
  by (simp add: rnd_def rexp_def Let_def)

lemma rnd_nonneg: "0 < b \<Longrightarrow> 0 \<le> x \<Longrightarrow> 0 \<le> rnd b p emin x"
proof -
  assume b: "0 < b" and x: "0 \<le> x"
  let ?s = "scale b (rexp b p emin x)"
  have "0 \<le> x / ?s" using x b by (simp add: less_imp_le)
  then have "0 \<le> rhe (x / ?s)" using rhe_ge_int [of 0 "x / ?s"] by simp
  then show ?thesis using b by (auto simp: rnd_def Let_def less_imp_le)
qed

lemma rnd_nonpos: "0 < b \<Longrightarrow> x \<le> 0 \<Longrightarrow> rnd b p emin x \<le> 0"
  using rnd_nonneg [of b "- x" p emin] by simp

lemma rnd_mono_pos:
  assumes b: "2 \<le> b" and p: "0 < p" and x: "0 < x" and le: "x \<le> y"
  shows "rnd b p emin x \<le> rnd b p emin y"
proof -
  define e where "e = rexp b p emin x"
  define f where "f = rexp b p emin y"
  have rx: "rnd b p emin x = of_int (rhe (x / scale b e)) * scale b e"
    using x by (simp add: rnd_def e_def Let_def)
  have ry: "rnd b p emin y = of_int (rhe (y / scale b f)) * scale b f"
    using x le by (simp add: rnd_def f_def Let_def)
  have pe: "0 < scale b e" and pf: "0 < scale b f" using b by auto
  have ef: "e \<le> f" using ilog_mono [OF b x le] by (simp add: e_def f_def rexp_def)
  show ?thesis
  proof (cases "e = f")
    case True
    have "rhe (x / scale b f) \<le> rhe (y / scale b f)"
      using le pf by (intro rhe_mono divide_right_mono) auto
    then show ?thesis using True rx ry pf by (simp add: mult_right_mono)
  next
    case False
    then have lt: "e < f" using ef by simp
    have fl: "f = ilog b y - (int p - 1)" using lt by (auto simp: e_def f_def rexp_def max_def split: if_splits)
    define c where "c = f + (int p - 1)"
    have ylow: "scale b c \<le> y"
      using ilog_bounds(1) [OF b, of y] x le by (simp add: fl c_def)
    have xup: "x \<le> scale b c"
    proof -
      have "ilog b x + 1 \<le> c" using lt by (simp add: e_def rexp_def c_def)
      then have "scale b (ilog b x + 1) \<le> scale b c" using b by (intro scale_mono) auto
      then show ?thesis using ilog_bounds(2) [OF b, of x] x by simp
    qed
    have bound: "rnd b p emin x \<le> scale b c"
    proof -
      have dec: "scale b c = of_int (int (b ^ nat (c - e))) * scale b e"
        using scale_add_nat [of b e "nat (c - e)"] b lt p by (simp add: c_def mult.commute)
      have "x / scale b e \<le> of_int (int (b ^ nat (c - e)))"
        using xup pe unfolding dec by (simp add: divide_le_eq)
      then have "rhe (x / scale b e) \<le> int (b ^ nat (c - e))" by (rule rhe_le_int)
      then have "of_int (rhe (x / scale b e)) * scale b e \<le> of_int (int (b ^ nat (c - e))) * scale b e"
        using pe by (intro mult_right_mono) (auto simp only: of_int_le_iff)
      then show ?thesis by (simp only: rx dec)
    qed
    have "scale b c \<le> rnd b p emin y"
    proof -
      have dec: "scale b c = of_int (int (b ^ (p - 1))) * scale b f"
        using scale_add_nat [of b f "p - 1"] b p by (simp add: c_def mult.commute of_nat_diff)
      have "of_int (int (b ^ (p - 1))) \<le> y / scale b f"
        using ylow pf unfolding dec by (simp add: le_divide_eq)
      then have "int (b ^ (p - 1)) \<le> rhe (y / scale b f)" by (rule rhe_ge_int)
      then have "of_int (int (b ^ (p - 1))) * scale b f \<le> of_int (rhe (y / scale b f)) * scale b f"
        using pf by (intro mult_right_mono) (auto simp only: of_int_le_iff)
      then show ?thesis by (simp only: ry dec)
    qed
    with bound show ?thesis by simp
  qed
qed

lemma rnd_mono:
  assumes b: "2 \<le> b" and p: "0 < p" and le: "x \<le> y"
  shows "rnd b p emin x \<le> rnd b p emin y"
proof -
  consider "0 < x" | "y < 0" | "x \<le> 0" "0 \<le> y" by linarith
  then show ?thesis
  proof cases
    case 1
    then show ?thesis using rnd_mono_pos [OF b p _ le] by simp
  next
    case 2
    then show ?thesis using rnd_mono_pos [OF b p, of "- y" "- x" emin] le by simp
  next
    case 3
    then show ?thesis using rnd_nonneg [of b y p emin] rnd_nonpos [of b x p emin] b by simp
  qed
qed

text \<open>A representable number is returned unchanged, and every result is representable.\<close>

lemma rnd_exact:
  assumes b: "2 \<le> b" and e: "emin \<le> e" and m: "\<bar>m\<bar> \<le> int (b ^ p)" and p: "0 < p"
  shows "rnd b p emin (of_int m * scale b e) = of_int m * scale b e"
proof (cases "m = 0")
  case True
  then show ?thesis by simp
next
  case False
  let ?x = "of_int m * scale b e"
  have x0: "?x \<noteq> 0" using False b by simp
  have abs: "\<bar>?x\<bar> = of_int \<bar>m\<bar> * scale b e" using scale_pos [of b e] b by (simp add: abs_mult del: scale_pos)
  have rexp_le: "rexp b p emin ?x \<le> e \<or> \<bar>m\<bar> = int (b ^ p)"
  proof (cases "\<bar>m\<bar> < int (b ^ p)")
    case True
    have "of_int \<bar>m\<bar> * scale b e < of_int (int (b ^ p)) * scale b e"
      using True scale_pos [of b e] b by (intro mult_strict_right_mono) (auto simp only: of_int_less_iff)
    also have "\<dots> = scale b (e + int p)" using scale_add_nat [of b e p] b by (simp add: mult.commute)
    finally have "\<bar>?x\<bar> < scale b ((e + int p - 1) + 1)" using abs by simp
    then have "ilog b ?x \<le> e + int p - 1" by (rule ilog_le [OF b x0])
    then show ?thesis using e by (simp add: rexp_def)
  next
    case False
    then show ?thesis using m by simp
  qed
  have ex: "\<exists>k. ?x / scale b (rexp b p emin ?x) = of_int k"
    using rexp_le
  proof
    assume le: "rexp b p emin ?x \<le> e"
    define g where "g = rexp b p emin ?x"
    have "scale b e = scale b g * of_nat (b ^ nat (e - g))"
      using scale_add_nat [of b g "nat (e - g)"] b le by (simp add: g_def)
    then have "?x / scale b g = of_int (m * int (b ^ nat (e - g)))" using b by simp
    then show ?thesis unfolding g_def by blast
  next
    assume full: "\<bar>m\<bar> = int (b ^ p)"
    have ax: "\<bar>?x\<bar> = scale b (e + int p)"
      using scale_add_nat [of b e p] b full by (simp add: abs mult.commute)
    have "scale b (e + int p) < scale b ((e + int p) + 1)" using b by (intro scale_strict) auto
    with ax have "ilog b ?x \<le> e + int p" by (intro ilog_le [OF b x0]) simp
    then have le: "rexp b p emin ?x \<le> e + 1" using e by (simp add: rexp_def)
    define g where "g = rexp b p emin ?x"
    have "scale b (e + int p) = scale b g * of_nat (b ^ nat (e + int p - g))"
      using scale_add_nat [of b g "nat (e + int p - g)"] b le p by (simp add: g_def)
    then have ab: "\<bar>?x\<bar> / scale b g = of_int (int (b ^ nat (e + int p - g)))"
      using ax b by simp
    have "?x / scale b g = \<bar>?x\<bar> / scale b g \<or> ?x / scale b g = - (\<bar>?x\<bar> / scale b g)"
      by (cases "0 \<le> ?x") auto
    then show ?thesis using ab unfolding g_def by (metis of_int_minus)
  qed
  then obtain k where k: "?x / scale b (rexp b p emin ?x) = of_int k" by blast
  then have "of_int k * scale b (rexp b p emin ?x) = ?x"
    using b by (metis nonzero_eq_divide_eq scale_nonzero less_le_trans zero_less_numeral)
  then show ?thesis using x0 k by (simp add: rnd_def Let_def)
qed

lemma rnd_representable:
  "2 \<le> b \<Longrightarrow> 0 < p \<Longrightarrow> representable b p emin x \<Longrightarrow> rnd b p emin x = x"
  by (auto simp: representable_def rnd_exact)

lemma representable_0 [simp]: "representable b p emin 0"
  unfolding representable_def by (intro exI [of _ 0] exI [of _ emin]) simp

lemma representable_rnd:
  assumes b: "2 \<le> b" and p: "0 < p"
  shows "representable b p emin (rnd b p emin x)"
proof (cases "x = 0")
  case True
  then show ?thesis by simp
next
  case False
  define e where "e = rexp b p emin x"
  have pe: "0 < scale b e" using b by simp
  have ax: "\<bar>x\<bar> \<le> scale b (e + int p)"
  proof -
    have "scale b (ilog b x + 1) \<le> scale b (e + int p)"
      using b by (intro scale_mono) (auto simp: e_def rexp_def)
    then show ?thesis using ilog_bounds(2) [OF b False] by linarith
  qed
  have "\<bar>x\<bar> / scale b e \<le> of_int (int (b ^ p))"
    using ax pe b scale_add_nat [of b e p] by (simp add: divide_le_eq mult.commute)
  then have "x / scale b e \<le> of_int (int (b ^ p))" and "of_int (- int (b ^ p)) \<le> x / scale b e"
    using pe by (auto simp: divide_le_eq le_divide_eq abs_le_iff)
  then have "\<bar>rhe (x / scale b e)\<bar> \<le> int (b ^ p)"
    using rhe_le_int rhe_ge_int by (fastforce simp: abs_le_iff)
  moreover have "emin \<le> e" by (simp add: e_def rexp_def)
  ultimately show ?thesis using False
    unfolding representable_def rnd_def Let_def e_def by auto
qed

lemma rnd_idem [simp]: "2 \<le> b \<Longrightarrow> 0 < p \<Longrightarrow> rnd b p emin (rnd b p emin x) = rnd b p emin x"
  by (simp add: representable_rnd rnd_representable)

lemma representable_int:
  "emin \<le> 0 \<Longrightarrow> \<bar>n\<bar> \<le> int (b ^ p) \<Longrightarrow> representable b p emin (of_int n)"
  unfolding representable_def by (intro exI [of _ n] exI [of _ 0]) simp

lemma rnd_le_representable:
  "2 \<le> b \<Longrightarrow> 0 < p \<Longrightarrow> x \<le> y \<Longrightarrow> representable b p emin y \<Longrightarrow> rnd b p emin x \<le> y"
  using rnd_mono [of b p x y emin] rnd_representable [of b p emin y] by simp

lemma rnd_ge_representable:
  "2 \<le> b \<Longrightarrow> 0 < p \<Longrightarrow> x \<le> y \<Longrightarrow> representable b p emin x \<Longrightarrow> x \<le> rnd b p emin y"
  using rnd_mono [of b p x y emin] rnd_representable [of b p emin x] by simp


section \<open>Evaluation\<close>

text \<open>
  Code equations over integers, so that closed instances evaluate quickly: \<open>rhe_div n d\<close> is the
  integer nearest \<open>n / d\<close>, ties to even.
\<close>

definition rhe_div :: "int \<Rightarrow> int \<Rightarrow> int" where
  "rhe_div n d = (let q = n div d; r = 2 * (n mod d) in
     if r < d then q else if d < r then q + 1 else if even q then q else q + 1)"

lemma rhe_div:
  assumes d: "0 < d"
  shows "rhe (of_int n / of_int d) = rhe_div n d"
proof -
  have fl: "\<lfloor>(of_int n / of_int d :: rat)\<rfloor> = n div d" by (simp add: floor_divide_of_int_eq)
  have "(of_int n :: rat) = of_int (n div d) * of_int d + of_int (n mod d)"
    by (metis div_mult_mod_eq of_int_add of_int_mult)
  then have fr: "(of_int n / of_int d :: rat) - of_int (n div d) = of_int (n mod d) / of_int d"
    using d by (simp add: field_simps)
  have dr: "(0::rat) < of_int d" using d by simp
  have two: "(of_int (2 * m) :: rat) = 2 * of_int m" for m by simp
  have "(of_int (n mod d) / of_int d < (1 / 2 :: rat)) = (of_int (2 * (n mod d)) < (of_int d :: rat))"
    using dr unfolding two by (simp add: divide_less_eq mult.commute)
  then have "(of_int (n mod d) / of_int d < (1 / 2 :: rat)) = (2 * (n mod d) < d)"
    by (simp only: of_int_less_iff)
  moreover have "((1 / 2 :: rat) < of_int (n mod d) / of_int d) = ((of_int d :: rat) < of_int (2 * (n mod d)))"
    using dr unfolding two by (simp add: less_divide_eq mult.commute)
  then have "((1 / 2 :: rat) < of_int (n mod d) / of_int d) = (d < 2 * (n mod d))"
    by (simp only: of_int_less_iff)
  ultimately show ?thesis by (simp only: rhe_def rhe_div_def Let_def fl fr)
qed

definition ilog_frac :: "nat \<Rightarrow> int \<Rightarrow> int \<Rightarrow> int" where
  "ilog_frac b n d = (let k = ndigits (int b) n - ndigits (int b) d in
     if (if 0 \<le> k then int b ^ nat k * d \<le> n else d \<le> n * int b ^ nat (- k)) then k else k - 1)"

lemma ilog_eq:
  assumes b: "2 \<le> b" and q: "quotient_of x = (n, d)"
  shows "ilog b x = ilog_frac b \<bar>n\<bar> d"
proof -
  have d: "0 < d" using quotient_of_denom_pos [OF q] .
  have xq: "x = of_int n / of_int d" using quotient_of_div [OF q] .
  have qa: "quotient_of \<bar>x\<bar> = (\<bar>n\<bar>, d)" using q by (simp add: rat_abs_code)
  have "scale b k \<le> \<bar>x\<bar> \<longleftrightarrow>
      (if 0 \<le> k then int b ^ nat k * d \<le> \<bar>n\<bar> else d \<le> \<bar>n\<bar> * int b ^ nat (- k))" for k
  proof (cases "0 \<le> k")
    case True
    have "scale b k \<le> \<bar>x\<bar> \<longleftrightarrow> (of_int (int b ^ nat k * d) :: rat) \<le> of_int \<bar>n\<bar>"
      using True d by (simp add: xq scale_def le_divide_eq)
    then show ?thesis using True by (simp only: of_int_le_iff if_True)
  next
    case False
    have "scale b k \<le> \<bar>x\<bar> \<longleftrightarrow> (of_int d :: rat) \<le> of_int (\<bar>n\<bar> * int b ^ nat (- k))"
      using False d b by (simp add: xq scale_def field_simps)
    then show ?thesis using False by (simp only: of_int_le_iff if_False)
  qed
  then show ?thesis using qa by (simp add: ilog_def ilog_frac_def Let_def)
qed

definition rnd_frac :: "nat \<Rightarrow> nat \<Rightarrow> int \<Rightarrow> int \<Rightarrow> int \<Rightarrow> rat" where
  "rnd_frac b p emin n d =
     (if n = 0 then 0
      else let e = max emin (ilog_frac b \<bar>n\<bar> d - (int p - 1)) in
        if 0 \<le> e then of_int (rhe_div n (d * int b ^ nat e) * int b ^ nat e)
        else of_int (rhe_div (n * int b ^ nat (- e)) d) / of_int (int b ^ nat (- e)))"

lemma rnd_eq:
  assumes b: "2 \<le> b" and q: "quotient_of x = (n, d)"
  shows "rnd b p emin x = rnd_frac b p emin n d"
proof (cases "n = 0")
  case True
  then show ?thesis using quotient_of_div [OF q] by (simp add: rnd_frac_def)
next
  case False
  have d: "0 < d" using quotient_of_denom_pos [OF q] .
  have xq: "x = of_int n / of_int d" using quotient_of_div [OF q] .
  have x0: "x \<noteq> 0" using d False by (simp add: xq)
  define e where "e = max emin (ilog_frac b \<bar>n\<bar> d - (int p - 1))"
  have r: "rnd b p emin x = of_int (rhe (x / scale b e)) * scale b e"
    using x0 by (simp add: rnd_def Let_def rexp_def ilog_eq [OF b q] e_def)
  show ?thesis
  proof (cases "0 \<le> e")
    case True
    have "x / scale b e = of_int n / of_int (d * int b ^ nat e)"
      using True by (simp add: xq scale_def)
    moreover have "0 < d * int b ^ nat e" using d b by simp
    ultimately have "rhe (x / scale b e) = rhe_div n (d * int b ^ nat e)" using rhe_div by metis
    then show ?thesis using True False by (simp add: r rnd_frac_def e_def [symmetric] Let_def scale_def)
  next
    case neg: False
    have "x / scale b e = of_int (n * int b ^ nat (- e)) / of_int d"
      using neg by (simp add: xq scale_def)
    then have "rhe (x / scale b e) = rhe_div (n * int b ^ nat (- e)) d" using rhe_div [OF d] by metis
    then show ?thesis using neg False by (simp add: r rnd_frac_def e_def [symmetric] Let_def scale_def)
  qed
qed

end
