(* ===== verification/PyFloat.thy ===== *)
theory PyFloat
  imports Rounding Prelude
begin

text \<open>
  Python's \<open>float\<close>: IEEE binary64 with round to nearest, ties to even.  A finite value is the
  exact rational it denotes; a rounded magnitude of \<open>2\<^sup>1\<^sup>0\<^sup>2\<^sup>4\<close> or more is an infinity; infinities and NaN are values of their own.  The two zeros are one
  value: the only operations that tell them apart (a division by zero, the sign of an infinity it
  gives) raise \<open>ZeroDivisionError\<close> in Python, and none of the modelled code prints or copies a
  sign.  Comparisons with NaN are false, and \<open>max\<close>/\<open>min\<close> keep their first argument unless the
  second beats it, so the order of the arguments matters when one is NaN.
\<close>

section \<open>Values and rounding\<close>

datatype pyfloat = Fin rat | PInf | MInf | NaN

definition rnd64 :: "rat \<Rightarrow> rat" where
  "rnd64 x = rnd 2 53 (- 1074) x"

definition ilog2 :: "rat \<Rightarrow> int" where
  "ilog2 x = ilog 2 x"

lemma rnd64_code [code]: "rnd64 x = (case quotient_of x of (n, d) \<Rightarrow> rnd_frac 2 53 (- 1074) n d)"
  by (simp add: rnd64_def rnd_eq split: prod.split)

lemma ilog2_code [code]: "ilog2 x = (case quotient_of x of (n, d) \<Rightarrow> ilog_frac 2 \<bar>n\<bar> d)"
  by (simp add: ilog2_def ilog_eq split: prod.split)

abbreviation is_double :: "rat \<Rightarrow> bool" where
  "is_double x \<equiv> representable 2 53 (- 1074) x"

definition fl :: "rat \<Rightarrow> pyfloat" where
  "fl x = (let r = rnd64 x in
     if r \<noteq> 0 \<and> 1024 \<le> ilog2 r then (if 0 < r then PInf else MInf) else Fin r)"

text \<open>A literal of the source, as the parser reads it: \<open>flit n d\<close> is the double nearest \<open>n/d\<close>.\<close>

definition flit :: "int \<Rightarrow> int \<Rightarrow> pyfloat" where
  "flit n d = fl (of_int n / of_int d)"

definition fint :: "int \<Rightarrow> pyfloat" where
  "fint n = fl (of_int n)"

section \<open>Arithmetic\<close>

fun fneg :: "pyfloat \<Rightarrow> pyfloat" where
  "fneg (Fin x) = Fin (- x)"
| "fneg PInf = MInf"
| "fneg MInf = PInf"
| "fneg NaN = NaN"

fun fabs :: "pyfloat \<Rightarrow> pyfloat" where
  "fabs (Fin x) = Fin \<bar>x\<bar>"
| "fabs PInf = PInf"
| "fabs MInf = PInf"
| "fabs NaN = NaN"

fun fadd :: "pyfloat \<Rightarrow> pyfloat \<Rightarrow> pyfloat" where
  "fadd (Fin x) (Fin y) = fl (x + y)"
| "fadd NaN y = NaN"
| "fadd x NaN = NaN"
| "fadd PInf MInf = NaN"
| "fadd MInf PInf = NaN"
| "fadd PInf y = PInf"
| "fadd x PInf = PInf"
| "fadd MInf y = MInf"
| "fadd x MInf = MInf"

definition fsub :: "pyfloat \<Rightarrow> pyfloat \<Rightarrow> pyfloat" where
  "fsub x y = fadd x (fneg y)"

definition inf_of_sign :: "rat \<Rightarrow> pyfloat" where
  "inf_of_sign x = (if x = 0 then NaN else if 0 < x then PInf else MInf)"

fun fmul :: "pyfloat \<Rightarrow> pyfloat \<Rightarrow> pyfloat" where
  "fmul (Fin x) (Fin y) = fl (x * y)"
| "fmul NaN y = NaN"
| "fmul x NaN = NaN"
| "fmul PInf (Fin y) = inf_of_sign y"
| "fmul (Fin x) PInf = inf_of_sign x"
| "fmul MInf (Fin y) = inf_of_sign (- y)"
| "fmul (Fin x) MInf = inf_of_sign (- x)"
| "fmul PInf PInf = PInf"
| "fmul MInf MInf = PInf"
| "fmul PInf MInf = MInf"
| "fmul MInf PInf = MInf"

text \<open>
  \<open>fdiv\<close> is the quotient for a divisor that is not zero; \<open>py_div\<close> adds Python's
  \<open>ZeroDivisionError\<close> (the value \<open>None\<close>).
\<close>

fun fdiv :: "pyfloat \<Rightarrow> pyfloat \<Rightarrow> pyfloat" where
  "fdiv (Fin x) (Fin y) = fl (x / y)"
| "fdiv NaN y = NaN"
| "fdiv x NaN = NaN"
| "fdiv (Fin x) PInf = Fin 0"
| "fdiv (Fin x) MInf = Fin 0"
| "fdiv PInf (Fin y) = (if y < 0 then MInf else PInf)"
| "fdiv MInf (Fin y) = (if y < 0 then PInf else MInf)"
| "fdiv x y = NaN"

definition py_div :: "pyfloat \<Rightarrow> pyfloat \<Rightarrow> pyfloat option" where
  "py_div x y = (if y = Fin 0 then None else Some (fdiv x y))"

section \<open>Comparison\<close>

fun flt :: "pyfloat \<Rightarrow> pyfloat \<Rightarrow> bool" where
  "flt (Fin x) (Fin y) = (x < y)"
| "flt NaN y = False"
| "flt x NaN = False"
| "flt MInf MInf = False"
| "flt MInf y = True"
| "flt x MInf = False"
| "flt PInf y = False"
| "flt x PInf = True"

fun feq :: "pyfloat \<Rightarrow> pyfloat \<Rightarrow> bool" where
  "feq NaN y = False"
| "feq x NaN = False"
| "feq x y = (x = y)"

definition fle :: "pyfloat \<Rightarrow> pyfloat \<Rightarrow> bool" where
  "fle x y \<longleftrightarrow> flt x y \<or> feq x y"

definition between :: "pyfloat \<Rightarrow> pyfloat \<Rightarrow> pyfloat \<Rightarrow> bool" where
  "between lo x hi \<longleftrightarrow> fle lo x \<and> fle x hi"

definition py_max :: "pyfloat \<Rightarrow> pyfloat \<Rightarrow> pyfloat" where
  "py_max x y = (if flt x y then y else x)"

definition py_min :: "pyfloat \<Rightarrow> pyfloat \<Rightarrow> pyfloat" where
  "py_min x y = (if flt y x then y else x)"

definition finite_float :: "pyfloat \<Rightarrow> bool" where
  "finite_float x \<longleftrightarrow> (case x of Fin _ \<Rightarrow> True | _ \<Rightarrow> False)"

text \<open>The values a Python float can have: a finite one is a double below the overflow bound.\<close>

definition wf_float :: "pyfloat \<Rightarrow> bool" where
  "wf_float x \<longleftrightarrow> (case x of Fin r \<Rightarrow> is_double r \<and> \<bar>r\<bar> < 2 ^ 1024 | _ \<Rightarrow> True)"

section \<open>Library functions\<close>

text \<open>
  \<open>round(x, n)\<close>: the exact value to \<open>n\<close> decimal digits (ties to even), then the nearest double.
\<close>

definition py_round :: "nat \<Rightarrow> pyfloat \<Rightarrow> pyfloat" where
  "py_round n x = (case x of Fin r \<Rightarrow> fl (of_int (rhe (r * 10 ^ n)) / 10 ^ n) | _ \<Rightarrow> x)"

text \<open>
  \<open>sum\<close> over floats (CPython 3.12 and later): Neumaier's compensated sum.  The state is the
  running sum and the compensation; the compensation is added at the end when it is finite and
  not zero.
\<close>

definition neumaier_step :: "pyfloat \<times> pyfloat \<Rightarrow> pyfloat \<Rightarrow> pyfloat \<times> pyfloat" where
  "neumaier_step st x = (case st of (s, c) \<Rightarrow>
     let t = fadd s x in
     (t, if fle (fabs x) (fabs s) then fadd c (fadd (fsub s t) x) else fadd c (fadd (fsub x t) s)))"

definition py_sum :: "pyfloat list \<Rightarrow> pyfloat" where
  "py_sum xs = (case foldl neumaier_step (Fin 0, Fin 0) xs of (s, c) \<Rightarrow>
     if finite_float c \<and> c \<noteq> Fin 0 then fadd s c else s)"

text \<open>\<open>statistics.mean\<close>: the exact rational mean, converted once.\<close>

fun exact_sum :: "pyfloat list \<Rightarrow> pyfloat" where
  "exact_sum [] = Fin 0"
| "exact_sum (x # xs) = (case (x, exact_sum xs) of
     (Fin a, Fin b) \<Rightarrow> Fin (a + b) | (a, b) \<Rightarrow> fadd a b)"

definition py_mean :: "pyfloat list \<Rightarrow> pyfloat" where
  "py_mean xs = (case exact_sum xs of Fin s \<Rightarrow> fl (s / of_nat (length xs)) | s \<Rightarrow> s)"

text \<open>\<open>max\<close> and \<open>min\<close> of a non-empty sequence.\<close>

definition py_max_list :: "pyfloat list \<Rightarrow> pyfloat" where
  "py_max_list xs = foldl py_max (hd xs) (tl xs)"

definition py_min_list :: "pyfloat list \<Rightarrow> pyfloat" where
  "py_min_list xs = foldl py_min (hd xs) (tl xs)"

section \<open>Facts about rounding to a double\<close>

named_theorems pyf \<open>simplification rules for closed and bounded float expressions\<close>

lemma rnd64_0 [simp]: "rnd64 0 = 0"
  by (simp add: rnd64_def)

lemma rnd64_mono: "x \<le> y \<Longrightarrow> rnd64 x \<le> rnd64 y"
  by (simp add: rnd64_def rnd_mono)

lemma rnd64_double: "is_double x \<Longrightarrow> rnd64 x = x"
  by (simp add: rnd64_def rnd_representable)

lemma is_double_rnd64 [simp]: "is_double (rnd64 x)"
  by (simp add: rnd64_def representable_rnd)

lemma rnd64_minus [simp]: "rnd64 (- x) = - rnd64 x"
  by (simp add: rnd64_def)

lemma is_double_int: "\<bar>n\<bar> \<le> 2 ^ 53 \<Longrightarrow> is_double (of_int n)"
  by (rule representable_int) auto

lemma is_double_minus: "is_double x \<Longrightarrow> is_double (- x)"
  using is_double_rnd64 [of "- x"] by (simp add: rnd64_double)

lemma ilog2_ge_iff: "x \<noteq> 0 \<Longrightarrow> 1024 \<le> ilog2 x \<longleftrightarrow> 2 ^ 1024 \<le> \<bar>x\<bar>"
proof
  assume x: "x \<noteq> 0" and "1024 \<le> ilog2 x"
  then have "scale 2 1024 \<le> scale 2 (ilog2 x)" by (intro scale_mono) auto
  also have "\<dots> \<le> \<bar>x\<bar>" unfolding ilog2_def by (rule ilog_bounds(1)) (use x in auto)
  finally show "2 ^ 1024 \<le> \<bar>x\<bar>" by (simp add: scale_def)
next
  assume x: "x \<noteq> 0" and le: "2 ^ 1024 \<le> \<bar>x\<bar>"
  have s: "scale 2 1024 = 2 ^ 1024" by (simp add: scale_def)
  show "1024 \<le> ilog2 x"
  proof (rule ccontr)
    assume "\<not> 1024 \<le> ilog2 x"
    then have "scale 2 (ilog2 x + 1) \<le> scale 2 1024" by (intro scale_mono) auto
    then show False using ilog_bounds(2) [of 2 x] x le s by (simp add: ilog2_def)
  qed
qed

lemma fl_eq:
  "fl x = (if 2 ^ 1024 \<le> rnd64 x then PInf else if rnd64 x \<le> - (2 ^ 1024) then MInf else Fin (rnd64 x))"
proof (cases "rnd64 x = 0")
  case True
  then show ?thesis by (simp add: fl_def Let_def)
next
  case False
  define M where "M = (2 ^ 1024 :: rat)"
  have big: "0 < M" by (simp add: M_def)
  have i: "1024 \<le> ilog2 (rnd64 x) \<longleftrightarrow> M \<le> \<bar>rnd64 x\<bar>"
    unfolding M_def by (rule ilog2_ge_iff [OF False])
  show ?thesis
    unfolding fl_def Let_def i M_def [symmetric] using False big by (auto simp: abs_if)
qed

lemma fl_idem: "fl x = Fin r \<Longrightarrow> fl r = Fin r"
proof -
  assume f: "fl x = Fin r"
  then have "r = rnd64 x" and "\<not> 2 ^ 1024 \<le> rnd64 x" and "\<not> rnd64 x \<le> - (2 ^ 1024)"
    unfolding fl_eq by (auto split: if_splits simp del: power_numeral)
  then show ?thesis unfolding fl_eq by (simp add: rnd64_double del: power_numeral)
qed

lemma fl_between:
  assumes "a \<le> x" and "x \<le> b" and "is_double a" and "is_double b" and "- (2 ^ 1024) < a" and "b < 2 ^ 1024"
  shows "\<exists>r. fl x = Fin r \<and> a \<le> r \<and> r \<le> b"
proof -
  have "a \<le> rnd64 x" and "rnd64 x \<le> b"
    using rnd64_mono [OF assms(1)] rnd64_mono [OF assms(2)] assms(3,4) by (simp_all add: rnd64_double)
  then show ?thesis using assms(5,6) by (auto simp: fl_eq simp del: power_numeral)
qed

lemma small_lt_max: "n \<le> 2 ^ 53 \<Longrightarrow> (of_int n :: rat) < 2 ^ 1024"
proof -
  assume n: "n \<le> 2 ^ 53"
  have "(of_int n :: rat) \<le> of_int (2 ^ 53)" using n by (simp only: of_int_le_iff)
  also have "\<dots> = 2 ^ 53" by simp
  also have "\<dots> < 2 ^ 1024" by (rule power_strict_increasing) auto
  finally show ?thesis .
qed

lemma small_gt_min: "- (2 ^ 53) \<le> n \<Longrightarrow> - (2 ^ 1024) < (of_int n :: rat)"
  using small_lt_max [of "- n"] by (simp del: power_numeral)

lemma fl_between_int:
  assumes "of_int m \<le> x" and "x \<le> of_int n" and "- (2 ^ 53) \<le> m" and "n \<le> 2 ^ 53"
  shows "\<exists>r. fl x = Fin r \<and> of_int m \<le> r \<and> r \<le> of_int n"
proof (rule fl_between [OF assms(1,2)])
  have mn: "m \<le> n" using assms(1,2) by (metis of_int_le_iff order_trans)
  show "is_double (of_int m)" and "is_double (of_int n)"
    using assms(3,4) mn by (auto intro!: is_double_int)
  show "- (2 ^ 1024) < (of_int m :: rat)" using assms(3) by (rule small_gt_min)
  show "(of_int n :: rat) < 2 ^ 1024" using assms(4) by (rule small_lt_max)
qed

lemma fl_int: "\<bar>n\<bar> \<le> 2 ^ 53 \<Longrightarrow> fl (of_int n) = Fin (of_int n)"
proof -
  assume "\<bar>n\<bar> \<le> 2 ^ 53"
  then have "- (2 ^ 53) \<le> n" and "n \<le> 2 ^ 53" by linarith+
  then obtain r where "fl (of_int n) = Fin r" and "of_int n \<le> r" and "r \<le> of_int n"
    using fl_between_int [of n "of_int n" n] by blast
  then show ?thesis by simp
qed

lemma fint_eq [pyf]: "\<bar>n\<bar> \<le> 2 ^ 53 \<Longrightarrow> fint n = Fin (of_int n)"
  by (simp add: fint_def fl_int)

lemma fl_0 [simp]: "fl 0 = Fin 0"
  using fl_int [of 0] by simp

lemma fint_0 [simp]: "fint 0 = Fin 0"
  by (simp add: fint_def)

lemma fl_double: "is_double x \<Longrightarrow> \<bar>x\<bar> < 2 ^ 1024 \<Longrightarrow> fl x = Fin x"
  using fl_between [of x x x] by (auto simp: abs_less_iff)

lemma fadd_int: "\<bar>a + b\<bar> \<le> 2 ^ 53 \<Longrightarrow> fadd (Fin (of_int a)) (Fin (of_int b)) = Fin (of_int (a + b))"
  using fl_int [of "a + b"] by simp

text \<open>Two-sided clamps: the result is finite and in range, whatever the argument (NaN included).\<close>

lemma clamp_range:
  assumes "a \<le> b"
  shows "\<exists>r. py_max (Fin a) (py_min (Fin b) x) = Fin r \<and> a \<le> r \<and> r \<le> b"
  using assms by (cases x) (auto simp: py_max_def py_min_def)

lemma py_round_between_int:
  assumes "of_int m \<le> r" and "r \<le> of_int n" and "- (2 ^ 53) \<le> m" and "n \<le> 2 ^ 53"
  shows "\<exists>q. py_round k (Fin r) = Fin q \<and> of_int m \<le> q \<and> q \<le> of_int n"
proof -
  let ?p = "10 ^ k :: rat"
  have p: "0 < ?p" by simp
  have pi: "of_int (m * 10 ^ k) = of_int m * ?p" "of_int (n * 10 ^ k) = of_int n * ?p" by simp_all
  have "of_int (m * 10 ^ k) \<le> r * ?p" and "r * ?p \<le> of_int (n * 10 ^ k)"
    using assms(1,2) p unfolding pi by (auto intro: mult_right_mono)
  then have "m * 10 ^ k \<le> rhe (r * ?p)" and "rhe (r * ?p) \<le> n * 10 ^ k"
    using rhe_ge_int rhe_le_int by blast+
  then have "(of_int (m * 10 ^ k) :: rat) \<le> of_int (rhe (r * ?p))"
    and "(of_int (rhe (r * ?p)) :: rat) \<le> of_int (n * 10 ^ k)" by (simp_all only: of_int_le_iff)
  then have "of_int m \<le> of_int (rhe (r * ?p)) / ?p" and "of_int (rhe (r * ?p)) / ?p \<le> of_int n"
    unfolding pi using p by (simp_all add: le_divide_eq divide_le_eq)
  then show ?thesis using fl_between_int assms(3,4) by (simp add: py_round_def)
qed

lemma py_round_int: "\<bar>n\<bar> \<le> 2 ^ 53 \<Longrightarrow> py_round k (Fin (of_int n)) = Fin (of_int n)"
proof -
  assume "\<bar>n\<bar> \<le> 2 ^ 53"
  then have "- (2 ^ 53) \<le> n" and "n \<le> 2 ^ 53" by linarith+
  then obtain r where "py_round k (Fin (of_int n)) = Fin r" and "of_int n \<le> r" and "r \<le> of_int n"
    using py_round_between_int [of n "of_int n" n k] by blast
  then show ?thesis by simp
qed

text \<open>Order facts for the comparisons.\<close>

lemma fle_Fin [simp]: "fle (Fin x) (Fin y) \<longleftrightarrow> x \<le> y"
  by (auto simp: fle_def)

lemma fle_NaN [simp]: "\<not> fle NaN x" "\<not> fle x NaN"
  by (auto simp: fle_def elim: feq.elims) (cases x; simp)+

lemma fle_refl_iff: "fle x x \<longleftrightarrow> x \<noteq> NaN"
  by (cases x) (auto simp: fle_def)

lemma fle_trans: "fle x y \<Longrightarrow> fle y z \<Longrightarrow> fle x z"
  by (cases x; cases y; cases z) (auto simp: fle_def)

lemma flt_not_fle: "flt x y \<Longrightarrow> \<not> fle y x"
  by (cases x; cases y) (auto simp: fle_def)

lemma not_fle_flt: "x \<noteq> NaN \<Longrightarrow> y \<noteq> NaN \<Longrightarrow> \<not> fle x y \<longleftrightarrow> flt y x"
  by (cases x; cases y) (auto simp: fle_def)

lemma flt_imp_fle: "flt x y \<Longrightarrow> fle x y"
  by (simp add: fle_def)

lemma fle_flt_trans: "fle x y \<Longrightarrow> flt y z \<Longrightarrow> flt x z"
  by (cases x; cases y; cases z) (auto simp: fle_def)

lemma flt_fle_trans: "flt x y \<Longrightarrow> fle y z \<Longrightarrow> flt x z"
  by (cases x; cases y; cases z) (auto simp: fle_def)

text \<open>Rounding is monotone, seen on the finite results.\<close>

lemma fl_mono: "x \<le> y \<Longrightarrow> fl x = Fin a \<Longrightarrow> fl y = Fin b \<Longrightarrow> a \<le> b"
  using rnd64_mono [of x y] by (auto simp: fl_eq split: if_splits)

lemma fl_fle: "x \<le> y \<Longrightarrow> fle (fl x) (fl y)"
  using rnd64_mono [of x y] by (auto simp: fl_eq fle_def)

lemma fl_upto: "0 \<le> x \<Longrightarrow> x \<le> b \<Longrightarrow> is_double b \<Longrightarrow> b < 2 ^ 1024 \<Longrightarrow> \<exists>r. fl x = Fin r \<and> 0 \<le> r \<and> r \<le> b"
  using fl_between [of 0 x b] by (simp del: power_numeral)

lemma py_max_cases: "py_max x y = x \<or> py_max x y = y"
  by (simp add: py_max_def)

lemma py_max_Fin [pyf]: "py_max (Fin x) (Fin y) = Fin (max x y)"
  by (simp add: py_max_def max_def)

lemma py_min_Fin [pyf]: "py_min (Fin x) (Fin y) = Fin (min x y)"
  by (simp add: py_min_def min_def)

lemma py_max_ge1: "x \<noteq> NaN \<Longrightarrow> fle x (py_max x y)"
  by (cases x; cases y) (auto simp: py_max_def fle_def)

lemma py_min_le1: "x \<noteq> NaN \<Longrightarrow> fle (py_min x y) x"
  by (cases x; cases y) (auto simp: py_min_def fle_def)

text \<open>Never below zero: a nonnegative number, positive infinity or NaN.\<close>

definition not_neg :: "pyfloat \<Rightarrow> bool" where
  "not_neg x \<longleftrightarrow> \<not> flt x (Fin 0)"

named_theorems signs \<open>operations that keep a value from falling below zero\<close>

lemma not_neg_fl [signs]: "0 \<le> x \<Longrightarrow> not_neg (fl x)"
  using rnd64_mono [of 0 x] by (auto simp: not_neg_def fl_eq)

lemma not_neg_Fin [simp]: "not_neg (Fin x) \<longleftrightarrow> 0 \<le> x"
  by (auto simp: not_neg_def)

lemma not_neg_fmul [signs]: "not_neg x \<Longrightarrow> not_neg y \<Longrightarrow> not_neg (fmul x y)"
  using not_neg_fl [of "_ * _"] by (cases x; cases y) (auto simp: not_neg_def inf_of_sign_def)

lemma not_neg_py_max0 [signs]: "not_neg x \<Longrightarrow> x \<noteq> NaN \<Longrightarrow> not_neg (py_max x y)"
  by (cases x; cases y) (auto simp: not_neg_def py_max_def)

lemma not_neg_py_max [signs]: "not_neg x \<Longrightarrow> not_neg y \<Longrightarrow> not_neg (py_max x y)"
  by (simp add: py_max_def)

lemma not_neg_flit [signs]: "0 \<le> n \<Longrightarrow> 0 \<le> d \<Longrightarrow> not_neg (flit n d)"
  unfolding flit_def by (rule not_neg_fl) simp

lemma py_min_upto:
  assumes "0 \<le> d" and "not_neg B"
  shows "\<exists>e. py_min (Fin d) B = Fin e \<and> 0 \<le> e \<and> e \<le> d"
  using assms by (cases B) (auto simp: py_min_def not_neg_def)

lemma py_round_fle: "x \<le> y \<Longrightarrow> fle (py_round k (Fin x)) (py_round k (Fin y))"
  by (auto simp: py_round_def intro!: fl_fle divide_right_mono rhe_mono)

text \<open>Further order facts.\<close>

lemma flt_irrefl: "\<not> flt x x"
  by (cases x) simp_all

lemma py_min_not_above: "\<not> flt c (py_min x c)" "\<not> flt c x \<Longrightarrow> \<not> flt c (py_min x y)"
  by (cases x; cases c; simp add: py_min_def) (cases x; cases c; cases y; simp add: py_min_def)

lemma py_max_number: "x \<noteq> NaN \<Longrightarrow> py_max x y \<noteq> NaN"
  by (cases x; cases y) (auto simp: py_max_def)

lemma flit_reached: "flit n d = Fin r \<Longrightarrow> fl r = Fin r"
  by (auto simp: flit_def intro: fl_idem)

lemma flit_number: "flit n d \<noteq> NaN"
  by (simp add: flit_def fl_def Let_def)

lemma fl_above: "fl a = Fin a \<Longrightarrow> a \<le> x \<Longrightarrow> fle (Fin a) (fl x)"
  using fl_fle [of a x] by simp

end
