(* ===== verification/PyVal.thy ===== *)
theory PyVal
  imports PyFloat "HOL-Library.Monad_Syntax"
begin

text \<open>
  The dynamic values the program passes around in dictionaries (JSON rows, indicator
  dictionaries), and what the code does with them: \<open>dict.get\<close>, truthiness, \<open>float(...)\<close>,
  \<open>str(...) == word\<close> and \<open>isinstance\<close> tests.  Texts are ASCII.
\<close>

section \<open>Values and dictionaries\<close>

datatype pyval =
    VNone
  | VBool bool
  | VInt int
  | VFloat pyfloat
  | VStr string
  | VList "pyval list"
  | VDict "(string \<times> pyval) list"

type_synonym pydict = "string \<Rightarrow> pyval option"

text \<open>\<open>d.get(k)\<close>.\<close>

definition dget :: "pydict \<Rightarrow> string \<Rightarrow> pyval" where
  "dget d k = (case d k of None \<Rightarrow> VNone | Some v \<Rightarrow> v)"

text \<open>Truth value testing: zeros, empty texts and empty containers are false.\<close>

fun truthy :: "pyval \<Rightarrow> bool" where
  "truthy VNone = False"
| "truthy (VBool b) = b"
| "truthy (VInt n) = (n \<noteq> 0)"
| "truthy (VFloat x) = (x \<noteq> Fin 0)"
| "truthy (VStr s) = (s \<noteq> [])"
| "truthy (VList xs) = (xs \<noteq> [])"
| "truthy (VDict xs) = (xs \<noteq> [])"

text \<open>
  \<open>str(v) == w\<close> for a word \<open>w\<close> that is no numeral and no bracketed display, which is all the
  code compares with: a number or a container never prints as such a word.
\<close>

fun str_is :: "pyval \<Rightarrow> string \<Rightarrow> bool" where
  "str_is (VStr s) w = (s = w)"
| "str_is VNone w = (w = ''None'')"
| "str_is (VBool b) w = (w = (if b then ''True'' else ''False''))"
| "str_is _ w = False"

text \<open>\<open>str(v or default)\<close>, for the same comparisons.\<close>

definition val_or :: "pyval \<Rightarrow> pyval \<Rightarrow> pyval" where
  "val_or v d = (if truthy v then v else d)"

section \<open>\<open>float(text)\<close>\<close>

definition is_space :: "char \<Rightarrow> bool" where
  "is_space c \<longleftrightarrow> (let n = of_char c :: nat in (9 \<le> n \<and> n \<le> 13) \<or> (28 \<le> n \<and> n \<le> 32))"

definition strip_text :: "string \<Rightarrow> string" where
  "strip_text s = rev (dropWhile is_space (rev (dropWhile is_space s)))"

definition lower_char :: "char \<Rightarrow> char" where
  "lower_char c = (let n = of_char c :: nat in if 65 \<le> n \<and> n \<le> 90 then char_of (n + 32) else c)"

definition upper_char :: "char \<Rightarrow> char" where
  "upper_char c = (let n = of_char c :: nat in if 97 \<le> n \<and> n \<le> 122 then char_of (n - 32) else c)"

definition digit_of :: "char \<Rightarrow> nat option" where
  "digit_of c = (let n = of_char c :: nat in if 48 \<le> n \<and> n \<le> 57 then Some (n - 48) else None)"

text \<open>
  A run of digits in which two digits may be separated by one underscore: its value, its number of
  digits and the rest of the text.
\<close>

fun digit_run :: "nat \<Rightarrow> nat \<Rightarrow> string \<Rightarrow> nat \<times> nat \<times> string" where
  "digit_run v k [] = (v, k, [])"
| "digit_run v k (c # cs) =
     (case digit_of c of
        Some d \<Rightarrow> digit_run (10 * v + d) (Suc k) cs
      | None \<Rightarrow>
          (case cs of
             [] \<Rightarrow> (v, k, c # cs)
           | c' # _ \<Rightarrow>
               if c = CHR ''_'' \<and> 0 < k \<and> digit_of c' \<noteq> None then digit_run v k cs
               else (v, k, c # cs)))"

definition sign_of :: "string \<Rightarrow> bool \<times> string" where
  "sign_of s = (case s of
     [] \<Rightarrow> (False, [])
   | c # cs \<Rightarrow> if c = CHR ''-'' then (True, cs) else if c = CHR ''+'' then (False, cs) else (False, s))"

definition parse_unsigned :: "string \<Rightarrow> rat option" where
  "parse_unsigned s =
     (case digit_run 0 0 s of (iv, ik, r1) \<Rightarrow>
      case (if r1 \<noteq> [] \<and> hd r1 = CHR ''.''
            then (case digit_run 0 0 (tl r1) of (fv, fk, r2) \<Rightarrow> (fv, fk, r2)) else (0, 0, r1)) of
        (fv, fk, r2) \<Rightarrow>
        if ik + fk = 0 then None
        else
          let m = of_nat iv + of_nat fv / 10 ^ fk in
          if r2 = [] then Some m
          else if lower_char (hd r2) \<noteq> CHR ''e'' then None
          else
            (case sign_of (tl r2) of (neg, r3) \<Rightarrow>
             case digit_run 0 0 r3 of (ev, ek, r4) \<Rightarrow>
               if ek = 0 \<or> r4 \<noteq> [] then None
               else Some (if neg then m / 10 ^ ev else m * 10 ^ ev)))"

definition parse_float :: "string \<Rightarrow> pyfloat option" where
  "parse_float t =
     (case sign_of (strip_text t) of (neg, s) \<Rightarrow>
      let w = map lower_char s in
      if w = ''inf'' \<or> w = ''infinity'' then Some (if neg then MInf else PInf)
      else if w = ''nan'' then Some NaN
      else map_option (\<lambda>r. fl (if neg then - r else r)) (parse_unsigned s))"

section \<open>\<open>float(v)\<close>\<close>

text \<open>
  \<open>float(v)\<close>: \<open>None\<close> stands for the \<open>TypeError\<close> or \<open>ValueError\<close> every caller catches.  An \<open>int\<close>
  beyond the range of a float would raise \<open>OverflowError\<close>; the model gives the infinity there (no
  caller holds an integer of more than a thousand bits).
\<close>

fun py_float :: "pyval \<Rightarrow> pyfloat option" where
  "py_float (VBool b) = Some (Fin (if b then 1 else 0))"
| "py_float (VInt n) = Some (fint n)"
| "py_float (VFloat x) = Some x"
| "py_float (VStr s) = parse_float s"
| "py_float _ = None"

definition is_bool :: "pyval \<Rightarrow> bool" where
  "is_bool v = (case v of VBool _ \<Rightarrow> True | _ \<Rightarrow> False)"

lemma dget_Some [simp]: "d k = Some v \<Longrightarrow> dget d k = v"
  by (simp add: dget_def)

lemma dget_None [simp]: "d k = None \<Longrightarrow> dget d k = VNone"
  by (simp add: dget_def)

end
