(* ===== verification/PyDate.thy ===== *)
theory PyDate
  imports PyVal
begin

text \<open>
  Python's \<open>datetime.date\<close> as its proleptic ordinal (\<open>date.toordinal\<close>), \<open>date.fromisoformat\<close> of
  Python 3.12 (calendar and week forms, basic and extended), and \<open>isoformat\<close>.  An instant is a
  number of microseconds since the epoch in UTC.
\<close>

section \<open>The calendar\<close>

definition leap :: "int \<Rightarrow> bool" where
  "leap y \<longleftrightarrow> y mod 4 = 0 \<and> (y mod 100 \<noteq> 0 \<or> y mod 400 = 0)"

definition days_in_month :: "int \<Rightarrow> int \<Rightarrow> int" where
  "days_in_month y m = (if m = 2 then (if leap y then 29 else 28) else if m \<in> {4, 6, 9, 11} then 30 else 31)"

definition days_before_year :: "int \<Rightarrow> int" where
  "days_before_year y = (let p = y - 1 in p * 365 + p div 4 - p div 100 + p div 400)"

definition days_before_month :: "int \<Rightarrow> int \<Rightarrow> int" where
  "days_before_month y m =
     [0, 31, 59, 90, 120, 151, 181, 212, 243, 273, 304, 334] ! nat (m - 1) + (if 2 < m \<and> leap y then 1 else 0)"

definition ordinal :: "int \<Rightarrow> int \<Rightarrow> int \<Rightarrow> int" where
  "ordinal y m d = days_before_year y + days_before_month y m + d"

definition valid_civil :: "int \<Rightarrow> int \<Rightarrow> int \<Rightarrow> bool" where
  "valid_civil y m d \<longleftrightarrow> 1 \<le> y \<and> y \<le> 9999 \<and> 1 \<le> m \<and> m \<le> 12 \<and> 1 \<le> d \<and> d \<le> days_in_month y m"

text \<open>The civil date of an ordinal (the algorithm of \<open>_ord2ymd\<close>), and \<open>isoformat()\<close>.\<close>

definition civil_of :: "int \<Rightarrow> int \<times> int \<times> int" where
  "civil_of ord =
     (let n = ord - 1;
          n400 = n div 146097; n = n mod 146097;
          n100 = n div 36524; n = n mod 36524;
          n4 = n div 1461; n = n mod 1461;
          n1 = n div 365; n = n mod 365;
          year = n400 * 400 + 1 + n100 * 100 + n4 * 4 + n1
      in if n1 = 4 \<or> n100 = 4 then (year - 1, 12, 31)
         else let m = (n + 50) div 32;
                  m = (if n < days_before_month year m then m - 1 else m)
              in (year, m, n - days_before_month year m + 1))"

definition next_quarter_end :: "int \<Rightarrow> int" where
  "next_quarter_end d =
     (case civil_of (d + 1) of (_, _, day) \<Rightarrow>
      if day \<noteq> 1 then d + 91
      else case civil_of d of (y, m, _) \<Rightarrow>
        let month_index = y * 12 + m - 1 + 3; year = month_index div 12; month = month_index mod 12 + 1
        in ordinal year month (days_in_month year month))"

text \<open>\<open>weekday()\<close> of January 1st (Monday is 0) and the Monday of ISO week 1.\<close>

definition first_weekday :: "int \<Rightarrow> int" where
  "first_weekday y = (ordinal y 1 1 + 6) mod 7"

definition week1_monday :: "int \<Rightarrow> int" where
  "week1_monday y = (let m = ordinal y 1 1 - first_weekday y in if 3 < first_weekday y then m + 7 else m)"

definition valid_week :: "int \<Rightarrow> int \<Rightarrow> int \<Rightarrow> bool" where
  "valid_week y w d \<longleftrightarrow> 1 \<le> y \<and> 1 \<le> d \<and> d \<le> 7 \<and>
     (1 \<le> w \<and> w < 53 \<or> w = 53 \<and> (first_weekday y = 3 \<or> first_weekday y = 2 \<and> leap y))"

section \<open>\<open>date.fromisoformat\<close>\<close>

definition digits :: "string \<Rightarrow> int option" where
  "digits s = (if s \<noteq> [] \<and> list_all (\<lambda>c. digit_of c \<noteq> None) s
     then Some (foldl (\<lambda>v c. 10 * v + (case digit_of c of None \<Rightarrow> 0 | Some d \<Rightarrow> int d)) 0 s) else None)"

definition civil_date :: "string \<Rightarrow> string \<Rightarrow> string \<Rightarrow> int option" where
  "civil_date ys ms ds = do {
     y \<leftarrow> digits ys; m \<leftarrow> digits ms; d \<leftarrow> digits ds;
     if valid_civil y m d then Some (ordinal y m d) else None }"

definition week_date :: "string \<Rightarrow> string \<Rightarrow> string \<Rightarrow> int option" where
  "week_date ys ws ds = do {
     y \<leftarrow> digits ys; w \<leftarrow> digits ws; d \<leftarrow> digits ds;
     let n = week1_monday y + (w - 1) * 7 + d - 1;
     if valid_week y w d \<and> 1 \<le> n \<and> n \<le> 3652059 then Some n else None }"

definition part :: "nat \<Rightarrow> nat \<Rightarrow> string \<Rightarrow> string" where
  "part i n s = take n (drop i s)"

definition date_fromisoformat :: "string \<Rightarrow> int option" where
  "date_fromisoformat s =
     (if length s = 10 \<and> part 4 1 s = ''-'' \<and> part 5 1 s = ''W'' \<and> part 8 1 s = ''-''
        then week_date (part 0 4 s) (part 6 2 s) (part 9 1 s)
      else if length s = 10 \<and> part 4 1 s = ''-'' \<and> part 7 1 s = ''-''
        then civil_date (part 0 4 s) (part 5 2 s) (part 8 2 s)
      else if length s = 8 \<and> part 4 2 s = ''-W'' then week_date (part 0 4 s) (part 6 2 s) ''1''
      else if length s = 8 \<and> part 4 1 s = ''W'' then week_date (part 0 4 s) (part 5 2 s) (part 7 1 s)
      else if length s = 8 then civil_date (part 0 4 s) (part 4 2 s) (part 6 2 s)
      else if length s = 7 \<and> part 4 1 s = ''W'' then week_date (part 0 4 s) (part 5 2 s) ''1''
      else None)"

section \<open>Order of texts\<close>

text \<open>Python compares texts by code point; the ISO texts of two dates compare as the dates do.\<close>

fun str_less :: "string \<Rightarrow> string \<Rightarrow> bool" where
  "str_less [] [] = False"
| "str_less [] (c # cs) = True"
| "str_less (c # cs) [] = False"
| "str_less (c # cs) (d # ds) =
     ((of_char c :: nat) < of_char d \<or> c = d \<and> str_less cs ds)"

definition str_le :: "string \<Rightarrow> string \<Rightarrow> bool" where
  "str_le a b \<longleftrightarrow> a = b \<or> str_less a b"

lemma str_le_refl [simp]: "str_le a a"
  by (simp add: str_le_def)

lemma str_less_trans: "str_less a b \<Longrightarrow> str_less b c \<Longrightarrow> str_less a c"
proof (induction a b arbitrary: c rule: str_less.induct)
  case (4 x xs y ys)
  then show ?case by (cases c) auto
next
  case (2 x xs)
  then show ?case by (cases c) auto
qed auto

lemma str_less_linear: "str_less a b \<or> a = b \<or> str_less b a"
proof (induction a b rule: str_less.induct)
  case (4 c cs d ds)
  have "(of_char c :: nat) = of_char d \<longleftrightarrow> c = d" by simp
  then show ?case using 4 by auto
qed auto

text \<open>\<open>str(n)\<close> of an integer.\<close>

function nat_digits :: "nat \<Rightarrow> string" where
  "nat_digits n = (if n < 10 then [char_of (48 + n)] else nat_digits (n div 10) @ [char_of (48 + n mod 10)])"
  by auto
termination by (relation "measure id") auto

declare nat_digits.simps [simp del]

definition show_int :: "int \<Rightarrow> string" where
  "show_int n = (if n < 0 then ''-'' @ nat_digits (nat (- n)) else nat_digits (nat n))"

definition pad :: "nat \<Rightarrow> string \<Rightarrow> string" where
  "pad n t = replicate (n - length t) (CHR ''0'') @ t"

definition iso_text :: "int \<Rightarrow> string" where
  "iso_text d = (case civil_of d of (y, m, day) \<Rightarrow>
     pad 4 (show_int y) @ ''-'' @ pad 2 (show_int m) @ ''-'' @ pad 2 (show_int day))"

text \<open>
  \<open>str(v).strip() or None\<close> of a text field (\<open>None\<close> stays \<open>None\<close>).  A number with a fraction or a
  container prints as a text no field of the program holds; it is represented by a fixed word.
\<close>

fun text_of :: "pyval \<Rightarrow> string option" where
  "text_of VNone = None"
| "text_of (VStr s) = (let t = strip_text s in if t = [] then None else Some t)"
| "text_of (VBool b) = Some (if b then ''True'' else ''False'')"
| "text_of (VInt n) = Some (show_int n)"
| "text_of _ = Some ''<value>''"

end
