(* ===== verification/Incidents.thy ===== *)
theory Incidents
  imports Prelude PyVal PyDate "HOL-Library.Multiset"
begin

text \<open>
  The operational-incident ledger (\<open>backend/app/operational_incidents.py\<close> and the incident methods of
  \<open>backend/app/database.py\<close>): incidents and their append-only events, the row an incident shows (derived
  from its newest events), and the operations, each on both stores the code has: the dictionaries of the
  in-memory twin (\<open>Memory\<close>, no \<open>database_url\<close>) and the PostgreSQL tables (\<open>Postgres\<close>).  Here every
  operation runs alone; \<open>IncidentRaces\<close> interleaves the PostgreSQL transactions.  Instants are
  microseconds; texts are ASCII.
\<close>

section \<open>The evidence screen\<close>

fun is_infix :: "string \<Rightarrow> string \<Rightarrow> bool" where
  "is_infix w [] = (w = [])"
| "is_infix w (c # cs) = (take (length w) (c # cs) = w \<or> is_infix w cs)"

text \<open>\<open>SENSITIVE_EVIDENCE_KEY.search(key)\<close>, whatever the case of the letters.\<close>

definition sensitive_words :: "string list" where
  "sensitive_words = [''token'', ''secret'', ''password'', ''authorization'', ''endpoint'', ''p256dh'', ''auth_key'']"

definition sensitive_key :: "string \<Rightarrow> bool" where
  "sensitive_key k = list_ex (\<lambda>w. is_infix w (map lower_char k)) sensitive_words"

text \<open>\<open>walk(value, path)\<close>: the path of the first key rejected, \<open>None\<close> when there is none.\<close>

fun walk :: "pyval \<Rightarrow> string \<Rightarrow> string option"
  and walk_items :: "(string \<times> pyval) list \<Rightarrow> string \<Rightarrow> string option"
  and walk_elems :: "pyval list \<Rightarrow> nat \<Rightarrow> string \<Rightarrow> string option" where
  "walk (VDict kvs) path = walk_items kvs path"
| "walk (VList vs) path = walk_elems vs 0 path"
| "walk _ path = None"
| "walk_items [] path = None"
| "walk_items ((k, v) # kvs) path =
     (if sensitive_key k then Some (path @ k)
      else case walk v (path @ k @ ''.'') of Some p \<Rightarrow> Some p | None \<Rightarrow> walk_items kvs path)"
| "walk_elems [] i path = None"
| "walk_elems (v # vs) i path =
     (case walk v (path @ show_int (int i) @ ''.'') of Some p \<Rightarrow> Some p | None \<Rightarrow> walk_elems vs (Suc i) path)"

definition validate_evidence :: "pyval \<Rightarrow> string option" where
  "validate_evidence evidence = walk evidence []"

section \<open>Incidents, events, rows\<close>

datatype event_type = Opened | Observed | Reopened | Acknowledged | Resolved

datatype istatus = Is_Open | Is_Acknowledged | Is_Resolved

record incident =
  inc_id :: string
  inc_key :: string
  inc_source :: string
  inc_severity :: string
  inc_title :: string
  inc_link :: string
  inc_opened_at :: int

record incident_event =
  ev_id :: string
  ev_incident :: string
  ev_type :: event_type
  ev_actor :: string
  ev_detail :: string
  ev_evidence :: pyval
  ev_hash :: string
  ev_at :: int
  ev_created :: int

record incident_ledger =
  incidents :: "incident list"
  events :: "incident_event list"

record irow =
  row_incident :: incident
  row_status :: istatus
  row_detail :: string
  row_evidence :: pyval
  row_hash :: string
  last_seen_at :: int
  event_count :: nat
  row_actor :: string

datatype store = Memory | Postgres

datatype incident_error = InvalidSeverity | InvalidTransition | SensitiveEvidence string | EmptyMax

text \<open>
  The newest of some events.  \<open>max(events, key=...)\<close> keeps the first of several maximal ones; the query
  orders by \<open>occurred_at DESC, created_at DESC\<close>, and where both agree (the database may take either) the
  model takes the row inserted last.
\<close>

definition newest :: "('e \<Rightarrow> 'e \<Rightarrow> bool) \<Rightarrow> 'e list \<Rightarrow> 'e option" where
  "newest after es = (case es of [] \<Rightarrow> None | e # es' \<Rightarrow> Some (fold (\<lambda>e m. if after e m then e else m) es' e))"

fun after :: "store \<Rightarrow> incident_event \<Rightarrow> incident_event \<Rightarrow> bool" where
  "after Memory e m = (ev_at m < ev_at e)"
| "after Postgres e m = (ev_at m < ev_at e \<or> ev_at m = ev_at e \<and> ev_created m \<le> ev_created e)"

definition events_of :: "string \<Rightarrow> incident_ledger \<Rightarrow> incident_event list" where
  "events_of i L = filter (\<lambda>e. ev_incident e = i) (events L)"

definition states_of :: "string \<Rightarrow> incident_ledger \<Rightarrow> incident_event list" where
  "states_of i L = filter (\<lambda>e. ev_type e \<noteq> Observed) (events_of i L)"

fun status_of :: "event_type \<Rightarrow> istatus" where
  "status_of Acknowledged = Is_Acknowledged"
| "status_of Resolved = Is_Resolved"
| "status_of _ = Is_Open"

definition row_of :: "incident \<Rightarrow> incident_event \<Rightarrow> incident_event \<Rightarrow> nat \<Rightarrow> irow" where
  "row_of inc latest state n = \<lparr>row_incident = inc, row_status = status_of (ev_type state), row_detail = ev_detail latest,
     row_evidence = ev_evidence latest, row_hash = ev_hash latest, last_seen_at = ev_at latest, event_count = n,
     row_actor = ev_actor latest\<rparr>"

text \<open>\<open>list_operational_incidents(limit)\<close>: an incident without events has no row; the twin's \<open>max\<close> of no state event raises.\<close>

fun rows :: "store \<Rightarrow> incident_ledger \<Rightarrow> incident list \<Rightarrow> incident_error + irow list" where
  "rows b L [] = Inr []"
| "rows b L (inc # incs) =
     (case newest (after b) (events_of (inc_id inc) L) of
        None \<Rightarrow> rows b L incs
      | Some latest \<Rightarrow>
          (case newest (after b) (states_of (inc_id inc) L) of
             None \<Rightarrow> (case b of Memory \<Rightarrow> Inl EmptyMax | Postgres \<Rightarrow> rows b L incs)
           | Some state \<Rightarrow>
               ebind (rows b L incs) (\<lambda>rs. Inr (row_of inc latest state (length (events_of (inc_id inc) L)) # rs))))"

definition list_incidents :: "store \<Rightarrow> nat \<Rightarrow> incident_ledger \<Rightarrow> incident_error + irow list" where
  "list_incidents b limit L =
     ebind (rows b L (incidents L)) (\<lambda>rs. Inr (take limit (sort_key (\<lambda>r. - last_seen_at r) rs)))"

definition row_by_key :: "string \<Rightarrow> irow list \<Rightarrow> irow option" where
  "row_by_key key rs = find (\<lambda>r. inc_key (row_incident r) = key) rs"

definition row_by_id :: "string \<Rightarrow> irow list \<Rightarrow> irow option" where
  "row_by_id i rs = find (\<lambda>r. inc_id (row_incident r) = i) rs"

definition by_key :: "store \<Rightarrow> string \<Rightarrow> incident_ledger \<Rightarrow> incident_error + irow option" where
  "by_key b key L = ebind (list_incidents b 1000 L) (\<lambda>rs. Inr (row_by_key key rs))"

definition incident_of_key :: "string \<Rightarrow> incident_ledger \<Rightarrow> incident option" where
  "incident_of_key key L = find (\<lambda>i. inc_key i = key) (incidents L)"

text \<open>\<open>operational_incident_open_since\<close>: the newest opening of the unresolved episode.\<close>

definition open_since :: "store \<Rightarrow> string \<Rightarrow> incident_ledger \<Rightarrow> incident_error + int option" where
  "open_since b key L =
     ebind (by_key b key L) (\<lambda>r.
       case r of
         None \<Rightarrow> Inr None
       | Some r \<Rightarrow>
           if row_status r = Is_Resolved then Inr None
           else Inr (map_option ev_at (newest (after b)
                  (filter (\<lambda>e. ev_type e \<in> {Opened, Reopened}) (events_of (inc_id (row_incident r)) L)))))"

section \<open>The operations of the store\<close>

text \<open>
  What one call takes from outside: the \<open>uuid4()\<close> of a new incident and of a new event, and the
  transaction's \<open>created_at\<close> (the twin stores none).
\<close>

record stamp =
  st_incident :: string
  st_event :: string
  st_created :: int

record signal =
  sg_key :: string
  sg_source :: string
  sg_severity :: string
  sg_title :: string
  sg_detail :: string
  sg_link :: string
  sg_evidence :: pyval
  sg_hash :: string
  sg_at :: int

definition append_event :: "incident_event \<Rightarrow> incident_ledger \<Rightarrow> incident_ledger" where
  "append_event e L = L\<lparr>events := events L @ [e]\<rparr>"

definition signal_event :: "stamp \<Rightarrow> string \<Rightarrow> event_type \<Rightarrow> signal \<Rightarrow> incident_event" where
  "signal_event st i t s = \<lparr>ev_id = st_event st, ev_incident = i, ev_type = t, ev_actor = ''system'',
     ev_detail = sg_detail s, ev_evidence = sg_evidence s, ev_hash = sg_hash s, ev_at = sg_at s, ev_created = st_created st\<rparr>"

definition valid_severity :: "string \<Rightarrow> bool" where
  "valid_severity s \<longleftrightarrow> s = ''attention'' \<or> s = ''critical''"

definition open_incident :: "stamp \<Rightarrow> signal \<Rightarrow> incident_ledger \<Rightarrow> incident_ledger" where
  "open_incident st s L = L\<lparr>incidents := incidents L @
     [\<lparr>inc_id = st_incident st, inc_key = sg_key s, inc_source = sg_source s, inc_severity = sg_severity s,
       inc_title = sg_title s, inc_link = sg_link s, inc_opened_at = sg_at s\<rparr>]\<rparr>"

type_synonym 'a ledger_run = "incident_ledger \<times> (incident_error + 'a)"

text \<open>\<open>record_operational_incident\<close>; the returned \<open>None\<close> is the code's \<open>{}\<close>.\<close>

definition record_incident :: "store \<Rightarrow> stamp \<Rightarrow> signal \<Rightarrow> incident_ledger \<Rightarrow> irow option ledger_run" where
  "record_incident b st s L =
     (if \<not> valid_severity (sg_severity s) then (L, Inl InvalidSeverity)
      else
        let append = (\<lambda>i t L. let L' = append_event (signal_event st i t s) L in (L', by_key b (sg_key s) L')) in
        case incident_of_key (sg_key s) L of
          None \<Rightarrow> append (st_incident st) Opened (open_incident st s L)
        | Some inc \<Rightarrow>
            (case b of
               Memory \<Rightarrow>
                 (case by_key b (sg_key s) L of
                    Inl err \<Rightarrow> (L, Inl err)
                  | Inr None \<Rightarrow> append (inc_id inc) Observed L
                  | Inr (Some current) \<Rightarrow>
                      if row_status current = Is_Resolved then append (inc_id inc) Reopened L
                      else if row_hash current = sg_hash s then (L, Inr (Some current))
                      else append (inc_id inc) Observed L)
             | Postgres \<Rightarrow>
                 let state = newest (after b) (states_of (inc_id inc) L);
                     latest = newest (after b) (events_of (inc_id inc) L) in
                 if map_option ev_type state = Some Resolved then append (inc_id inc) Reopened L
                 else if map_option ev_hash latest = Some (sg_hash s) then (L, by_key b (sg_key s) L)
                 else append (inc_id inc) Observed L))"

text \<open>
  \<open>transition_operational_incident\<close>; \<open>empty_hash\<close> is the digest of \<open>{}\<close>.  The recovery path reads the
  newest event again under the lock, on the same ledger when nothing runs in between.
\<close>

record transition =
  tr_id :: string
  tr_type :: event_type
  tr_actor :: string
  tr_detail :: string
  tr_at :: int
  tr_recovered :: "int option"

definition empty_hash :: string where
  "empty_hash = ''44136fa355b3678a1146ad16f7e8649e94fb4fc21fe77e8310c060f61caaff8a''"

definition transition_event :: "stamp \<Rightarrow> transition \<Rightarrow> incident_event" where
  "transition_event st t = \<lparr>ev_id = st_event st, ev_incident = tr_id t, ev_type = tr_type t, ev_actor = tr_actor t,
     ev_detail = tr_detail t, ev_evidence = VDict [], ev_hash = empty_hash, ev_at = tr_at t, ev_created = st_created st\<rparr>"

text \<open>The checks on the row the call has read: does it go on to write?\<close>

definition transition_applies :: "transition \<Rightarrow> irow \<Rightarrow> bool" where
  "transition_applies t r \<longleftrightarrow> row_status r \<noteq> Is_Resolved
     \<and> \<not> (case tr_recovered t of None \<Rightarrow> False | Some d \<Rightarrow> d < last_seen_at r)
     \<and> \<not> (tr_type t = Acknowledged \<and> row_status r = Is_Acknowledged)"

text \<open>The check repeated under the lock.\<close>

definition recovery_stands :: "int \<Rightarrow> incident_event option \<Rightarrow> bool" where
  "recovery_stands d latest = (case latest of None \<Rightarrow> False | Some e \<Rightarrow> ev_at e \<le> d \<and> ev_type e \<noteq> Resolved)"

definition transition_incident :: "store \<Rightarrow> stamp \<Rightarrow> transition \<Rightarrow> incident_ledger \<Rightarrow> irow option ledger_run" where
  "transition_incident b st t L =
     (if tr_type t \<noteq> Acknowledged \<and> tr_type t \<noteq> Resolved then (L, Inl InvalidTransition)
      else
        case list_incidents b 1000 L of
          Inl err \<Rightarrow> (L, Inl err)
        | Inr rs \<Rightarrow>
            (case row_by_id (tr_id t) rs of
               None \<Rightarrow> (L, Inr None)
             | Some r \<Rightarrow>
                 if \<not> transition_applies t r then (L, Inr (Some r))
                 else if b = Postgres
                   \<and> (case tr_recovered t of None \<Rightarrow> False
                      | Some d \<Rightarrow> \<not> recovery_stands d (newest (after b) (events_of (tr_id t) L)))
                 then (L, Inr (Some r))
                 else if b = Postgres \<and> \<not> list_ex (\<lambda>i. inc_id i = tr_id t) (incidents L) then (L, Inr None)
                 else
                   let L' = append_event (transition_event st t) L in
                   (L', ebind (list_incidents b 1000 L') (\<lambda>rs. Inr (row_by_id (tr_id t) rs)))))"

text \<open>\<open>set_operational_incident_severity\<close>.\<close>

definition set_inc_severity :: "string \<Rightarrow> string \<Rightarrow> incident_ledger \<Rightarrow> incident_ledger" where
  "set_inc_severity i sev L =
     L\<lparr>incidents := map (\<lambda>inc. if inc_id inc = i then inc\<lparr>inc_severity := sev\<rparr> else inc) (incidents L)\<rparr>"

definition set_severity :: "store \<Rightarrow> stamp \<Rightarrow> signal \<Rightarrow> incident_ledger \<Rightarrow> irow option ledger_run" where
  "set_severity b st s L =
     (if \<not> valid_severity (sg_severity s) then (L, Inl InvalidSeverity)
      else
        let write = (\<lambda>i. let L' = append_event (signal_event st i Observed s) (set_inc_severity i (sg_severity s) L)
                         in (L', by_key b (sg_key s) L')) in
        case b of
          Memory \<Rightarrow>
            (case by_key b (sg_key s) L of
               Inl err \<Rightarrow> (L, Inl err)
             | Inr current \<Rightarrow>
                 (case (incident_of_key (sg_key s) L, current) of
                    (Some inc, Some r) \<Rightarrow>
                      if row_status r = Is_Resolved \<or> inc_severity inc = sg_severity s then (L, Inr current)
                      else write (inc_id inc)
                  | _ \<Rightarrow> (L, Inr current)))
        | Postgres \<Rightarrow>
            (case incident_of_key (sg_key s) L of
               None \<Rightarrow> (L, by_key b (sg_key s) L)
             | Some inc \<Rightarrow>
                 (case newest (after b) (states_of (inc_id inc) L) of
                    None \<Rightarrow> (L, by_key b (sg_key s) L)
                  | Some state \<Rightarrow>
                      if inc_severity inc \<noteq> sg_severity s \<and> ev_type state \<noteq> Resolved then write (inc_id inc)
                      else (L, by_key b (sg_key s) L))))"

section \<open>The service\<close>

text \<open>
  The evidence is screened before it reaches the store.  \<open>digest\<close> is \<open>evidence_sha256\<close>: the SHA-256 of
  the evidence's canonical JSON, of which the code uses that equal evidence has equal digests.
\<close>

definition service_signal :: "(pyval \<Rightarrow> string) \<Rightarrow> store \<Rightarrow> stamp \<Rightarrow> signal \<Rightarrow> incident_ledger \<Rightarrow> irow option ledger_run" where
  "service_signal digest b st s L =
     (case validate_evidence (sg_evidence s) of
        Some p \<Rightarrow> (L, Inl (SensitiveEvidence p))
      | None \<Rightarrow> record_incident b st (s\<lparr>sg_hash := digest (sg_evidence s)\<rparr>) L)"

definition service_severity :: "(pyval \<Rightarrow> string) \<Rightarrow> store \<Rightarrow> stamp \<Rightarrow> signal \<Rightarrow> incident_ledger \<Rightarrow> irow option ledger_run" where
  "service_severity digest b st s L =
     (case validate_evidence (sg_evidence s) of
        Some p \<Rightarrow> (L, Inl (SensitiveEvidence p))
      | None \<Rightarrow> set_severity b st (s\<lparr>sg_hash := digest (sg_evidence s)\<rparr>) L)"

definition acknowledge :: "store \<Rightarrow> stamp \<Rightarrow> string \<Rightarrow> string \<Rightarrow> int \<Rightarrow> incident_ledger \<Rightarrow> irow option ledger_run" where
  "acknowledge b st i actor now L = transition_incident b st \<lparr>tr_id = i, tr_type = Acknowledged, tr_actor = actor,
     tr_detail = ''Incident acknowledged by owner'', tr_at = now, tr_recovered = None\<rparr> L"

definition resolve :: "store \<Rightarrow> stamp \<Rightarrow> string \<Rightarrow> string \<Rightarrow> string \<Rightarrow> int \<Rightarrow> incident_ledger \<Rightarrow> irow option ledger_run" where
  "resolve b st i actor resolution now L = transition_incident b st \<lparr>tr_id = i, tr_type = Resolved, tr_actor = actor,
     tr_detail = (if strip_text resolution = [] then ''Incident resolved by owner'' else strip_text resolution),
     tr_at = now, tr_recovered = None\<rparr> L"

definition resolve_key :: "store \<Rightarrow> stamp \<Rightarrow> string \<Rightarrow> string \<Rightarrow> int \<Rightarrow> incident_ledger \<Rightarrow> irow option ledger_run" where
  "resolve_key b st key detail now L =
     (case by_key b key L of
        Inl err \<Rightarrow> (L, Inl err)
      | Inr None \<Rightarrow> (L, Inr None)
      | Inr (Some r) \<Rightarrow>
          if row_status r = Is_Resolved then (L, Inr (Some r))
          else transition_incident b st \<lparr>tr_id = inc_id (row_incident r), tr_type = Resolved, tr_actor = ''system'',
            tr_detail = detail, tr_at = now, tr_recovered = None\<rparr> L)"

text \<open>
  \<open>resolve_recovered_family\<close>: the loop over the rows read at the start, the transition of its \<open>n\<close>-th row
  with its own stamp; an error ends it.
\<close>

definition starts_with :: "string \<Rightarrow> string \<Rightarrow> bool" where
  "starts_with s w \<longleftrightarrow> take (length w) s = w"

definition in_family :: "string \<Rightarrow> string \<Rightarrow> bool" where
  "in_family fam key \<longleftrightarrow> key = fam \<or> starts_with key (fam @ '':'')"

definition family_close :: "string \<Rightarrow> int \<Rightarrow> string \<Rightarrow> transition" where
  "family_close i observed detail = \<lparr>tr_id = i, tr_type = Resolved, tr_actor = ''system'', tr_detail = detail,
     tr_at = observed, tr_recovered = Some observed\<rparr>"

fun family_loop :: "store \<Rightarrow> string \<Rightarrow> int \<Rightarrow> string \<Rightarrow> (irow \<times> stamp) list \<Rightarrow> incident_ledger \<Rightarrow> int \<Rightarrow> int ledger_run" where
  "family_loop b fam observed detail [] L n = (L, Inr n)"
| "family_loop b fam observed detail ((r, st) # rs) L n =
     (if row_status r = Is_Resolved \<or> \<not> in_family fam (inc_key (row_incident r))
      then family_loop b fam observed detail rs L n
      else
        case transition_incident b st (family_close (inc_id (row_incident r)) observed detail) L of
          (L', Inl err) \<Rightarrow> (L', Inl err)
        | (L', Inr res) \<Rightarrow>
            family_loop b fam observed detail rs L'
              (n + (if map_option row_status res = Some Is_Resolved then 1 else 0)))"

definition resolve_recovered_family ::
  "store \<Rightarrow> (nat \<Rightarrow> stamp) \<Rightarrow> string \<Rightarrow> int \<Rightarrow> string \<Rightarrow> incident_ledger \<Rightarrow> int ledger_run" where
  "resolve_recovered_family b sts fam observed detail L =
     (case list_incidents b 1000 L of
        Inl err \<Rightarrow> (L, Inl err)
      | Inr rs \<Rightarrow> family_loop b fam observed detail (zip rs (map sts [0..<length rs])) L 0)"

text \<open>\<open>resolve_recovered_prefix\<close>: the same loop on a prefix, closing at the wall clock (an instant per call).\<close>

fun prefix_loop :: "store \<Rightarrow> string \<Rightarrow> int \<Rightarrow> string \<Rightarrow> (irow \<times> stamp \<times> int) list \<Rightarrow> incident_ledger \<Rightarrow> unit ledger_run" where
  "prefix_loop b prefix observed detail [] L = (L, Inr ())"
| "prefix_loop b prefix observed detail ((r, st, now) # rs) L =
     (if starts_with (inc_key (row_incident r)) prefix \<and> row_status r \<noteq> Is_Resolved
      then
        (case transition_incident b st (family_close (inc_id (row_incident r)) observed detail\<lparr>tr_at := now\<rparr>) L of
           (L', Inl err) \<Rightarrow> (L', Inl err)
         | (L', Inr res) \<Rightarrow> prefix_loop b prefix observed detail rs L')
      else prefix_loop b prefix observed detail rs L)"

definition resolve_recovered_prefix ::
  "store \<Rightarrow> (nat \<Rightarrow> stamp \<times> int) \<Rightarrow> string \<Rightarrow> int \<Rightarrow> string \<Rightarrow> incident_ledger \<Rightarrow> unit ledger_run" where
  "resolve_recovered_prefix b sts prefix observed detail L =
     (case list_incidents b 1000 L of
        Inl err \<Rightarrow> (L, Inl err)
      | Inr rs \<Rightarrow> prefix_loop b prefix observed detail (zip rs (map sts [0..<length rs])) L)"

end
