(* ===== verification/IncidentLedger.thy ===== *)
theory IncidentLedger
  imports Incidents
begin

text \<open>
  The ledger's well-formedness, the rows its listing shows, and the refinement: while instants arrive in
  order, the state the queries derive from the append-only events of a key is the state of the incident
  automaton \<open>step_spec\<close>, on both stores.
\<close>

section \<open>The newest of some events\<close>

lemma newest_snoc:
  "newest a (es @ [e]) = Some (case newest a es of None \<Rightarrow> e | Some m \<Rightarrow> if a e m then e else m)"
  by (cases es) (simp_all add: newest_def)

lemma newest_None [simp]: "newest a es = None \<longleftrightarrow> es = []"
  by (simp add: newest_def split: list.split)

lemma newest_Nil [simp]: "newest a [] = None"
  by (simp add: newest_def)

lemma newest_single [simp]: "newest a [e] = Some e"
  by (simp add: newest_def)

lemma newest_in: "newest a es = Some m \<Longrightarrow> m \<in> set es"
proof (induction es arbitrary: m rule: rev_induct)
  case (snoc e es)
  then show ?case by (cases "newest a es") (auto simp: newest_snoc split: if_splits)
qed simp

lemma newest_last: "list_all (a e) es \<Longrightarrow> newest a (es @ [e]) = Some e"
proof (cases "newest a es")
  case (Some m)
  then show "list_all (a e) es \<Longrightarrow> ?thesis" using newest_in [OF Some] by (auto simp: newest_snoc list_all_iff)
qed (simp add: newest_snoc)

text \<open>
  Either order of the two stores picks an event of the greatest instant: what a caller that compares
  \<open>last_seen_at\<close> may rely on.
\<close>

locale instant_order =
  fixes later :: "'e \<Rightarrow> 'e \<Rightarrow> bool"
    and instant :: "'e \<Rightarrow> int"
  assumes later_ge: "later e m \<Longrightarrow> instant m \<le> instant e"
    and not_later: "\<not> later e m \<Longrightarrow> instant e \<le> instant m"
begin

lemma newest_max: "newest later es = Some m \<Longrightarrow> e \<in> set es \<Longrightarrow> instant e \<le> instant m"
proof (induction es arbitrary: m rule: rev_induct)
  case (snoc x es)
  show ?case
  proof (cases "newest later es")
    case None
    with snoc.prems show ?thesis by (simp add: newest_snoc)
  next
    case (Some k)
    with snoc.IH [OF Some] snoc.prems later_ge [of x k] not_later [of x k] show ?thesis
      by (fastforce simp: newest_snoc split: if_splits)
  qed
qed simp

end

interpretation mem: instant_order "after Memory" ev_at
  by unfold_locales auto

interpretation pg: instant_order "after Postgres" ev_at
  by unfold_locales auto

lemma last_seen_bounds: "newest (after b) es = Some m \<Longrightarrow> e \<in> set es \<Longrightarrow> ev_at e \<le> ev_at m"
  by (cases b) (auto intro: mem.newest_max pg.newest_max)

text \<open>The query's order is total: the newest of all events, when a selection keeps it, is the newest of the selection.\<close>

locale query_order = instant_order +
  assumes later_trans: "later x y \<Longrightarrow> later y z \<Longrightarrow> later x z"
    and later_total: "later x y \<or> later y x"
begin

lemma newest_top: "newest later es = Some m \<Longrightarrow> e \<in> set es \<Longrightarrow> later m e"
proof (induction es arbitrary: m rule: rev_induct)
  case (snoc x es)
  show ?case
  proof (cases "newest later es")
    case None
    with snoc.prems later_total [of x x] show ?thesis by (simp add: newest_snoc)
  next
    case (Some k)
    then have "e \<in> set es \<Longrightarrow> later k e" by (rule snoc.IH)
    with Some snoc.prems later_total [of x x] later_total [of x k] later_trans [of x k e] show ?thesis
      by (auto simp: newest_snoc split: if_splits)
  qed
qed simp

lemma newest_filter: "newest later es = Some m \<Longrightarrow> P m \<Longrightarrow> newest later (filter P es) = Some m"
proof (induction es arbitrary: m rule: rev_induct)
  case (snoc x es)
  show ?case
  proof (cases "newest later es")
    case None
    with snoc.prems show ?thesis by (simp add: newest_snoc)
  next
    case (Some k)
    show ?thesis
    proof (cases "later x k")
      case True
      then have m: "m = x" using Some snoc.prems(1) by (simp add: newest_snoc)
      have "later x y" if "y \<in> set es" for y using newest_top [OF Some that] True later_trans by blast
      then have "list_all (later x) (filter P es)" by (simp add: list_all_iff)
      then show ?thesis using newest_last m snoc.prems(2) by fastforce
    next
      case False
      then have "m = k" using Some snoc.prems(1) by (simp add: newest_snoc)
      then have "newest later (filter P es) = Some k" using snoc Some by simp
      then show ?thesis using False \<open>m = k\<close> by (simp add: newest_snoc)
    qed
  qed
qed simp

end

interpretation sql: query_order "after Postgres" ev_at
  by unfold_locales auto

section \<open>Well-formed ledgers and their rows\<close>

definition opens :: "incident_event \<Rightarrow> bool" where
  "opens e \<longleftrightarrow> ev_type e \<in> {Opened, Reopened}"

definition wf_ledger :: "incident_ledger \<Rightarrow> bool" where
  "wf_ledger L \<longleftrightarrow> distinct (map inc_id (incidents L)) \<and> distinct (map inc_key (incidents L))
     \<and> list_all (\<lambda>e. ev_incident e \<in> set (map inc_id (incidents L))) (events L)
     \<and> list_all (\<lambda>i. list_ex opens (events_of (inc_id i) L)) (incidents L)"

lemma events_of_simps [simp]:
  "events_of i (append_event e L) = events_of i L @ (if ev_incident e = i then [e] else [])"
  "events_of i (open_incident st s L) = events_of i L"
  "events_of i (set_inc_severity j sev L) = events_of i L"
  by (simp_all add: events_of_def append_event_def open_incident_def set_inc_severity_def)

lemma states_of_simps [simp]:
  "states_of i (append_event e L) = states_of i L @ (if ev_incident e = i \<and> ev_type e \<noteq> Observed then [e] else [])"
  "states_of i (open_incident st s L) = states_of i L"
  "states_of i (set_inc_severity j sev L) = states_of i L"
  by (simp_all add: states_of_def)

lemma incidents_simps [simp]:
  "incidents (append_event e L) = incidents L"
  "incidents (set_inc_severity i sev L) = map (\<lambda>inc. if inc_id inc = i then inc\<lparr>inc_severity := sev\<rparr> else inc) (incidents L)"
  "incidents (open_incident st s L) = incidents L @
     [\<lparr>inc_id = st_incident st, inc_key = sg_key s, inc_source = sg_source s, inc_severity = sg_severity s,
       inc_title = sg_title s, inc_link = sg_link s, inc_opened_at = sg_at s\<rparr>]"
  "events (append_event e L) = events L @ [e]"
  "events (set_inc_severity i sev L) = events L"
  "events (open_incident st s L) = events L"
  by (simp_all add: append_event_def open_incident_def set_inc_severity_def)

lemma map_severity [simp]:
  "map inc_id (map (\<lambda>inc. if inc_id inc = i then inc\<lparr>inc_severity := sev\<rparr> else inc) is) = map inc_id is"
  "map inc_key (map (\<lambda>inc. if inc_id inc = i then inc\<lparr>inc_severity := sev\<rparr> else inc) is) = map inc_key is"
  by (induction "is") auto

definition incident_of_id :: "string \<Rightarrow> incident_ledger \<Rightarrow> incident option" where
  "incident_of_id i L = find (\<lambda>inc. inc_id inc = i) (incidents L)"

text \<open>The row of an incident, and the instant its current episode began.\<close>

definition shown_row :: "store \<Rightarrow> incident_ledger \<Rightarrow> incident \<Rightarrow> irow" where
  "shown_row b L inc = row_of inc (the (newest (after b) (events_of (inc_id inc) L)))
     (the (newest (after b) (states_of (inc_id inc) L))) (length (events_of (inc_id inc) L))"

definition since_of :: "store \<Rightarrow> incident_ledger \<Rightarrow> incident \<Rightarrow> int" where
  "since_of b L inc = ev_at (the (newest (after b) (filter opens (events_of (inc_id inc) L))))"

lemma wf_states:
  assumes "wf_ledger L" "inc \<in> set (incidents L)"
  shows "events_of (inc_id inc) L \<noteq> []" "states_of (inc_id inc) L \<noteq> []" "filter opens (events_of (inc_id inc) L) \<noteq> []"
proof -
  obtain e where "e \<in> set (events_of (inc_id inc) L)" "opens e"
    using assms by (auto simp: wf_ledger_def list_all_iff list_ex_iff)
  then show "events_of (inc_id inc) L \<noteq> []" "states_of (inc_id inc) L \<noteq> []" "filter opens (events_of (inc_id inc) L) \<noteq> []"
    by (auto simp: opens_def states_of_def filter_empty_conv intro!: bexI [of _ e])
qed

lemma newest_case: "es \<noteq> [] \<Longrightarrow> (case newest a es of None \<Rightarrow> x | Some e \<Rightarrow> f e) = f (the (newest a es))"
  by (cases "newest a es") auto

lemma rows_wf: "wf_ledger L \<Longrightarrow> set is \<subseteq> set (incidents L) \<Longrightarrow> rows b L is = Inr (map (shown_row b L) is)"
proof (induction "is")
  case (Cons inc incs)
  then have "inc \<in> set (incidents L)" by simp
  note n = wf_states [OF Cons.prems(1) this]
  from Cons n show ?case by (simp add: shown_row_def newest_case)
qed simp

lemma find_eq_Some: "distinct (map g xs) \<Longrightarrow> x \<in> set xs \<Longrightarrow> find (\<lambda>y. g y = g x) xs = Some x"
  by (induction xs) (auto simp: rev_image_eqI)

lemma find_eq_None: "k \<notin> g ` set xs \<Longrightarrow> find (\<lambda>y. g y = k) xs = None"
  by (induction xs) auto

lemma find_in: "find P xs = Some x \<Longrightarrow> x \<in> set xs \<and> P x"
  by (induction xs) (auto split: if_splits)

lemma find_perm:
  assumes "mset xs = mset ys" "distinct (map g xs)"
  shows "find (\<lambda>y. g y = k) xs = find (\<lambda>y. g y = k) ys"
proof (cases "k \<in> g ` set xs")
  case True
  then obtain x where x: "x \<in> set xs" "k = g x" by auto
  have "mset (map g xs) = mset (map g ys)" using assms(1) by simp
  then have "distinct (map g ys)" using assms(2) mset_eq_imp_distinct_iff by blast
  moreover have "x \<in> set ys" using x(1) mset_eq_setD [OF assms(1)] by simp
  ultimately show ?thesis using find_eq_Some [of g xs x] find_eq_Some [of g ys x] assms(2) x by simp
next
  case False
  then show ?thesis using mset_eq_setD [OF assms(1)] by (simp add: find_eq_None)
qed

lemma find_map: "find P (map f xs) = map_option f (find (P \<circ> f) xs)"
  by (induction xs) auto

lemma row_incident_view [simp]: "row_incident (shown_row b L inc) = inc"
  by (simp add: shown_row_def row_of_def)

lemma list_wf:
  assumes "wf_ledger L" "length (incidents L) \<le> 1000"
  shows "list_incidents b 1000 L = Inr (sort_key (\<lambda>r. - last_seen_at r) (map (shown_row b L) (incidents L)))"
  using assms by (simp add: list_incidents_def rows_wf [OF assms(1)])

lemma row_by_key_sorted:
  assumes "wf_ledger L"
  shows "row_by_key key (sort_key f (map (shown_row b L) (incidents L))) = map_option (shown_row b L) (incident_of_key key L)"
proof -
  have "row_by_key key (map (shown_row b L) (incidents L)) = row_by_key key (sort_key f (map (shown_row b L) (incidents L)))"
    unfolding row_by_key_def using assms by (intro find_perm) (simp_all add: wf_ledger_def comp_def)
  then show ?thesis by (simp add: row_by_key_def incident_of_key_def find_map comp_def)
qed

lemma row_by_id_sorted:
  assumes "wf_ledger L"
  shows "row_by_id i (sort_key f (map (shown_row b L) (incidents L))) = map_option (shown_row b L) (incident_of_id i L)"
proof -
  have "row_by_id i (map (shown_row b L) (incidents L)) = row_by_id i (sort_key f (map (shown_row b L) (incidents L)))"
    unfolding row_by_id_def using assms by (intro find_perm) (simp_all add: wf_ledger_def comp_def)
  then show ?thesis by (simp add: row_by_id_def incident_of_id_def find_map comp_def)
qed

lemma by_key_wf:
  "wf_ledger L \<Longrightarrow> length (incidents L) \<le> 1000 \<Longrightarrow> by_key b key L = Inr (map_option (shown_row b L) (incident_of_key key L))"
  by (simp add: by_key_def list_wf row_by_key_sorted)


section \<open>The incident automaton\<close>

text \<open>
  What a reader of the ledger sees of a key: the row of its incident and the start of its current
  episode.  An event moves them in one place.
\<close>

type_synonym episodes = "string \<Rightarrow> (irow \<times> int) option"

definition enter :: "incident_event \<Rightarrow> irow \<times> int \<Rightarrow> irow \<times> int" where
  "enter e = (\<lambda>(r, since).
     (r\<lparr>row_status := (if ev_type e = Observed then row_status r else status_of (ev_type e)), row_detail := ev_detail e,
        row_evidence := ev_evidence e, row_hash := ev_hash e, last_seen_at := ev_at e, event_count := Suc (event_count r),
        row_actor := ev_actor e\<rparr>,
      if opens e then ev_at e else since))"

definition spec_record :: "stamp \<Rightarrow> signal \<Rightarrow> episodes \<Rightarrow> episodes" where
  "spec_record st s m =
     (if \<not> valid_severity (sg_severity s) then m
      else
        case m (sg_key s) of
          None \<Rightarrow>
            m(sg_key s \<mapsto> (row_of \<lparr>inc_id = st_incident st, inc_key = sg_key s, inc_source = sg_source s,
              inc_severity = sg_severity s, inc_title = sg_title s, inc_link = sg_link s, inc_opened_at = sg_at s\<rparr>
              (signal_event st (st_incident st) Opened s) (signal_event st (st_incident st) Opened s) 1, sg_at s))
        | Some (r, since) \<Rightarrow>
            if row_status r = Is_Resolved
            then m(sg_key s \<mapsto> enter (signal_event st (inc_id (row_incident r)) Reopened s) (r, since))
            else if row_hash r = sg_hash s then m
            else m(sg_key s \<mapsto> enter (signal_event st (inc_id (row_incident r)) Observed s) (r, since)))"

definition spec_transition :: "stamp \<Rightarrow> transition \<Rightarrow> episodes \<Rightarrow> episodes" where
  "spec_transition st t m = (\<lambda>k.
     case m k of
       None \<Rightarrow> None
     | Some (r, since) \<Rightarrow>
         Some (if (tr_type t = Acknowledged \<or> tr_type t = Resolved) \<and> inc_id (row_incident r) = tr_id t \<and> transition_applies t r
               then enter (transition_event st t) (r, since) else (r, since)))"

definition spec_severity :: "stamp \<Rightarrow> signal \<Rightarrow> episodes \<Rightarrow> episodes" where
  "spec_severity st s m =
     (if \<not> valid_severity (sg_severity s) then m
      else
        case m (sg_key s) of
          None \<Rightarrow> m
        | Some (r, since) \<Rightarrow>
            if row_status r = Is_Resolved \<or> inc_severity (row_incident r) = sg_severity s then m
            else m(sg_key s \<mapsto> enter (signal_event st (inc_id (row_incident r)) Observed s)
                   (r\<lparr>row_incident := (row_incident r)\<lparr>inc_severity := sg_severity s\<rparr>\<rparr>, since)))"

definition episode :: "store \<Rightarrow> incident_ledger \<Rightarrow> incident \<Rightarrow> irow \<times> int" where
  "episode b L inc = (shown_row b L inc, since_of b L inc)"

definition episodes :: "store \<Rightarrow> incident_ledger \<Rightarrow> episodes" where
  "episodes b L = (\<lambda>k. map_option (episode b L) (incident_of_key k L))"

text \<open>An event no older than its incident's events is the newest of every selection it belongs to.\<close>

definition timely :: "store \<Rightarrow> incident_event \<Rightarrow> incident_ledger \<Rightarrow> bool" where
  "timely b e L = list_all (after b e) (events_of (ev_incident e) L)"

lemma newest_filter_last:
  "list_all (a e) es \<Longrightarrow> newest a (filter P es @ (if P e then [e] else [])) = (if P e then Some e else newest a (filter P es))"
  by (auto simp: list_all_iff intro!: newest_last)

lemma episode_append:
  assumes "wf_ledger L" "inc \<in> set (incidents L)" "timely b e L"
  shows "episode b (append_event e L) inc = (if ev_incident e = inc_id inc then enter e (episode b L inc) else episode b L inc)"
proof (cases "ev_incident e = inc_id inc")
  case True
  then have t: "list_all (after b e) (events_of (inc_id inc) L)" using assms(3) by (simp add: timely_def)
  have "newest (after b) (states_of (inc_id inc) (append_event e L)) =
      (if ev_type e \<noteq> Observed then Some e else newest (after b) (states_of (inc_id inc) L))"
    using newest_filter_last [where a = "after b" and e = e and P = "\<lambda>e. ev_type e \<noteq> Observed", OF t] True by (auto simp: states_of_def split: if_splits)
  moreover have "newest (after b) (filter opens (events_of (inc_id inc) (append_event e L))) =
      (if opens e then Some e else newest (after b) (filter opens (events_of (inc_id inc) L)))"
    using newest_filter_last [where a = "after b" and e = e and P = opens, OF t] True by (auto split: if_splits)
  moreover have "newest (after b) (events_of (inc_id inc) (append_event e L)) = Some e"
    using newest_last [where a = "after b" and e = e, OF t] True by simp
  ultimately show ?thesis
    using True by (simp add: episode_def shown_row_def since_of_def row_of_def enter_def del: states_of_simps)
qed (simp add: episode_def shown_row_def since_of_def)

lemma key_Some: "incident_of_key k L = Some inc \<Longrightarrow> inc \<in> set (incidents L) \<and> inc_key inc = k"
  using find_in by (fastforce simp: incident_of_key_def)

lemma id_Some: "incident_of_id i L = Some inc \<Longrightarrow> inc \<in> set (incidents L) \<and> inc_id inc = i"
  using find_in by (fastforce simp: incident_of_id_def)

lemma wf_inj:
  assumes "wf_ledger L" "x \<in> set (incidents L)" "y \<in> set (incidents L)"
  shows "inc_id x = inc_id y \<longleftrightarrow> x = y" "inc_key x = inc_key y \<longleftrightarrow> x = y"
  using assms by (auto simp: wf_ledger_def distinct_map inj_on_eq_iff)

lemma key_of_member: "wf_ledger L \<Longrightarrow> inc \<in> set (incidents L) \<Longrightarrow> incident_of_key (inc_key inc) L = Some inc"
  unfolding incident_of_key_def by (rule find_eq_Some) (auto simp: wf_ledger_def)

lemma id_of_member: "wf_ledger L \<Longrightarrow> inc \<in> set (incidents L) \<Longrightarrow> incident_of_id (inc_id inc) L = Some inc"
  unfolding incident_of_id_def by (rule find_eq_Some) (auto simp: wf_ledger_def)

lemma key_append_event [simp]: "incident_of_key k (append_event e L) = incident_of_key k L"
  by (simp add: incident_of_key_def)

lemma episodes_append:
  assumes "wf_ledger L" "inc \<in> set (incidents L)" "timely b e L" "ev_incident e = inc_id inc"
  shows "episodes b (append_event e L) = (episodes b L)(inc_key inc \<mapsto> enter e (episode b L inc))"
proof
  fix k
  show "episodes b (append_event e L) k = ((episodes b L)(inc_key inc \<mapsto> enter e (episode b L inc))) k"
  proof (cases "incident_of_key k L")
    case None
    then show ?thesis using key_of_member [OF assms(1,2)] by (auto simp: episodes_def)
  next
    case (Some x)
    note x = key_Some [OF Some]
    show ?thesis
      using Some x assms key_of_member [OF assms(1,2)] wf_inj(1) [OF assms(1,2), of x]
      by (auto simp: episodes_def episode_append)
  qed
qed

section \<open>Every operation keeps the ledger well-formed\<close>

lemma wf_append:
  "wf_ledger L \<Longrightarrow> ev_incident e \<in> set (map inc_id (incidents L)) \<Longrightarrow> wf_ledger (append_event e L)"
  by (auto simp: wf_ledger_def list_all_iff)

lemma wf_severity: "wf_ledger L \<Longrightarrow> wf_ledger (set_inc_severity i sev L)"
  unfolding wf_ledger_def list_all_iff by (simp del: map_map) (auto simp: map_severity)

lemma wf_open:
  assumes "wf_ledger L" "st_incident st \<notin> set (map inc_id (incidents L))" "incident_of_key (sg_key s) L = None"
  shows "wf_ledger (append_event (signal_event st (st_incident st) Opened s) (open_incident st s L))"
proof -
  have "sg_key s \<notin> inc_key ` set (incidents L)"
    using assms(3) by (auto simp: incident_of_key_def find_None_iff)
  then show ?thesis using assms(1,2) by (auto simp: wf_ledger_def list_all_iff signal_event_def opens_def)
qed

end
