(* ===== verification/IncidentLifecycle.thy ===== *)
theory IncidentLifecycle
  imports IncidentLedger
begin

text \<open>
  The refinement of the incident automaton by the ledger's operations, what automatic recovery closes, and
  where instants that do not arrive in order, or a full listing, break the promise.
\<close>

section \<open>Operation by operation\<close>

lemma key_open [simp]:
  "incident_of_key k (open_incident st s L) =
     (case incident_of_key k L of Some inc \<Rightarrow> Some inc
      | None \<Rightarrow> if k = sg_key s then Some \<lparr>inc_id = st_incident st, inc_key = sg_key s, inc_source = sg_source s,
          inc_severity = sg_severity s, inc_title = sg_title s, inc_link = sg_link s, inc_opened_at = sg_at s\<rparr> else None)"
proof -
  have "find P (xs @ [x]) = (case find P xs of Some y \<Rightarrow> Some y | None \<Rightarrow> if P x then Some x else None)" for P and xs :: "incident list" and x
    by (induction xs) auto
  then show ?thesis by (auto simp: incident_of_key_def)
qed

lemma episode_cong: "events_of (inc_id inc) L = events_of (inc_id inc) L' \<Longrightarrow> episode b L inc = episode b L' inc"
  by (simp add: episode_def shown_row_def since_of_def states_of_def)

lemma fresh_events:
  assumes "wf_ledger L" "i \<notin> set (map inc_id (incidents L))"
  shows "events_of i L = []"
  using assms by (auto simp: wf_ledger_def events_of_def filter_empty_conv list_all_iff)

lemma episodes_open:
  assumes wf: "wf_ledger L" and fresh: "st_incident st \<notin> set (map inc_id (incidents L))"
    and none: "incident_of_key (sg_key s) L = None" and sev: "valid_severity (sg_severity s)"
  shows "episodes b (append_event (signal_event st (st_incident st) Opened s) (open_incident st s L))
       = spec_record st s (episodes b L)"
proof
  fix k
  have e: "events_of (st_incident st) L = []" by (rule fresh_events [OF wf fresh])
  show "episodes b (append_event (signal_event st (st_incident st) Opened s) (open_incident st s L)) k
       = spec_record st s (episodes b L) k"
  proof (cases "incident_of_key k L")
    case None
    then show ?thesis
      using none sev e by (simp add: episodes_def spec_record_def episode_def shown_row_def since_of_def states_of_def
          signal_event_def opens_def)
  next
    case (Some inc)
    then have "inc_id inc \<noteq> st_incident st" using fresh key_Some [OF Some] by force
    moreover have "k \<noteq> sg_key s" using Some none by auto
    ultimately show ?thesis
      using Some none sev by (simp add: episodes_def spec_record_def signal_event_def)
        (intro episode_cong, simp)
  qed
qed

text \<open>The row a call reads, when the listing is not full.\<close>

lemma row_read:
  assumes "wf_ledger L" "length (incidents L) \<le> 1000" "incident_of_key key L = Some inc"
  shows "by_key b key L = Inr (Some (shown_row b L inc))"
  using by_key_wf [OF assms(1,2)] assms(3) by simp

lemma view_status: "row_status (shown_row b L inc) = status_of (ev_type (the (newest (after b) (states_of (inc_id inc) L))))"
  by (simp add: shown_row_def row_of_def)

lemma view_hash: "row_hash (shown_row b L inc) = ev_hash (the (newest (after b) (events_of (inc_id inc) L)))"
  by (simp add: shown_row_def row_of_def)

lemma resolved_type: "status_of t = Is_Resolved \<longleftrightarrow> t = Resolved"
  by (cases t) auto

lemma newest_Some: "es \<noteq> [] \<Longrightarrow> newest a es = Some (the (newest a es))"
  by (cases "newest a es") auto

lemma state_resolved:
  assumes "wf_ledger L" "inc \<in> set (incidents L)"
  shows "map_option ev_type (newest (after b) (states_of (inc_id inc) L)) = Some Resolved
     \<longleftrightarrow> row_status (shown_row b L inc) = Is_Resolved"
    "map_option ev_hash (newest (after b) (events_of (inc_id inc) L)) = Some h \<longleftrightarrow> row_hash (shown_row b L inc) = h"
  using newest_Some [OF wf_states(1) [OF assms], of "after b"] newest_Some [OF wf_states(2) [OF assms], of "after b"]
  by (auto simp: view_status view_hash resolved_type)

text \<open>
  When an operation may rely on the order of instants: the event it would write is the newest of its
  incident; a new incident's identifier is new and the listing has room for it.
\<close>

datatype incident_op =
    Op_Record stamp signal
  | Op_Transition stamp transition
  | Op_Severity stamp signal

fun exec_op :: "store \<Rightarrow> incident_op \<Rightarrow> incident_ledger \<Rightarrow> incident_ledger" where
  "exec_op b (Op_Record st s) L = fst (record_incident b st s L)"
| "exec_op b (Op_Transition st t) L = fst (transition_incident b st t L)"
| "exec_op b (Op_Severity st s) L = fst (set_severity b st s L)"

fun step_spec :: "incident_op \<Rightarrow> episodes \<Rightarrow> episodes" where
  "step_spec (Op_Record st s) = spec_record st s"
| "step_spec (Op_Transition st t) = spec_transition st t"
| "step_spec (Op_Severity st s) = spec_severity st s"

fun in_order :: "store \<Rightarrow> incident_op \<Rightarrow> incident_ledger \<Rightarrow> bool" where
  "in_order b (Op_Record st s) L =
     (case incident_of_key (sg_key s) L of
        None \<Rightarrow> st_incident st \<notin> set (map inc_id (incidents L)) \<and> length (incidents L) < 1000
      | Some inc \<Rightarrow> timely b (signal_event st (inc_id inc) Observed s) L)"
| "in_order b (Op_Transition st t) L = timely b (transition_event st t) L"
| "in_order b (Op_Severity st s) L =
     (case incident_of_key (sg_key s) L of
        None \<Rightarrow> True
      | Some inc \<Rightarrow> timely b (signal_event st (inc_id inc) Observed s) L)"

definition sound :: "incident_ledger \<Rightarrow> bool" where
  "sound L \<longleftrightarrow> wf_ledger L \<and> length (incidents L) \<le> 1000"

lemma timely_type: "timely b (signal_event st i t s) L = timely b (signal_event st i t' s) L"
  by (cases b) (simp_all add: timely_def signal_event_def list_all_iff)

lemma signal_event_incident [simp]: "ev_incident (signal_event st i t s) = i"
  by (simp add: signal_event_def)

lemma transition_event_incident [simp]: "ev_incident (transition_event st t) = tr_id t" "ev_type (transition_event st t) = tr_type t"
  by (simp_all add: transition_event_def)

lemma append_step:
  assumes "sound L" "inc \<in> set (incidents L)" "timely b e L" "ev_incident e = inc_id inc"
  shows "sound (append_event e L)"
    "episodes b (append_event e L) = (episodes b L)(inc_key inc \<mapsto> enter e (shown_row b L inc, since_of b L inc))"
  using assms wf_append [of L e] episodes_append [of L inc b e] by (auto simp: sound_def episode_def)

lemma record_refines:
  assumes L: "sound L" and o: "in_order b (Op_Record st s) L"
  shows "sound (fst (record_incident b st s L))"
    and "episodes b (fst (record_incident b st s L)) = spec_record st s (episodes b L)"
proof -
  have "sound (fst (record_incident b st s L)) \<and> episodes b (fst (record_incident b st s L)) = spec_record st s (episodes b L)"
  proof (cases "valid_severity (sg_severity s)")
    case False
    then show ?thesis using L by (simp add: record_incident_def spec_record_def)
  next
    case sev: True
    show ?thesis
    proof (cases "incident_of_key (sg_key s) L")
      case None
      with o have fresh: "st_incident st \<notin> set (map inc_id (incidents L))" and room: "length (incidents L) < 1000" by simp_all
      have "fst (record_incident b st s L) = append_event (signal_event st (st_incident st) Opened s) (open_incident st s L)"
        using None sev by (simp add: record_incident_def Let_def)
      then show ?thesis
        using episodes_open [OF _ fresh None sev, of b] wf_open [OF _ fresh None] L room by (simp add: sound_def)
    next
      case (Some inc)
      note inc = key_Some [OF Some]
      have wf: "wf_ledger L" and len: "length (incidents L) \<le> 1000" using L by (simp_all add: sound_def)
      have t: "timely b (signal_event st (inc_id inc) T s) L" for T
        using o Some timely_type [of b st "inc_id inc" T s L Observed] by simp
      have "fst (record_incident b st s L) =
          (if row_status (shown_row b L inc) = Is_Resolved then append_event (signal_event st (inc_id inc) Reopened s) L
           else if row_hash (shown_row b L inc) = sg_hash s then L
           else append_event (signal_event st (inc_id inc) Observed s) L)"
        using sev Some state_resolved [OF wf, of inc b] inc row_read [OF wf len Some, of b]
        by (cases b) (simp_all add: record_incident_def Let_def)
      moreover have "episodes b L (sg_key s) = Some (shown_row b L inc, since_of b L inc)"
        using Some by (simp add: episodes_def episode_def)
      ultimately show ?thesis
        using L sev inc append_step [OF L conjunct1 [OF inc] t] by (simp add: spec_record_def)
    qed
  qed
  then show "sound (fst (record_incident b st s L))"
    and "episodes b (fst (record_incident b st s L)) = spec_record st s (episodes b L)" by simp_all
qed

lemma transition_eq:
  assumes L: "sound L"
  shows "transition_incident b st t L =
    (if tr_type t = Acknowledged \<or> tr_type t = Resolved
     then (case incident_of_id (tr_id t) L of
             None \<Rightarrow> (L, Inr None)
           | Some inc \<Rightarrow>
               if transition_applies t (shown_row b L inc)
               then (append_event (transition_event st t) L, Inr (Some (shown_row b (append_event (transition_event st t) L) inc)))
               else (L, Inr (Some (shown_row b L inc))))
     else (L, Inl InvalidTransition))"
proof (cases "tr_type t = Acknowledged \<or> tr_type t = Resolved")
  case True
  have wf: "wf_ledger L" and len: "length (incidents L) \<le> 1000" using L by (simp_all add: sound_def)
  show ?thesis
  proof (cases "incident_of_id (tr_id t) L")
    case None
    then show ?thesis using True by (auto simp: transition_incident_def list_wf [OF wf len] row_by_id_sorted [OF wf])
  next
    case (Some inc)
    note inc = id_Some [OF Some]
    have ex: "list_ex (\<lambda>i. inc_id i = tr_id t) (incidents L)" using inc by (auto simp: list_ex_iff)
    have "recovery_stands d (newest (after b) (events_of (tr_id t) L))"
      if "transition_applies t (shown_row b L inc)" "tr_recovered t = Some d" "b = Postgres" for d
    proof -
      obtain e where e: "newest (after b) (events_of (inc_id inc) L) = Some e"
        using newest_Some [OF wf_states(1) [OF wf]] inc by blast
      then have "ev_at e \<le> d" using that by (simp add: transition_applies_def shown_row_def row_of_def)
      moreover have "ev_type e \<noteq> Resolved"
      proof
        assume r: "ev_type e = Resolved"
        have "newest (after b) (states_of (inc_id inc) L) = Some e"
          unfolding states_of_def using that(3) e r sql.newest_filter [of "events_of (inc_id inc) L" e] by simp
        then show False using that(1) r by (simp add: transition_applies_def view_status)
      qed
      ultimately show ?thesis using e inc by (simp add: recovery_stands_def)
    qed
    moreover have wf': "wf_ledger (append_event (transition_event st t) L)"
      using wf_append [OF wf, of "transition_event st t"] inc by force
    moreover have "row_by_id (tr_id t) (sort_key f (map (shown_row b (append_event (transition_event st t) L)) (incidents L)))
        = Some (shown_row b (append_event (transition_event st t) L) inc)" for f
      using row_by_id_sorted [OF wf', of "tr_id t" f b] Some by (simp add: incident_of_id_def)
    ultimately show ?thesis
      using True Some ex len by (auto simp: transition_incident_def list_wf [OF wf len] row_by_id_sorted [OF wf]
          list_wf Let_def split: option.splits)
  qed
qed (simp add: transition_incident_def)

lemma transition_refines:
  assumes L: "sound L" and o: "in_order b (Op_Transition st t) L"
  shows "sound (fst (transition_incident b st t L))"
    and "episodes b (fst (transition_incident b st t L)) = spec_transition st t (episodes b L)"
proof -
  have wf: "wf_ledger L" using L by (simp add: sound_def)
  have other: "spec_transition st t (episodes b L) k = episodes b L k"
    if "\<And>inc. incident_of_key k L = Some inc \<Longrightarrow> inc_id inc \<noteq> tr_id t \<or> \<not> transition_applies t (shown_row b L inc)
        \<or> \<not> (tr_type t = Acknowledged \<or> tr_type t = Resolved)" for k
    using that by (cases "incident_of_key k L") (auto simp: spec_transition_def episodes_def episode_def)
  have "sound (fst (transition_incident b st t L)) \<and> episodes b (fst (transition_incident b st t L)) = spec_transition st t (episodes b L)"
  proof (cases "(tr_type t = Acknowledged \<or> tr_type t = Resolved)
      \<and> (\<exists>inc. incident_of_id (tr_id t) L = Some inc \<and> transition_applies t (shown_row b L inc))")
    case True
    then obtain inc where inc: "incident_of_id (tr_id t) L = Some inc" "transition_applies t (shown_row b L inc)"
      and ty: "tr_type t = Acknowledged \<or> tr_type t = Resolved" by blast
    note m = id_Some [OF inc(1)]
    have f: "fst (transition_incident b st t L) = append_event (transition_event st t) L"
      using transition_eq [OF L, of b st t] ty inc by simp
    have "spec_transition st t (episodes b L) k =
        ((episodes b L)(inc_key inc \<mapsto> enter (transition_event st t) (shown_row b L inc, since_of b L inc))) k" for k
    proof (cases "k = inc_key inc")
      case True
      then show ?thesis
        using key_of_member [OF wf conjunct1 [OF m]] inc ty m by (simp add: spec_transition_def episodes_def episode_def)
    next
      case False
      have "inc_id x \<noteq> tr_id t" if "incident_of_key k L = Some x" for x
        using key_Some [OF that] m False wf_inj(1) [OF wf, of x inc] by auto
      then show ?thesis using other [of k] False by simp
    qed
    then show ?thesis using f append_step [OF L conjunct1 [OF m], of b "transition_event st t"] o m by (simp add: fun_eq_iff)
  next
    case False
    then have f: "fst (transition_incident b st t L) = L"
      using transition_eq [OF L, of b st t] by (auto split: option.splits)
    have "inc_id x \<noteq> tr_id t \<or> \<not> transition_applies t (shown_row b L x) \<or> \<not> (tr_type t = Acknowledged \<or> tr_type t = Resolved)"
      if "incident_of_key k L = Some x" for k x
      using False id_of_member [OF wf conjunct1 [OF key_Some [OF that]]] by auto
    then show ?thesis using f L other by (simp add: fun_eq_iff)
  qed
  then show "sound (fst (transition_incident b st t L))"
    and "episodes b (fst (transition_incident b st t L)) = spec_transition st t (episodes b L)" by simp_all
qed

lemma key_severity:
  "incident_of_key k (set_inc_severity i sev L)
     = map_option (\<lambda>inc. if inc_id inc = i then inc\<lparr>inc_severity := sev\<rparr> else inc) (incident_of_key k L)"
proof -
  have *: "((\<lambda>i. inc_key i = k) \<circ> (\<lambda>inc. if inc_id inc = i then inc\<lparr>inc_severity := sev\<rparr> else inc)) = (\<lambda>i. inc_key i = k)"
    by (auto simp: fun_eq_iff)
  show ?thesis by (simp add: incident_of_key_def find_map *)
qed

lemma view_severity:
  "shown_row b (set_inc_severity i sev L) inc = shown_row b L inc"
  "since_of b (set_inc_severity i sev L) inc = since_of b L inc"
  "shown_row b L (inc\<lparr>inc_severity := sev\<rparr>) = (shown_row b L inc)\<lparr>row_incident := inc\<lparr>inc_severity := sev\<rparr>\<rparr>"
  "since_of b L (inc\<lparr>inc_severity := sev\<rparr>) = since_of b L inc"
  by (simp_all add: shown_row_def since_of_def row_of_def states_of_def)

lemma severity_fst:
  assumes L: "sound L"
  shows "fst (set_severity b st s L) =
    (case incident_of_key (sg_key s) L of
       None \<Rightarrow> L
     | Some inc \<Rightarrow>
         if \<not> valid_severity (sg_severity s) \<or> row_status (shown_row b L inc) = Is_Resolved \<or> inc_severity inc = sg_severity s then L
         else append_event (signal_event st (inc_id inc) Observed s) (set_inc_severity (inc_id inc) (sg_severity s) L))"
proof (cases "incident_of_key (sg_key s) L")
  case None
  then show ?thesis using L by (cases b) (auto simp: set_severity_def sound_def by_key_wf)
next
  case (Some inc)
  have wf: "wf_ledger L" and len: "length (incidents L) \<le> 1000" using L by (simp_all add: sound_def)
  have "inc \<in> set (incidents L)" using key_Some [OF Some] by simp
  note st = newest_Some [OF wf_states(2) [OF wf this], of "after b"]
  show ?thesis
  proof (cases b)
    case Memory
    then show ?thesis using Some by (simp add: set_severity_def row_read [OF wf len Some] Let_def)
  next
    case Postgres
    obtain e where e: "newest (after Postgres) (states_of (inc_id inc) L) = Some e" using st Postgres by blast
    then show ?thesis using Some Postgres by (simp add: set_severity_def view_status resolved_type Let_def)
  qed
qed

lemma severity_refines:
  assumes L: "sound L" and o: "in_order b (Op_Severity st s) L"
  shows "sound (fst (set_severity b st s L))"
    and "episodes b (fst (set_severity b st s L)) = spec_severity st s (episodes b L)"
proof -
  have "sound (fst (set_severity b st s L)) \<and> episodes b (fst (set_severity b st s L)) = spec_severity st s (episodes b L)"
  proof (cases "incident_of_key (sg_key s) L")
    case None
    then show ?thesis using L by (auto simp: severity_fst spec_severity_def episodes_def)
  next
    case (Some inc)
    note inc = key_Some [OF Some]
    let ?M = "set_inc_severity (inc_id inc) (sg_severity s) L" and ?inc = "inc\<lparr>inc_severity := sg_severity s\<rparr>"
    have wf: "wf_ledger L" using L by (simp add: sound_def)
    have M: "sound ?M" using L wf_severity by (simp add: sound_def)
    have mem: "?inc \<in> set (incidents ?M)" using inc by (auto simp: image_iff)
    have t: "timely b (signal_event st (inc_id inc) Observed s) ?M" using o Some by (simp add: timely_def)
    have eps: "episodes b ?M = (episodes b L)(sg_key s \<mapsto> ((shown_row b L inc)\<lparr>row_incident := ?inc\<rparr>, since_of b L inc))"
    proof
      fix k
      have "x = inc" if "incident_of_key k L = Some x" "inc_id x = inc_id inc" for x
        using wf_inj(1) [OF wf, of x inc] key_Some [OF that(1)] inc that(2) by simp
      then have "incident_of_key k L = Some x \<Longrightarrow> inc_id x = inc_id inc \<Longrightarrow> k = sg_key s" for x
        using key_Some [of k L x] inc by auto
      then show "episodes b ?M k = ((episodes b L)(sg_key s \<mapsto> ((shown_row b L inc)\<lparr>row_incident := ?inc\<rparr>, since_of b L inc))) k"
        using Some by (cases "incident_of_key k L") (auto simp: episodes_def key_severity episode_def view_severity)
    qed
    have ep: "episodes b L (sg_key s) = Some (shown_row b L inc, since_of b L inc)" using Some by (simp add: episodes_def episode_def)
    have "inc_key ?inc = sg_key s" using inc by simp
    with append_step [OF M mem t] eps ep L Some show ?thesis
      by (auto simp: severity_fst spec_severity_def view_severity)
  qed
  then show "sound (fst (set_severity b st s L))"
    and "episodes b (fst (set_severity b st s L)) = spec_severity st s (episodes b L)" by simp_all
qed

lemmas op_refines = record_refines transition_refines severity_refines

lemma exec_refines:
  "sound L \<Longrightarrow> in_order b op L \<Longrightarrow> sound (exec_op b op L) \<and> episodes b (exec_op b op L) = step_spec op (episodes b L)"
  by (cases op) (auto simp only: exec_op.simps step_spec.simps op_refines)

section \<open>A whole history\<close>

fun ordered_run :: "store \<Rightarrow> incident_op list \<Rightarrow> incident_ledger \<Rightarrow> bool" where
  "ordered_run b [] L = True"
| "ordered_run b (op # ops) L = (in_order b op L \<and> ordered_run b ops (exec_op b op L))"

definition empty_ledger :: incident_ledger where
  "empty_ledger = \<lparr>incidents = [], events = []\<rparr>"

lemma run_refines:
  "sound L \<Longrightarrow> ordered_run b ops L \<Longrightarrow>
   sound (run_ops (exec_op b) ops L) \<and> episodes b (run_ops (exec_op b) ops L) = run_ops step_spec ops (episodes b L)"
proof (induction ops arbitrary: L)
  case (Cons op ops)
  then show ?case using exec_refines [of L b op] by simp
qed simp

lemma sound_empty [simp]: "sound empty_ledger"
  by (simp add: sound_def wf_ledger_def empty_ledger_def)

lemma episodes_empty [simp]: "episodes b empty_ledger = (\<lambda>_. None)"
  by (simp add: episodes_def incident_of_key_def empty_ledger_def)

end
