(* ===== verification/IncidentSafety.thy ===== *)
theory IncidentSafety
  imports IncidentLifecycle
begin

text \<open>
  The properties of the incident ledger when its operations run one at a time: the refinement over whole
  histories, the evidence screen and what it keeps out of the ledger, what automatic recovery closes, and
  the three ways the promises break (tied instants in the twin, a listing of more than 1000 incidents, an
  acknowledgement between two identical signals).
\<close>

section \<open>The screen\<close>

fun all_keys :: "pyval \<Rightarrow> string list"
  and keys_items :: "(string \<times> pyval) list \<Rightarrow> string list"
  and keys_elems :: "pyval list \<Rightarrow> string list" where
  "all_keys (VDict kvs) = keys_items kvs"
| "all_keys (VList vs) = keys_elems vs"
| "all_keys _ = []"
| "keys_items [] = []"
| "keys_items ((k, v) # kvs) = k # all_keys v @ keys_items kvs"
| "keys_elems [] = []"
| "keys_elems (v # vs) = all_keys v @ keys_elems vs"

lemma walk_None:
  "walk v p = None \<longleftrightarrow> list_all (\<lambda>k. \<not> sensitive_key k) (all_keys v)"
  "walk_items kvs p = None \<longleftrightarrow> list_all (\<lambda>k. \<not> sensitive_key k) (keys_items kvs)"
  "walk_elems vs i p = None \<longleftrightarrow> list_all (\<lambda>k. \<not> sensitive_key k) (keys_elems vs)"
  by (induction v p and kvs p and vs i p rule: walk_walk_items_walk_elems.induct) (auto split: option.split)

section \<open>The service's calls\<close>

datatype service_op =
    Do_Signal stamp signal
  | Do_Severity stamp signal
  | Do_Acknowledge stamp string string int
  | Do_Resolve stamp string string string int
  | Do_Resolve_Key stamp string string int
  | Do_Family "nat \<Rightarrow> stamp" string int string
  | Do_Prefix "nat \<Rightarrow> stamp \<times> int" string int string

fun serve :: "(pyval \<Rightarrow> string) \<Rightarrow> store \<Rightarrow> service_op \<Rightarrow> incident_ledger \<Rightarrow> incident_ledger" where
  "serve digest b (Do_Signal st s) L = fst (service_signal digest b st s L)"
| "serve digest b (Do_Severity st s) L = fst (service_severity digest b st s L)"
| "serve digest b (Do_Acknowledge st i actor now) L = fst (acknowledge b st i actor now L)"
| "serve digest b (Do_Resolve st i actor resolution now) L = fst (resolve b st i actor resolution now L)"
| "serve digest b (Do_Resolve_Key st key detail now) L = fst (resolve_key b st key detail now L)"
| "serve digest b (Do_Family sts fam observed detail) L = fst (resolve_recovered_family b sts fam observed detail L)"
| "serve digest b (Do_Prefix sts prefix observed detail) L = fst (resolve_recovered_prefix b sts prefix observed detail L)"

definition clean :: "incident_event \<Rightarrow> bool" where
  "clean e = list_all (\<lambda>k. \<not> sensitive_key k) (all_keys (ev_evidence e))"

text \<open>The events of \<open>L'\<close> are those of \<open>L\<close> followed by clean ones.\<close>

definition grows :: "incident_ledger \<Rightarrow> incident_ledger \<Rightarrow> bool" where
  "grows L L' \<longleftrightarrow> (\<exists>es. events L' = events L @ es \<and> list_all clean es)"

lemma grows_refl [simp, intro]: "grows L L"
  by (simp add: grows_def)

lemma grows_trans: "grows L L' \<Longrightarrow> grows L' L'' \<Longrightarrow> grows L L''"
  by (auto simp: grows_def)

lemma grows_append [keeps]: "events L = events L' \<Longrightarrow> clean e \<Longrightarrow> grows L (append_event e L')"
  by (simp add: grows_def)

lemma clean_events: "validate_evidence (sg_evidence s) = None \<Longrightarrow> clean (signal_event st i t s)" "clean (transition_event st tr)"
  by (simp_all add: clean_def signal_event_def transition_event_def validate_evidence_def walk_None)

lemma grows_record: "validate_evidence (sg_evidence s) = None \<Longrightarrow> grows L (fst (record_incident b st s L))"
  by (auto simp: record_incident_def Let_def clean_events intro!: grows_append split: option.split store.split sum.split)

lemma grows_severity: "validate_evidence (sg_evidence s) = None \<Longrightarrow> grows L (fst (set_severity b st s L))"
  by (auto simp: set_severity_def Let_def clean_events intro!: grows_append split: option.split store.split sum.split)

lemma grows_transition: "grows L (fst (transition_incident b st t L))"
  by (auto simp: transition_incident_def Let_def clean_events intro!: grows_append split: option.split sum.split)

lemma grows_family: "grows L (fst (family_loop b fam observed detail xs L n))"
proof (induction xs arbitrary: L n)
  case (Cons x xs)
  obtain r st where x: "x = (r, st)" by (cases x)
  show ?case
  proof (cases "transition_incident b st (family_close (inc_id (row_incident r)) observed detail) L")
    case (Pair L' res)
    then have "grows L L'" using grows_transition [of L b st] by (metis fst_conv)
    then show ?thesis using Cons.IH x Pair by (auto split: sum.split intro: grows_trans)
  qed
qed simp

lemma grows_prefix: "grows L (fst (prefix_loop b prefix observed detail xs L))"
proof (induction xs arbitrary: L)
  case (Cons x xs)
  obtain r st now where x: "x = (r, st, now)" by (cases x)
  show ?case
  proof (cases "transition_incident b st (family_close (inc_id (row_incident r)) observed detail\<lparr>tr_at := now\<rparr>) L")
    case (Pair L' res)
    then have "grows L L'" using grows_transition [of L b st] by (metis fst_conv)
    then show ?thesis using Cons.IH x Pair by (auto split: sum.split intro: grows_trans)
  qed
qed simp

lemma grows_serve: "grows L (serve digest b op L)"
  by (cases op)
    (auto simp: service_signal_def service_severity_def acknowledge_def resolve_def resolve_key_def resolve_recovered_family_def
      resolve_recovered_prefix_def grows_record grows_severity grows_transition grows_family grows_prefix
      split: option.split sum.split)



definition sample_signal :: "string \<Rightarrow> int \<Rightarrow> signal" where
  "sample_signal hash t = \<lparr>sg_key = ''valuation:phase:chewie'', sg_source = ''worker'', sg_severity = ''attention'',
     sg_title = ''chewie failed'', sg_detail = ''night'', sg_link = ''/?view=health'', sg_evidence = VDict [], sg_hash = hash, sg_at = t\<rparr>"

definition sample_stamp :: "int \<Rightarrow> stamp" where
  "sample_stamp n = \<lparr>st_incident = ''incident'', st_event = ''event'', st_created = n\<rparr>"

definition sample_transition :: "event_type \<Rightarrow> int \<Rightarrow> int option \<Rightarrow> transition" where
  "sample_transition ty t recovered = \<lparr>tr_id = ''incident'', tr_type = ty, tr_actor = ''owner'', tr_detail = ''done'', tr_at = t, tr_recovered = recovered\<rparr>"

definition sample_history :: "incident_op list" where
  "sample_history = [Op_Record (sample_stamp 1) (sample_signal ''a'' 10), Op_Transition (sample_stamp 2) (sample_transition Acknowledged 20 None),
     Op_Severity (sample_stamp 3) (sample_signal ''a'' 30\<lparr>sg_severity := ''critical''\<rparr>),
     Op_Transition (sample_stamp 4) (sample_transition Resolved 40 (Some 40)), Op_Record (sample_stamp 5) (sample_signal ''a'' 50)]"


section \<open>Automatic recovery\<close>

definition recovered_by :: "string \<Rightarrow> int \<Rightarrow> irow \<Rightarrow> bool" where
  "recovered_by fam observed r \<longleftrightarrow>
     row_status r \<noteq> Is_Resolved \<and> in_family fam (inc_key (row_incident r)) \<and> last_seen_at r \<le> observed"

lemma close_fields [simp]:
  "tr_id (family_close i observed detail) = i" "tr_type (family_close i observed detail) = Resolved"
  "tr_recovered (family_close i observed detail) = Some observed" "tr_at (family_close i observed detail) = observed"
  by (simp_all add: family_close_def)

lemma seen_last:
  "e \<in> set (events_of (inc_id inc) L) \<Longrightarrow> ev_at e \<le> last_seen_at (shown_row b L inc)"
  by (cases "newest (after b) (events_of (inc_id inc) L)")
    (auto simp: shown_row_def row_of_def dest: last_seen_bounds)

lemma status_entered: "row_status (fst (enter e (r, since))) = (if ev_type e = Observed then row_status r else status_of (ev_type e))"
  by (simp add: enter_def)

lemma view_append:
  assumes "wf_ledger L" "inc \<in> set (incidents L)" "timely b e L"
  shows "shown_row b (append_event e L) inc =
    (if ev_incident e = inc_id inc then fst (enter e (shown_row b L inc, since_of b L inc)) else shown_row b L inc)"
  using arg_cong [OF episode_append [OF assms], of fst] by (auto simp: episode_def split: if_splits)

lemma close_one:
  assumes L: "sound L" and inc: "inc \<in> set (incidents L)"
    and created: "\<And>e. e \<in> set (events_of (inc_id inc) L) \<Longrightarrow> ev_created e \<le> st_created st"
    and open_: "row_status (shown_row Postgres L inc) \<noteq> Is_Resolved"
  shows "\<exists>L' r. transition_incident Postgres st (family_close (inc_id inc) observed detail) L = (L', Inr (Some r))
     \<and> sound L' \<and> incidents L' = incidents L
     \<and> (row_status r = Is_Resolved \<longleftrightarrow> last_seen_at (shown_row Postgres L inc) \<le> observed)
     \<and> (\<forall>x\<in>set (incidents L). row_status (shown_row Postgres L' x) =
          (if x = inc \<and> last_seen_at (shown_row Postgres L inc) \<le> observed then Is_Resolved else row_status (shown_row Postgres L x)))
     \<and> (\<forall>x\<in>set (incidents L). x \<noteq> inc \<longrightarrow> shown_row Postgres L' x = shown_row Postgres L x \<and> events_of (inc_id x) L' = events_of (inc_id x) L)"
proof -
  let ?t = "family_close (inc_id inc) observed detail" and ?v = "shown_row Postgres L"
  let ?L = "append_event (transition_event st ?t) L"
  have wf: "wf_ledger L" using L by (simp add: sound_def)
  note eq = transition_eq [OF L, of Postgres st ?t]
  show ?thesis
  proof (cases "last_seen_at (?v inc) \<le> observed")
    case True
    then have app: "transition_applies ?t (?v inc)" using open_ by (simp add: transition_applies_def)
    have t: "timely Postgres (transition_event st ?t) L"
      using seen_last [of _ inc L Postgres] True created by (fastforce simp: timely_def list_all_iff transition_event_def)
    have v: "shown_row Postgres ?L x = (if x = inc then fst (enter (transition_event st ?t) (?v inc, since_of Postgres L inc)) else ?v x)"
      if "x \<in> set (incidents L)" for x
      using view_append [OF wf that t] wf_inj(1) [OF wf inc that] by auto
    have "sound ?L" using append_step(1) [OF L inc t] by simp
    then show ?thesis
      using eq id_of_member [OF wf inc] app v inc True wf_inj(1) [OF wf]
      by (auto simp: status_entered)
  next
    case False
    then have "\<not> transition_applies ?t (?v inc)" by (simp add: transition_applies_def)
    then show ?thesis using eq id_of_member [OF wf inc] False L open_ by auto
  qed
qed

text \<open>The rows the loop still holds: of distinct incidents, as the ledger shows them now.\<close>

definition pending :: "incident_ledger \<Rightarrow> (irow \<times> stamp) list \<Rightarrow> bool" where
  "pending L xs \<longleftrightarrow> distinct (map (\<lambda>x. row_incident (fst x)) xs)
     \<and> (\<forall>(r, st)\<in>set xs. row_incident r \<in> set (incidents L) \<and> r = shown_row Postgres L (row_incident r)
          \<and> (\<forall>e\<in>set (events_of (inc_id (row_incident r)) L). ev_created e \<le> st_created st))"

lemma family_loop_closes:
  "sound L \<Longrightarrow> pending L xs \<Longrightarrow>
   \<exists>L'. family_loop Postgres fam observed detail xs L n =
        (L', Inr (n + int (length (filter (\<lambda>x. recovered_by fam observed (fst x)) xs))))
     \<and> incidents L' = incidents L
     \<and> (\<forall>inc\<in>set (incidents L). row_status (shown_row Postgres L' inc) =
          (if \<exists>x\<in>set xs. row_incident (fst x) = inc \<and> recovered_by fam observed (fst x) then Is_Resolved
           else row_status (shown_row Postgres L inc)))"
proof (induction xs arbitrary: L n)
  case (Cons x xs)
  obtain r st where x: "x = (r, st)" by (cases x)
  let ?inc = "row_incident r"
  have inc: "?inc \<in> set (incidents L)" and r: "r = shown_row Postgres L ?inc"
    and created: "\<And>e. e \<in> set (events_of (inc_id ?inc) L) \<Longrightarrow> ev_created e \<le> st_created st"
    and fresh: "?inc \<notin> (\<lambda>x. row_incident (fst x)) ` set xs"
    using Cons.prems(2) by (auto simp: pending_def x)
  have rest: "pending L xs" using Cons.prems(2) by (auto simp: pending_def)
  show ?case
  proof (cases "row_status r = Is_Resolved \<or> \<not> in_family fam (inc_key ?inc)")
    case True
    then have skip: "\<not> recovered_by fam observed r"
      and run: "family_loop Postgres fam observed detail (x # xs) L n = family_loop Postgres fam observed detail xs L n"
      by (auto simp: recovered_by_def x)
    show ?thesis using Cons.IH [OF Cons.prems(1) rest, of n] skip unfolding run by (simp add: x)
  next
    case False
    then have "row_status (shown_row Postgres L ?inc) \<noteq> Is_Resolved" using r by simp
    from close_one [where st = st and observed = observed and detail = detail, OF Cons.prems(1) inc created this]
    obtain L1 r1 where step: "transition_incident Postgres st (family_close (inc_id ?inc) observed detail) L = (L1, Inr (Some r1))"
      and L1: "sound L1" "incidents L1 = incidents L"
      and r1: "row_status r1 = Is_Resolved \<longleftrightarrow> last_seen_at r \<le> observed"
      and status: "\<forall>y\<in>set (incidents L). row_status (shown_row Postgres L1 y) =
          (if y = ?inc \<and> last_seen_at r \<le> observed then Is_Resolved else row_status (shown_row Postgres L y))"
      and other: "\<forall>y\<in>set (incidents L). y \<noteq> ?inc \<longrightarrow>
          shown_row Postgres L1 y = shown_row Postgres L y \<and> events_of (inc_id y) L1 = events_of (inc_id y) L"
      using r by auto
    have pend: "pending L1 xs" unfolding pending_def
    proof (intro conjI ballI)
      show "distinct (map (\<lambda>x. row_incident (fst x)) xs)" using rest by (simp add: pending_def)
    next
      fix y assume y: "y \<in> set xs"
      obtain a s where a: "y = (a, s)" by (cases y)
      let ?a = "row_incident a"
      have old: "?a \<in> set (incidents L)" "a = shown_row Postgres L ?a"
        "\<forall>e\<in>set (events_of (inc_id ?a) L). ev_created e \<le> st_created s"
        using rest y by (auto simp: pending_def a)
      have "?a \<noteq> ?inc" using fresh y by (force simp: a)
      then have "shown_row Postgres L1 ?a = a" "events_of (inc_id ?a) L1 = events_of (inc_id ?a) L"
        using other old(1) old(2) [symmetric] by auto
      then show "case y of (r, st) \<Rightarrow> row_incident r \<in> set (incidents L1) \<and> r = shown_row Postgres L1 (row_incident r)
          \<and> (\<forall>e\<in>set (events_of (inc_id (row_incident r)) L1). ev_created e \<le> st_created st)"
        using old(1,3) L1(2) unfolding a by auto
    qed
    have cov: "recovered_by fam observed r \<longleftrightarrow> last_seen_at r \<le> observed" using False by (simp add: recovered_by_def)
    have run: "family_loop Postgres fam observed detail (x # xs) L n =
        family_loop Postgres fam observed detail xs L1 (n + (if last_seen_at r \<le> observed then 1 else 0))"
      using False step r1 by (simp add: x)
    from Cons.IH [OF L1(1) pend, of "n + (if last_seen_at r \<le> observed then 1 else 0)"]
    obtain L' where loop: "family_loop Postgres fam observed detail xs L1 (n + (if last_seen_at r \<le> observed then 1 else 0)) =
        (L', Inr (n + (if last_seen_at r \<le> observed then 1 else 0) + int (length (filter (\<lambda>x. recovered_by fam observed (fst x)) xs))))"
      and inc': "incidents L' = incidents L"
      and status': "\<forall>y\<in>set (incidents L). row_status (shown_row Postgres L' y) =
          (if \<exists>x\<in>set xs. row_incident (fst x) = y \<and> recovered_by fam observed (fst x) then Is_Resolved
           else row_status (shown_row Postgres L1 y))"
      by (auto simp: L1(2))
    have "row_status (shown_row Postgres L' y) =
        (if \<exists>z\<in>set (x # xs). row_incident (fst z) = y \<and> recovered_by fam observed (fst z) then Is_Resolved
         else row_status (shown_row Postgres L y))" if "y \<in> set (incidents L)" for y
      using status' status cov that by (cases "y = ?inc") (auto simp: x)
    then show ?thesis using loop inc' cov unfolding run by (simp add: x)
  qed
qed simp

lemma length_filter_mset: "mset xs = mset ys \<Longrightarrow> length (filter P xs) = length (filter P ys)"
  by (metis mset_filter size_mset)

lemma filter_zip_fst: "length xs = length ys \<Longrightarrow> length (filter (\<lambda>x. P (fst x)) (zip xs ys)) = length (filter P xs)"
  by (induction xs ys rule: list_induct2) auto


definition sample_day :: "incident_op list" where
  "sample_day = [Op_Record (sample_stamp 1) (sample_signal ''a'' 10),
     Op_Record (sample_stamp 2\<lparr>st_incident := ''dated''\<rparr>) (sample_signal ''b'' 20\<lparr>sg_key := ''valuation:phase:chewie:2026-11-05''\<rparr>),
     Op_Record (sample_stamp 3\<lparr>st_incident := ''later''\<rparr>) (sample_signal ''c'' 50\<lparr>sg_key := ''valuation:phase:chewie:2026-11-06''\<rparr>),
     Op_Record (sample_stamp 4\<lparr>st_incident := ''other''\<rparr>) (sample_signal ''d'' 30\<lparr>sg_key := ''valuation:phase:chewie2''\<rparr>)]"


section \<open>Where the promises break\<close>

text \<open>
  The two stores disagree on a tie.  Recovery evidence of the instant an incident opened closes it on
  PostgreSQL, where the later row wins; in the in-memory twin \<open>max\<close> keeps the opening, the event is
  appended all the same and the incident stays open.
\<close>

theorem tied_recovery_differs:
  assumes "valid_severity (sg_severity s)" "st_created st \<le> st_created (sts 0)"
  shows "snd (resolve_recovered_family Postgres sts (sg_key s) (sg_at s) detail (exec_op Postgres (Op_Record st s) empty_ledger)) = Inr 1
     \<and> snd (resolve_recovered_family Memory sts (sg_key s) (sg_at s) detail (exec_op Memory (Op_Record st s) empty_ledger)) = Inr 0
     \<and> length (events (fst (resolve_recovered_family Memory sts (sg_key s) (sg_at s) detail (exec_op Memory (Op_Record st s) empty_ledger)))) = 2"
  using assms
  by (simp_all add: record_incident_def incident_of_key_def empty_ledger_def Let_def append_event_def open_incident_def
      resolve_recovered_family_def list_incidents_def events_of_def states_of_def signal_event_def row_of_def in_family_def
      transition_incident_def row_by_id_def transition_applies_def recovery_stands_def family_close_def transition_event_def newest_def)

theorem tied_recovery_differs_witness:
  "snd (resolve_recovered_family Postgres (\<lambda>_. sample_stamp 2) ''valuation:phase:chewie'' 10 ''ok''
       (exec_op Postgres (Op_Record (sample_stamp 1) (sample_signal ''a'' 10)) empty_ledger)) = Inr 1"
proof -
  have "valid_severity (sg_severity (sample_signal ''a'' 10))" by code_simp
  moreover have "st_created (sample_stamp 1) \<le> st_created ((\<lambda>_::nat. sample_stamp 2) 0)" by code_simp
  ultimately show ?thesis
    using tied_recovery_differs [of "sample_signal ''a'' 10" "sample_stamp 1" "\<lambda>_. sample_stamp 2" "''ok''"]
    by (simp add: sample_signal_def)
qed

text \<open>
  An acknowledgement makes the next identical signal count.  A second signal with the same evidence
  adds no event while the incident is open; after the owner acknowledged it (the acknowledgement's empty
  evidence is now the newest) the same signal adds one.
\<close>

theorem acknowledged_signal_counted_again:
  assumes "valid_severity (sg_severity s)" "sg_hash s \<noteq> empty_hash"
    and "ordered_run b [Op_Record st s, Op_Record st2 (s\<lparr>sg_at := later\<rparr>)] empty_ledger"
    and "tr_id ack = st_incident st" "tr_type ack = Acknowledged" "tr_recovered ack = None"
    and "ordered_run b [Op_Record st s, Op_Transition st1 ack, Op_Record st2 (s\<lparr>sg_at := later\<rparr>)] empty_ledger"
  shows "map_option (event_count \<circ> fst) (episodes b (run_ops (exec_op b) [Op_Record st s, Op_Record st2 (s\<lparr>sg_at := later\<rparr>)] empty_ledger) (sg_key s)) = Some 1
    \<and> map_option (event_count \<circ> fst) (episodes b (run_ops (exec_op b)
        [Op_Record st s, Op_Transition st1 ack, Op_Record st2 (s\<lparr>sg_at := later\<rparr>)] empty_ledger) (sg_key s)) = Some 3"
proof -
  have one: "map_option (event_count \<circ> fst) (run_ops step_spec [Op_Record st s, Op_Record st2 (s\<lparr>sg_at := later\<rparr>)] (\<lambda>_. None) (sg_key s)) = Some 1"
    using assms(1) by (simp add: spec_record_def row_of_def signal_event_def)
  have "map_option (event_count \<circ> fst) (run_ops step_spec
      [Op_Record st s, Op_Transition st1 ack, Op_Record st2 (s\<lparr>sg_at := later\<rparr>)] (\<lambda>_. None) (sg_key s)) = Some 3"
    using assms(1,2,4,5,6) by (simp add: spec_record_def spec_transition_def row_of_def signal_event_def transition_applies_def
        enter_def transition_event_def opens_def)
  then show ?thesis using one run_refines [OF sound_empty assms(3)] run_refines [OF sound_empty assms(7)] by simp
qed

theorem acknowledged_signal_counted_again_witness:
  "map_option (event_count \<circ> fst) (episodes Postgres (run_ops (exec_op Postgres) [Op_Record (sample_stamp 1) (sample_signal ''a'' 10),
     Op_Transition (sample_stamp 2) (sample_transition Acknowledged 20 None), Op_Record (sample_stamp 3) (sample_signal ''a'' 30)] empty_ledger)
     ''valuation:phase:chewie'') = Some 3"
proof -
  have s: "sample_signal ''a'' 30 = sample_signal ''a'' 10\<lparr>sg_at := 30\<rparr>" "sg_key (sample_signal ''a'' 10) = ''valuation:phase:chewie''"
    by (simp_all add: sample_signal_def)
  have "valid_severity (sg_severity (sample_signal ''a'' 10))" "sg_hash (sample_signal ''a'' 10) \<noteq> empty_hash"
    "ordered_run Postgres [Op_Record (sample_stamp 1) (sample_signal ''a'' 10), Op_Record (sample_stamp 3) (sample_signal ''a'' 10\<lparr>sg_at := 30\<rparr>)] empty_ledger"
    "tr_id (sample_transition Acknowledged 20 None) = st_incident (sample_stamp 1)"
    "tr_type (sample_transition Acknowledged 20 None) = Acknowledged" "tr_recovered (sample_transition Acknowledged 20 None) = None"
    "ordered_run Postgres [Op_Record (sample_stamp 1) (sample_signal ''a'' 10),
       Op_Transition (sample_stamp 2) (sample_transition Acknowledged 20 None), Op_Record (sample_stamp 3) (sample_signal ''a'' 10\<lparr>sg_at := 30\<rparr>)] empty_ledger"
    by code_simp+
  from acknowledged_signal_counted_again [OF this] show ?thesis by (simp add: s)
qed

lemma sorted_front:
  assumes "x \<in> set (take n (sort_key f xs))"
  shows "length (filter (\<lambda>y. f y < f x) xs) < n"
proof -
  let ?ys = "sort_key f xs"
  obtain i where i: "i < n" "i < length ?ys" "?ys ! i = x" using assms by (auto simp: in_set_conv_nth)
  have "\<not> f y < f x" if y: "y \<in> set (drop i ?ys)" for y
  proof -
    obtain j where "j < length (drop i ?ys)" "y = drop i ?ys ! j" using y by (auto simp: in_set_conv_nth)
    then have "i + j < length ?ys" "y = ?ys ! (i + j)" by auto
    then show ?thesis
      using sorted_nth_mono [OF sorted_sort_key [of f xs], of i "i + j"] i by simp
  qed
  then have "filter (\<lambda>y. f y < f x) (drop i ?ys) = []" by (auto simp: filter_empty_conv)
  then have "length (filter (\<lambda>y. f y < f x) ?ys) = length (filter (\<lambda>y. f y < f x) (take i ?ys))"
    by (metis append.right_neutral append_take_drop_id filter_append)
  also have "\<dots> \<le> i" by (metis length_filter_le le_trans length_take min.cobounded2)
  finally show ?thesis using i(1) length_filter_mset [of ?ys xs "\<lambda>y. f y < f x"] by simp
qed

text \<open>
  C37: A listing of 1000 is all the calls can see.  An incident that at least a thousand others were seen
  after is found neither by its key nor by its identifier, on either store: its episode has no start, and
  neither the owner nor recovery can resolve or acknowledge it.
\<close>

theorem full_listing_hides_incident:
  assumes "wf_ledger L" "inc \<in> set (incidents L)"
    and "1000 \<le> length (filter (\<lambda>i. last_seen_at (shown_row b L inc) < last_seen_at (shown_row b L i)) (incidents L))"
  shows "by_key b (inc_key inc) L = Inr None \<and> open_since b (inc_key inc) L = Inr None
    \<and> resolve_key b st (inc_key inc) detail now L = (L, Inr None)
    \<and> resolve b st (inc_id inc) actor resolution now L = (L, Inr None)
    \<and> acknowledge b st (inc_id inc) actor now L = (L, Inr None)"
proof -
  define rs where "rs = take 1000 (sort_key (\<lambda>r. - last_seen_at r) (map (shown_row b L) (incidents L)))"
  have l: "list_incidents b 1000 L = Inr rs" using assms(1) by (simp add: list_incidents_def rows_wf rs_def)
  have "shown_row b L inc \<notin> set rs"
  proof
    assume "shown_row b L inc \<in> set rs"
    from sorted_front [OF this [unfolded rs_def]] assms(3) show False by (simp add: filter_map comp_def)
  qed
  moreover have "\<exists>i\<in>set (incidents L). r = shown_row b L i" if "r \<in> set rs" for r
    using that set_take_subset [of 1000] by (fastforce simp: rs_def)
  ultimately have no: "row_incident r \<noteq> inc \<and> row_incident r \<in> set (incidents L)" if "r \<in> set rs" for r
    using that by fastforce
  then have "row_by_key (inc_key inc) rs = None" "row_by_id (inc_id inc) rs = None"
    using wf_inj [OF assms(1) _ assms(2)] by (auto simp: row_by_key_def row_by_id_def find_None_iff)
  then show ?thesis
    by (simp add: by_key_def l open_since_def resolve_key_def resolve_def acknowledge_def transition_incident_def)
qed

definition crowd_incident :: "nat \<Rightarrow> incident" where
  "crowd_incident n = \<lparr>inc_id = replicate n CHR ''x'', inc_key = replicate n CHR ''k'', inc_source = ''worker'',
     inc_severity = ''critical'', inc_title = [], inc_link = [], inc_opened_at = int n\<rparr>"

definition crowd_event :: "nat \<Rightarrow> incident_event" where
  "crowd_event n = \<lparr>ev_id = [], ev_incident = replicate n CHR ''x'', ev_type = Opened, ev_actor = ''system'', ev_detail = [],
     ev_evidence = VDict [], ev_hash = [], ev_at = int n, ev_created = int n\<rparr>"

definition crowd :: "nat \<Rightarrow> incident_ledger" where
  "crowd m = \<lparr>incidents = map crowd_incident [0..<m], events = map crowd_event [0..<m]\<rparr>"

lemma crowd_events: "n < m \<Longrightarrow> events_of (replicate n CHR ''x'') (crowd m) = [crowd_event n]"
proof -
  assume n: "n < m"
  have "events_of (replicate n CHR ''x'') (crowd m) = map crowd_event (filter (\<lambda>k. k = n) [0..<m])"
    by (simp add: events_of_def crowd_def crowd_event_def filter_map comp_def)
  moreover have "filter (\<lambda>k. k = n) [0..<m] = [n]"
    using filter_unique [of "\<lambda>k. k" "[0..<m]" n] n by simp
  ultimately show ?thesis by simp
qed

lemma crowd_wf: "wf_ledger (crowd m)"
proof -
  have "list_all (\<lambda>i. list_ex opens (events_of (inc_id i) (crowd m))) (incidents (crowd m))"
    unfolding list_all_iff using crowd_events by (auto simp: crowd_def crowd_incident_def crowd_event_def opens_def list_ex_iff)
  then show ?thesis
    by (auto simp: wf_ledger_def crowd_def crowd_incident_def crowd_event_def comp_def distinct_map inj_on_def list_all_iff)
qed

lemma crowd_seen: "n < m \<Longrightarrow> last_seen_at (shown_row b (crowd m) (crowd_incident n)) = int n"
  by (simp add: shown_row_def row_of_def crowd_incident_def crowd_events) (simp add: crowd_event_def)

lemma crowd_later:
  "length (filter (\<lambda>i. last_seen_at (shown_row b (crowd (Suc m)) (crowd_incident 0))
      < last_seen_at (shown_row b (crowd (Suc m)) i)) (incidents (crowd (Suc m)))) = m"
proof -
  let ?v = "\<lambda>n. last_seen_at (shown_row b (crowd (Suc m)) (crowd_incident n))"
  have "length (filter (\<lambda>i. ?v 0 < last_seen_at (shown_row b (crowd (Suc m)) i)) (incidents (crowd (Suc m))))
      = length (filter (\<lambda>n. ?v 0 < ?v n) [0..<Suc m])"
    unfolding crowd_def [of "Suc m", THEN arg_cong [where f = incidents], simplified] by (simp add: filter_map comp_def)
  also have "filter (\<lambda>n. ?v 0 < ?v n) [0..<Suc m] = filter (\<lambda>n. 0 < n) [0..<Suc m]"
    by (rule filter_cong) (auto simp: crowd_seen)
  also have "\<dots> = filter (\<lambda>n. 0 < n) [Suc 0..<Suc m]" by (simp add: upt_conv_Cons del: upt_Suc)
  also have "\<dots> = [Suc 0..<Suc m]" by (rule filter_True) auto
  finally show ?thesis by simp
qed

theorem full_listing_hides_incident_witness:
  "resolve_key Postgres (sample_stamp 1) [] ''ok'' 5000 (crowd 1001) = (crowd 1001, Inr None)
     \<and> row_status (shown_row Postgres (crowd 1001) (crowd_incident 0)) = Is_Open"
proof -
  have "crowd_incident 0 \<in> set (incidents (crowd 1001))" by (simp add: crowd_def)
  moreover have "1000 \<le> length (filter (\<lambda>i. last_seen_at (shown_row Postgres (crowd 1001) (crowd_incident 0))
      < last_seen_at (shown_row Postgres (crowd 1001) i)) (incidents (crowd 1001)))"
    using crowd_later [of Postgres 1000] by simp
  moreover have "row_status (shown_row Postgres (crowd 1001) (crowd_incident 0)) = Is_Open"
    using crowd_events [of 0 1001] by (simp add: view_status crowd_incident_def states_of_def crowd_event_def)
  ultimately show ?thesis
    using full_listing_hides_incident [OF crowd_wf, of "crowd_incident 0" 1001 Postgres "sample_stamp 1" "''ok''" 5000]
    by (simp add: crowd_incident_def)
qed

end
