(* ===== verification/IncidentRaces.thy ===== *)
theory IncidentRaces
  imports IncidentSafety
begin

text \<open>
  The PostgreSQL side of the incident ledger as its transactions interleave
  (\<open>record_operational_incident\<close>, \<open>transition_operational_incident\<close>,
  \<open>set_operational_incident_severity\<close> of \<open>backend/app/database.py\<close>).  A call is a program counter; a
  step is one statement the others can observe: taking the key's advisory lock, one query (each sees what
  is committed by then), or the writes with their commit, which also drops the lock.  Two keys whose
  hashes collide share a lock in the database; the model lets them run freely.
\<close>

section \<open>Calls as program counters\<close>

datatype icall =
    Rec_Start stamp signal
  | Rec_Row stamp signal
  | Rec_State stamp signal string
  | Rec_Latest stamp signal string "event_type option"
  | Rec_Open stamp signal
  | Rec_Write stamp signal string event_type
  | Sev_Start stamp signal
  | Sev_Row stamp signal
  | Sev_State stamp signal incident
  | Sev_Write stamp signal incident
  | Tr_Start stamp transition
  | Tr_Lock stamp transition string int
  | Tr_Check stamp transition string int
  | Tr_Write stamp transition "string option"
  | Call_Done

record world =
  w_ledger :: incident_ledger
  w_lock :: "string \<Rightarrow> nat option"
  w_calls :: "icall list"

definition goto :: "nat \<Rightarrow> icall \<Rightarrow> world \<Rightarrow> world" where
  "goto p pc W = W\<lparr>w_calls := (w_calls W)[p := pc]\<rparr>"

text \<open>\<open>SELECT pg_advisory_xact_lock(...)\<close>: waits while another transaction holds it.\<close>

definition await_lock :: "nat \<Rightarrow> string \<Rightarrow> icall \<Rightarrow> world \<Rightarrow> world" where
  "await_lock p k pc W = (case w_lock W k of
     None \<Rightarrow> goto p pc (W\<lparr>w_lock := (w_lock W)(k := Some p)\<rparr>)
   | Some _ \<Rightarrow> W)"

text \<open>The end of a transaction that holds a lock: its writes appear and the lock is free.\<close>

definition commit :: "nat \<Rightarrow> string \<Rightarrow> incident_ledger \<Rightarrow> world \<Rightarrow> world" where
  "commit p k L W = goto p Call_Done (W\<lparr>w_ledger := L, w_lock := (w_lock W)(k := None)\<rparr>)"

text \<open>The insert of a new incident, under the table's \<open>PRIMARY KEY\<close> and \<open>UNIQUE\<close> constraints.\<close>

definition insert_incident :: "stamp \<Rightarrow> signal \<Rightarrow> incident_ledger \<Rightarrow> incident_ledger" where
  "insert_incident st s L =
     (if list_ex (\<lambda>i. inc_id i = st_incident st \<or> inc_key i = sg_key s) (incidents L) then L
      else append_event (signal_event st (st_incident st) Opened s) (open_incident st s L))"

fun tick_call :: "nat \<Rightarrow> icall \<Rightarrow> world \<Rightarrow> world" where
  "tick_call p (Rec_Start st s) W =
     (if valid_severity (sg_severity s) then await_lock p (sg_key s) (Rec_Row st s) W else goto p Call_Done W)"
| "tick_call p (Rec_Row st s) W =
     (case incident_of_key (sg_key s) (w_ledger W) of
        None \<Rightarrow> goto p (Rec_Open st s) W
      | Some inc \<Rightarrow> goto p (Rec_State st s (inc_id inc)) W)"
| "tick_call p (Rec_State st s i) W =
     goto p (Rec_Latest st s i (map_option ev_type (newest (after Postgres) (states_of i (w_ledger W))))) W"
| "tick_call p (Rec_Latest st s i state) W =
     (if state = Some Resolved then goto p (Rec_Write st s i Reopened) W
      else if map_option ev_hash (newest (after Postgres) (events_of i (w_ledger W))) = Some (sg_hash s)
      then commit p (sg_key s) (w_ledger W) W
      else goto p (Rec_Write st s i Observed) W)"
| "tick_call p (Rec_Open st s) W = commit p (sg_key s) (insert_incident st s (w_ledger W)) W"
| "tick_call p (Rec_Write st s i t) W = commit p (sg_key s) (append_event (signal_event st i t s) (w_ledger W)) W"
| "tick_call p (Sev_Start st s) W =
     (if valid_severity (sg_severity s) then await_lock p (sg_key s) (Sev_Row st s) W else goto p Call_Done W)"
| "tick_call p (Sev_Row st s) W =
     (case incident_of_key (sg_key s) (w_ledger W) of
        None \<Rightarrow> commit p (sg_key s) (w_ledger W) W
      | Some inc \<Rightarrow> goto p (Sev_State st s inc) W)"
| "tick_call p (Sev_State st s inc) W =
     (case newest (after Postgres) (states_of (inc_id inc) (w_ledger W)) of
        None \<Rightarrow> commit p (sg_key s) (w_ledger W) W
      | Some state \<Rightarrow>
          if inc_severity inc \<noteq> sg_severity s \<and> ev_type state \<noteq> Resolved then goto p (Sev_Write st s inc) W
          else commit p (sg_key s) (w_ledger W) W)"
| "tick_call p (Sev_Write st s inc) W =
     commit p (sg_key s)
       (append_event (signal_event st (inc_id inc) Observed s) (set_inc_severity (inc_id inc) (sg_severity s) (w_ledger W))) W"
| "tick_call p (Tr_Start st t) W =
     (if tr_type t \<noteq> Acknowledged \<and> tr_type t \<noteq> Resolved then goto p Call_Done W
      else
        case list_incidents Postgres 1000 (w_ledger W) of
          Inl err \<Rightarrow> goto p Call_Done W
        | Inr rs \<Rightarrow>
            (case row_by_id (tr_id t) rs of
               None \<Rightarrow> goto p Call_Done W
             | Some r \<Rightarrow>
                 if \<not> transition_applies t r then goto p Call_Done W
                 else
                   (case tr_recovered t of
                      None \<Rightarrow> goto p (Tr_Write st t None) W
                    | Some d \<Rightarrow> goto p (Tr_Lock st t (inc_key (row_incident r)) d) W)))"
| "tick_call p (Tr_Lock st t k d) W = await_lock p k (Tr_Check st t k d) W"
| "tick_call p (Tr_Check st t k d) W =
     (if recovery_stands d (newest (after Postgres) (events_of (tr_id t) (w_ledger W))) then goto p (Tr_Write st t (Some k)) W
      else commit p k (w_ledger W) W)"
| "tick_call p (Tr_Write st t key) W =
     (let L = w_ledger W;
          L' = (if list_ex (\<lambda>i. inc_id i = tr_id t) (incidents L) then append_event (transition_event st t) L else L) in
      case key of
        None \<Rightarrow> goto p Call_Done (W\<lparr>w_ledger := L'\<rparr>)
      | Some k \<Rightarrow> commit p k L' W)"
| "tick_call p Call_Done W = W"

datatype race_event =
    Begin_Record stamp signal
  | Begin_Severity stamp signal
  | Begin_Transition stamp transition
  | Tick nat

fun race :: "race_event \<Rightarrow> world \<Rightarrow> world" where
  "race (Begin_Record st s) W = W\<lparr>w_calls := w_calls W @ [Rec_Start st s]\<rparr>"
| "race (Begin_Severity st s) W = W\<lparr>w_calls := w_calls W @ [Sev_Start st s]\<rparr>"
| "race (Begin_Transition st t) W = W\<lparr>w_calls := w_calls W @ [Tr_Start st t]\<rparr>"
| "race (Tick p) W = (if p < length (w_calls W) then tick_call p (w_calls W ! p) W else W)"

definition quiet :: "incident_ledger \<Rightarrow> world" where
  "quiet L = \<lparr>w_ledger = L, w_lock = (\<lambda>_. None), w_calls = []\<rparr>"

section \<open>The locks and what a call knows under them\<close>

fun holds :: "icall \<Rightarrow> string option" where
  "holds (Rec_Row st s) = Some (sg_key s)"
| "holds (Rec_State st s i) = Some (sg_key s)"
| "holds (Rec_Latest st s i state) = Some (sg_key s)"
| "holds (Rec_Open st s) = Some (sg_key s)"
| "holds (Rec_Write st s i t) = Some (sg_key s)"
| "holds (Sev_Row st s) = Some (sg_key s)"
| "holds (Sev_State st s inc) = Some (sg_key s)"
| "holds (Sev_Write st s inc) = Some (sg_key s)"
| "holds (Tr_Check st t k d) = Some k"
| "holds (Tr_Write st t key) = key"
| "holds _ = None"

definition names :: "incident_ledger \<Rightarrow> (string \<times> string) list" where
  "names L = map (\<lambda>inc. (inc_id inc, inc_key inc)) (incidents L)"

definition sighting :: "incident_event \<Rightarrow> bool" where
  "sighting e \<longleftrightarrow> ev_type e \<in> {Opened, Observed, Reopened}"

text \<open>No signal newer than the recovery evidence.\<close>

definition unseen_since :: "int \<Rightarrow> string \<Rightarrow> incident_ledger \<Rightarrow> bool" where
  "unseen_since d i L = list_all (\<lambda>e. sighting e \<longrightarrow> ev_at e \<le> d) (events_of i L)"

fun knows :: "incident_ledger \<Rightarrow> icall \<Rightarrow> bool" where
  "knows L (Rec_State st s i) = ((i, sg_key s) \<in> set (names L))"
| "knows L (Rec_Latest st s i state) = ((i, sg_key s) \<in> set (names L))"
| "knows L (Rec_Write st s i t) = ((i, sg_key s) \<in> set (names L) \<and> (t = Observed \<or> t = Reopened))"
| "knows L (Sev_State st s inc) = ((inc_id inc, sg_key s) \<in> set (names L))"
| "knows L (Sev_Write st s inc) = ((inc_id inc, sg_key s) \<in> set (names L))"
| "knows L (Tr_Start st t) = True"
| "knows L (Tr_Lock st t k d) = ((tr_id t, k) \<in> set (names L) \<and> tr_recovered t = Some d \<and> \<not> sighting (transition_event st t))"
| "knows L (Tr_Check st t k d) = ((tr_id t, k) \<in> set (names L) \<and> tr_recovered t = Some d \<and> \<not> sighting (transition_event st t))"
| "knows L (Tr_Write st t key) = (\<not> sighting (transition_event st t) \<and>
     (case key of None \<Rightarrow> tr_recovered t = None
      | Some k \<Rightarrow> (tr_id t, k) \<in> set (names L)
          \<and> (case tr_recovered t of None \<Rightarrow> False | Some d \<Rightarrow> unseen_since d (tr_id t) L)))"
| "knows L _ = True"

definition race_inv :: "world \<Rightarrow> bool" where
  "race_inv W \<longleftrightarrow> distinct (map fst (names (w_ledger W)))
     \<and> (\<forall>e\<in>set (events (w_ledger W)). ev_incident e \<in> fst ` set (names (w_ledger W)))
     \<and> (\<forall>p<length (w_calls W). knows (w_ledger W) (w_calls W ! p)
          \<and> (\<forall>k. holds (w_calls W ! p) = Some k \<longrightarrow> w_lock W k = Some p))"

lemma race_invD:
  assumes "race_inv W" "p < length (w_calls W)"
  shows "knows (w_ledger W) (w_calls W ! p)" "holds (w_calls W ! p) = Some k \<Longrightarrow> w_lock W k = Some p"
  using assms by (auto simp: race_inv_def)

lemma inv_goto:
  assumes "race_inv W" "p < length (w_calls W)" "holds pc = holds (w_calls W ! p)" "knows (w_ledger W) pc"
  shows "race_inv (goto p pc W)"
  using assms by (auto simp: race_inv_def goto_def nth_list_update)

lemma inv_await_lock:
  assumes "race_inv W" "p < length (w_calls W)" "holds (w_calls W ! p) = None" "holds pc = Some k" "knows (w_ledger W) pc"
  shows "race_inv (await_lock p k pc W)"
  using assms by (fastforce simp: race_inv_def await_lock_def goto_def nth_list_update split: option.split)

text \<open>A ledger that keeps the names and the other calls' knowledge.\<close>

definition keeps_knowledge :: "nat \<Rightarrow> world \<Rightarrow> incident_ledger \<Rightarrow> bool" where
  "keeps_knowledge p W L \<longleftrightarrow> distinct (map fst (names L))
     \<and> (\<forall>e\<in>set (events L). ev_incident e \<in> fst ` set (names L))
     \<and> (\<forall>q<length (w_calls W). q \<noteq> p \<longrightarrow> knows L (w_calls W ! q))"

lemma inv_commit:
  assumes "race_inv W" "p < length (w_calls W)" "holds (w_calls W ! p) = Some k" "keeps_knowledge p W L"
  shows "race_inv (commit p k L W)"
proof -
  have "w_lock W k = Some p" using assms(1,2,3) by (auto simp: race_inv_def)
  then have "w_lock W k' = Some q \<Longrightarrow> q \<noteq> p \<Longrightarrow> k' \<noteq> k" for q k' by auto
  then have "knows (w_ledger (commit p k L W)) (w_calls (commit p k L W) ! q)
      \<and> (\<forall>k'. holds (w_calls (commit p k L W) ! q) = Some k' \<longrightarrow> w_lock (commit p k L W) k' = Some q)"
    if "q < length (w_calls W)" for q
    using assms that by (cases "q = p") (fastforce simp: race_inv_def keeps_knowledge_def commit_def goto_def)+
  then show ?thesis using assms(4) by (auto simp: race_inv_def keeps_knowledge_def commit_def goto_def)
qed

lemma keeps_same: "race_inv W \<Longrightarrow> keeps_knowledge p W (w_ledger W)"
  by (simp add: race_inv_def keeps_knowledge_def)

lemma knows_append:
  assumes "knows L pc" "set (names L) \<subseteq> set (names L')" "\<And>st t k. pc = Tr_Write st t (Some k) \<Longrightarrow> events_of (tr_id t) L' = events_of (tr_id t) L
      \<or> (\<exists>e. events_of (tr_id t) L' = events_of (tr_id t) L @ [e] \<and> \<not> sighting e)"
  shows "knows L' pc"
proof (cases pc)
  case (Tr_Write st t key)
  then show ?thesis
  proof (cases key)
    case (Some k)
    then show ?thesis
      using assms(1,2) assms(3) [of st t k] Tr_Write by (auto simp: unseen_since_def split: option.splits)
  qed (use assms(1) Tr_Write in simp)
qed (use assms(1,2) in auto)

lemma names_simps [simp]:
  "names (append_event e L) = names L" "names (set_inc_severity i sev L) = names L"
  "names (open_incident st s L) = names L @ [(st_incident st, sg_key s)]"
  by (auto simp: names_def)

text \<open>A signal committed under the lock of its key: no recovery of that incident stands checked.\<close>

lemma keeps_signal:
  assumes W: "race_inv W" and p: "p < length (w_calls W)" "holds (w_calls W ! p) = Some k"
    and L: "names L = names (w_ledger W)" "events L = events (w_ledger W)" and e: "(ev_incident e, k) \<in> set (names L)"
  shows "keeps_knowledge p W (append_event e L)"
  unfolding keeps_knowledge_def
proof (intro conjI allI impI)
  show "distinct (map fst (names (append_event e L)))" using W L by (simp add: race_inv_def)
  show "\<forall>x\<in>set (events (append_event e L)). ev_incident x \<in> fst ` set (names (append_event e L))"
    using W L e by (force simp: race_inv_def)
next
  fix q assume q: "q < length (w_calls W)" "q \<noteq> p"
  have same: "events_of i L = events_of i (w_ledger W)" for i using L by (simp add: events_of_def)
  show "knows (append_event e L) (w_calls W ! q)"
  proof (rule knows_append [OF race_invD(1) [OF W q(1)]])
    fix st t k' assume pc: "w_calls W ! q = Tr_Write st t (Some k')"
    then have lock: "w_lock W k' = Some q" and k': "(tr_id t, k') \<in> set (names L)"
      using race_invD [OF W q(1)] L by auto
    have "tr_id t \<noteq> ev_incident e"
    proof
      assume "tr_id t = ev_incident e"
      moreover have "distinct (map fst (names L))" using W L by (simp add: race_inv_def)
      ultimately have "k' = k" using k' e by (metis eq_key_imp_eq_value)
      then show False using lock race_invD(2) [OF W p(1) p(2)] q(2) by simp
    qed
    then show "events_of (tr_id t) (append_event e L) = events_of (tr_id t) (w_ledger W)
        \<or> (\<exists>x. events_of (tr_id t) (append_event e L) = events_of (tr_id t) (w_ledger W) @ [x] \<and> \<not> sighting x)"
      by (simp add: same)
  qed (use L in simp)
qed

lemma keeps_transition:
  assumes W: "race_inv W" and e: "\<not> sighting e" "ev_incident e \<in> fst ` set (names (w_ledger W))"
  shows "keeps_knowledge p W (append_event e (w_ledger W))"
  unfolding keeps_knowledge_def
proof (intro conjI allI impI)
  fix q assume q: "q < length (w_calls W)" "q \<noteq> p"
  show "knows (append_event e (w_ledger W)) (w_calls W ! q)"
    by (rule knows_append [OF race_invD(1) [OF W q(1)]]) (use e in auto)
qed (use W e in \<open>auto simp: race_inv_def\<close>)

lemma keeps_insert:
  assumes W: "race_inv W"
  shows "keeps_knowledge p W (insert_incident st s (w_ledger W))"
proof (cases "list_ex (\<lambda>i. inc_id i = st_incident st \<or> inc_key i = sg_key s) (incidents (w_ledger W))")
  case False
  let ?L = "append_event (signal_event st (st_incident st) Opened s) (open_incident st s (w_ledger W))"
  have fresh: "st_incident st \<notin> fst ` set (names (w_ledger W))" using False by (auto simp: names_def list_ex_iff)
  have "keeps_knowledge p W ?L"
    unfolding keeps_knowledge_def
  proof (intro conjI allI impI)
    fix q assume q: "q < length (w_calls W)" "q \<noteq> p"
    show "knows ?L (w_calls W ! q)"
    proof (rule knows_append [OF race_invD(1) [OF W q(1)]])
      fix st' t k assume "w_calls W ! q = Tr_Write st' t (Some k)"
      then have "tr_id t \<in> fst ` set (names (w_ledger W))" using race_invD(1) [OF W q(1)] by force
      then show "events_of (tr_id t) ?L = events_of (tr_id t) (w_ledger W)
          \<or> (\<exists>x. events_of (tr_id t) ?L = events_of (tr_id t) (w_ledger W) @ [x] \<and> \<not> sighting x)"
        using fresh by (cases "st_incident st = tr_id t") auto
    qed auto
  qed (use W fresh in \<open>auto simp: race_inv_def\<close>)
  then show ?thesis using False by (simp add: insert_incident_def)
qed (simp add: insert_incident_def keeps_same [OF W])

lemma rows_incident: "rows b L is = Inr rs \<Longrightarrow> r \<in> set rs \<Longrightarrow> row_incident r \<in> set is"
proof (induction "is" arbitrary: rs)
  case (Cons inc incs)
  show ?case
  proof (cases "rows b L incs")
    case (Inr rs')
    then show ?thesis
      using Cons by (cases b) (auto simp: row_of_def split: option.splits)
  qed (use Cons in \<open>auto split: option.splits store.splits\<close>)
qed simp

lemma listed_name:
  assumes "list_incidents b n L = Inr rs" "row_by_id i rs = Some r"
  shows "(i, inc_key (row_incident r)) \<in> set (names L)"
proof -
  obtain rs' where rs': "rows b L (incidents L) = Inr rs'" "rs = take n (sort_key (\<lambda>r. - last_seen_at r) rs')"
    using assms(1) by (cases "rows b L (incidents L)") (auto simp: list_incidents_def)
  have "r \<in> set rs" "inc_id (row_incident r) = i" using assms(2) find_in by (force simp: row_by_id_def)+
  moreover have "set rs \<subseteq> set rs'" using rs'(2) set_take_subset by fastforce
  ultimately show ?thesis using rows_incident [OF rs'(1)] by (force simp: names_def)
qed

lemma key_name: "incident_of_key k L = Some inc \<Longrightarrow> (inc_id inc, k) \<in> set (names L)"
  using key_Some by (force simp: names_def)

lemma stands_unseen: "recovery_stands d (newest (after Postgres) (events_of i L)) \<Longrightarrow> unseen_since d i L"
  by (fastforce simp: recovery_stands_def unseen_since_def list_all_iff dest: pg.newest_max split: option.splits)

lemma inv_open_call: "race_inv W \<Longrightarrow> holds pc = None \<Longrightarrow> knows (w_ledger W) pc \<Longrightarrow> race_inv (W\<lparr>w_calls := w_calls W @ [pc]\<rparr>)"
  by (auto simp: race_inv_def nth_append less_Suc_eq)

lemma inv_tick:
  assumes W: "race_inv W" and p: "p < length (w_calls W)"
  shows "race_inv (tick_call p (w_calls W ! p) W)"
proof -
  note k = race_invD(1) [OF W p] and go = inv_goto [OF W p] and lock = inv_await_lock [OF W p]
    and fin = inv_commit [OF W p _ keeps_same [OF W]]
  show ?thesis
  proof (cases "w_calls W ! p")
    case (Tr_Start st t)
    then show ?thesis
      using go listed_name [of Postgres 1000 "w_ledger W" _ "tr_id t"]
      by (auto simp: sighting_def split: sum.split option.split)
  next
    case (Tr_Write st t key)
    then have t: "\<not> sighting (transition_event st t)" using k by simp
    define L where "L = (if list_ex (\<lambda>i. inc_id i = tr_id t) (incidents (w_ledger W))
      then append_event (transition_event st t) (w_ledger W) else w_ledger W)"
    have keep: "keeps_knowledge p W L"
    proof (cases "list_ex (\<lambda>i. inc_id i = tr_id t) (incidents (w_ledger W))")
      case True
      then have "ev_incident (transition_event st t) \<in> fst ` set (names (w_ledger W))"
        by (force simp: names_def list_ex_iff image_image)
      then show ?thesis using keeps_transition [OF W t] True by (simp add: L_def)
    qed (simp add: L_def keeps_same [OF W])
    show ?thesis
    proof (cases key)
      case None
      have "race_inv (goto p Call_Done (W\<lparr>w_ledger := L\<rparr>))"
        using keep W p by (auto simp: race_inv_def keeps_knowledge_def goto_def nth_list_update)
      then show ?thesis using Tr_Write None by (simp add: L_def Let_def)
    next
      case (Some k')
      then show ?thesis using Tr_Write inv_commit [OF W p _ keep] by (simp add: L_def Let_def)
    qed
  next
    case (Tr_Check st t k' d)
    then show ?thesis using go fin k stands_unseen by simp
  next
    case (Rec_Write st s i ty)
    then show ?thesis
      using inv_commit [OF W p _ keeps_signal [OF W p, of "sg_key s" "w_ledger W"]] k by simp
  next
    case (Sev_Write st s inc)
    then show ?thesis
      using inv_commit [OF W p _ keeps_signal [OF W p, of "sg_key s" "set_inc_severity (inc_id inc) (sg_severity s) (w_ledger W)"]] k
      by simp
  next
    case (Rec_Open st s)
    then show ?thesis using inv_commit [OF W p _ keeps_insert [OF W]] by simp
  qed (use go lock fin k key_name W in \<open>auto split: option.split\<close>)
qed

lemma inv_race: "race_inv W \<Longrightarrow> race_inv (race e W)"
  by (cases e) (auto intro: inv_open_call inv_tick)

lemma race_inv_run: "race_inv (run_ops race es (quiet empty_ledger))"
  by (rule run_ops_invariant [where I = race_inv, OF inv_race]) (simp_all add: race_inv_def quiet_def empty_ledger_def names_def)

section \<open>Recovery and signals\<close>

text \<open>
  C11: Automatic recovery never closes over a newer failure.  In every interleaving of signals, severity
  changes, transitions and recoveries, at the step in which a recovery writes its resolution no signal of
  that incident committed so far is newer than the evidence of the recovery; the step does append the
  resolution.
\<close>

theorem recovery_never_hides_signal:
  assumes "W = run_ops race es (quiet empty_ledger)" "p < length (w_calls W)"
    and "w_calls W ! p = Tr_Write st t key" "tr_recovered t = Some d"
  shows "list_all (\<lambda>e. ev_incident e \<noteq> tr_id t \<or> ev_type e = Acknowledged \<or> ev_type e = Resolved \<or> ev_at e \<le> d) (events (w_ledger W))
    \<and> events (w_ledger (race (Tick p) W)) = events (w_ledger W) @ [transition_event st t]"
proof -
  have "race_inv W" using assms(1) race_inv_run by simp
  from race_invD(1) [OF this assms(2)] assms(3,4)
  obtain k where k: "key = Some k" "(tr_id t, k) \<in> set (names (w_ledger W))" "unseen_since d (tr_id t) (w_ledger W)"
    by (auto split: option.splits)
  have "list_all (\<lambda>e. ev_incident e \<noteq> tr_id t \<or> ev_type e = Acknowledged \<or> ev_type e = Resolved \<or> ev_at e \<le> d) (events (w_ledger W))"
    using k(3) by (auto simp: unseen_since_def events_of_def list_all_iff sighting_def) (metis event_type.exhaust)
  moreover have "list_ex (\<lambda>i. inc_id i = tr_id t) (incidents (w_ledger W))" using k(2) by (auto simp: names_def list_ex_iff)
  ultimately show ?thesis using assms(2,3) k(1) by (simp add: commit_def goto_def Let_def)
qed

definition sample_race :: "race_event list" where
  "sample_race = [Begin_Record (sample_stamp 1) (sample_signal ''a'' 10), Tick 0, Tick 0, Tick 0,
     Begin_Transition (sample_stamp 2) (sample_transition Resolved 20 (Some 20)), Begin_Record (sample_stamp 3) (sample_signal ''b'' 30),
     Tick 1, Tick 1, Tick 2, Tick 1]"

theorem recovery_never_hides_signal_witness:
  "w_calls (run_ops race sample_race (quiet empty_ledger)) ! 1
       = Tr_Write (sample_stamp 2) (sample_transition Resolved 20 (Some 20)) (Some ''valuation:phase:chewie'')
     \<and> map ev_type (events (w_ledger (race (Tick 1) (run_ops race sample_race (quiet empty_ledger))))) = [Opened, Resolved]"
proof -
  let ?W = "run_ops race sample_race (quiet empty_ledger)"
  have "1 < length (w_calls ?W)"
    and c: "w_calls ?W ! 1 = Tr_Write (sample_stamp 2) (sample_transition Resolved 20 (Some 20)) (Some ''valuation:phase:chewie'')"
    and r: "tr_recovered (sample_transition Resolved 20 (Some 20)) = Some 20"
    by code_simp+
  moreover have "map ev_type (events (w_ledger ?W)) = [Opened]" by code_simp
  ultimately show ?thesis
    using recovery_never_hides_signal [OF refl \<open>1 < length (w_calls ?W)\<close> c r]
    by (simp add: sample_transition_def)
qed

text \<open>
  C36: An owner's acknowledgement can undo a resolution.  The manual calls take no lock and write on the
  row they read first: when an acknowledgement read the incident before a resolution committed and
  carries a later instant, the incident, resolved by then, ends acknowledged; run
  after the resolution, the same call would have left it resolved.
\<close>

theorem acknowledge_undoes_resolution:
  assumes "wf_ledger L" "length (incidents L) \<le> 1000" "inc \<in> set (incidents L)"
    and "row_status (shown_row Postgres L inc) = Is_Open"
    and "tr_id res = inc_id inc" "tr_type res = Resolved" "tr_recovered res = None"
    and "tr_id ack = inc_id inc" "tr_type ack = Acknowledged" "tr_recovered ack = None" "tr_at res < tr_at ack"
    and "timely Postgres (transition_event st1 res) L"
  shows "row_status (shown_row Postgres (w_ledger (run_ops race
        [Begin_Transition st1 res, Begin_Transition st2 ack, Tick 0, Tick 1, Tick 0] (quiet L))) inc) = Is_Resolved
    \<and> row_status (shown_row Postgres (w_ledger (run_ops race
        [Begin_Transition st1 res, Begin_Transition st2 ack, Tick 0, Tick 1, Tick 0, Tick 1] (quiet L))) inc) = Is_Acknowledged
    \<and> row_status (shown_row Postgres (fst (transition_incident Postgres st2 ack (fst (transition_incident Postgres st1 res L)))) inc) = Is_Resolved"
proof -
  let ?e1 = "transition_event st1 res" and ?e2 = "transition_event st2 ack"
  let ?L1 = "append_event ?e1 L" and ?L2 = "append_event ?e2 (append_event ?e1 L)"
  note rd = list_wf [OF assms(1,2), of Postgres] row_by_id_sorted [OF assms(1), of "inc_id inc" _ Postgres]
  have id: "incident_of_id (inc_id inc) L = Some inc" by (rule id_of_member [OF assms(1,3)])
  have ex: "list_ex (\<lambda>i. inc_id i = inc_id inc) (incidents L)" using assms(3) by (auto simp: list_ex_iff)
  have app: "transition_applies res (shown_row Postgres L inc)" "transition_applies ack (shown_row Postgres L inc)"
    using assms(4,6,7,9,10) by (simp_all add: transition_applies_def)
  have a: "tick_call p (Tr_Start st1 res) W = goto p (Tr_Write st1 res None) W"
    "tick_call p (Tr_Start st2 ack) W = goto p (Tr_Write st2 ack None) W" if "w_ledger W = L" for p W
    using that assms(5-10) id app by (simp_all add: rd)
  define W where "W = \<lparr>w_ledger = L, w_lock = (\<lambda>_. None), w_calls = [Tr_Start st1 res, Tr_Start st2 ack]\<rparr>"
  have b: "run_ops race (Begin_Transition st1 res # Begin_Transition st2 ack # es) (quiet L) = run_ops race es W" for es
    by (simp add: quiet_def W_def)
  have c: "run_ops race [Tick 0, Tick 1] W = W\<lparr>w_calls := [Tr_Write st1 res None, Tr_Write st2 ack None]\<rparr>"
    by (simp add: W_def a goto_def del: tick_call.simps)
  have d: "run_ops race (Tick 0 # Tick 1 # es) W = run_ops race es (W\<lparr>w_calls := [Tr_Write st1 res None, Tr_Write st2 ack None]\<rparr>)" for es
    using run_ops_append [of race "[Tick 0, Tick 1]" es W] c by simp
  have w1: "w_ledger (run_ops race [Begin_Transition st1 res, Begin_Transition st2 ack, Tick 0, Tick 1, Tick 0] (quiet L)) = ?L1"
    unfolding b d using assms(5,8) ex by (simp add: W_def goto_def)
  have w2: "w_ledger (run_ops race [Begin_Transition st1 res, Begin_Transition st2 ack, Tick 0, Tick 1, Tick 0, Tick 1] (quiet L)) = ?L2"
    unfolding b d using assms(5,8) ex by (simp add: W_def goto_def)
  have L: "sound L" using assms(1,2) by (simp add: sound_def)
  have s1: "sound ?L1" and v1: "row_status (shown_row Postgres ?L1 inc) = Is_Resolved"
    using append_step(1) [OF L assms(3,12)] view_append [OF assms(1,3,12)] assms(5,6) by (simp_all add: status_entered)
  have "timely Postgres ?e2 ?L1"
    using assms(5,8,11,12) by (auto simp: timely_def list_all_iff transition_event_def)
  then have v2: "row_status (shown_row Postgres ?L2 inc) = Is_Acknowledged"
    using view_append [of ?L1 inc Postgres ?e2] s1 assms(3,8,9) by (simp add: sound_def status_entered)
  have q1: "fst (transition_incident Postgres st1 res L) = ?L1"
    using transition_eq [OF L, of Postgres st1 res] assms(5,6) id app by simp
  have q2: "fst (transition_incident Postgres st2 ack ?L1) = ?L1"
    using transition_eq [OF s1, of Postgres st2 ack] assms(8,9) id v1 by (simp add: incident_of_id_def transition_applies_def)
  show ?thesis using w1 w2 v1 v2 q1 q2 by simp
qed

theorem acknowledge_undoes_resolution_witness:
  "row_status (shown_row Postgres (w_ledger (run_ops race
      [Begin_Transition (sample_stamp 2) (sample_transition Resolved 20 None),
       Begin_Transition (sample_stamp 3) (sample_transition Acknowledged 30 None), Tick 0, Tick 1, Tick 0, Tick 1]
      (quiet (exec_op Postgres (Op_Record (sample_stamp 1) (sample_signal ''a'' 10)) empty_ledger))))
      (hd (incidents (exec_op Postgres (Op_Record (sample_stamp 1) (sample_signal ''a'' 10)) empty_ledger)))) = Is_Acknowledged"
proof -
  let ?L = "exec_op Postgres (Op_Record (sample_stamp 1) (sample_signal ''a'' 10)) empty_ledger"
  have "wf_ledger ?L" "length (incidents ?L) \<le> 1000" "list_ex (\<lambda>i. i = hd (incidents ?L)) (incidents ?L)"
    "row_status (shown_row Postgres ?L (hd (incidents ?L))) = Is_Open"
    "tr_id (sample_transition Resolved 20 None) = inc_id (hd (incidents ?L))" "tr_type (sample_transition Resolved 20 None) = Resolved"
    "tr_recovered (sample_transition Resolved 20 None) = None" "tr_id (sample_transition Acknowledged 30 None) = inc_id (hd (incidents ?L))"
    "tr_type (sample_transition Acknowledged 30 None) = Acknowledged" "tr_recovered (sample_transition Acknowledged 30 None) = None"
    "tr_at (sample_transition Resolved 20 None) < tr_at (sample_transition Acknowledged 30 None)"
    "timely Postgres (transition_event (sample_stamp 2) (sample_transition Resolved 20 None)) ?L"
    by code_simp+
  then show ?thesis
    using acknowledge_undoes_resolution [of ?L "hd (incidents ?L)" "sample_transition Resolved 20 None"
        "sample_transition Acknowledged 30 None" "sample_stamp 2" "sample_stamp 3"] by (auto simp: list_ex_iff)
qed

end
