(* ===== verification/ScheduleRecovery.thy ===== *)
theory ScheduleRecovery
  imports Prelude PyDate "HOL-Library.AList"
begin

text \<open>
  \<open>scripts/c3po_workflow_schedule_recovery.py\<close>: the host's safety net for schedules GitHub missed.  Its
  reads (listings, the revision of main, comments), clock readings, hold checks, write outcomes and file
  errors are answers given to the model; its effects (the ledger file replaced, a dispatch sent, a notice
  sent) form a trace, so that a crash is a trace cut anywhere.  Instants are whole seconds since 1970
  (\<open>stamp\<close> cuts the clock to them); \<open>America/Sao_Paulo\<close> is three hours behind UTC, as it has been since
  2019.  The JSON shapes of the answers are taken as read; the checks on their values are modelled.
\<close>

section \<open>Slots\<close>

definition OPS :: string where "OPS = ''ops-readonly-report.yml''"
definition EXPORT :: string where "EXPORT = ''decisor-verdict-export.yml''"
definition retired_workflows :: "string list" where "retired_workflows = [''valuation-pit-grid-autopilot.yml'']"
definition MIN_AGE :: int where "MIN_AGE = 20 * 60"
definition MAX_AGE :: int where "MAX_AGE = 80 * 60"

record slot =
  sl_workflow :: string
  sl_at :: int

definition brt_day :: "int \<Rightarrow> int" where "brt_day t = (t - 10800) div 86400"
definition brt_second :: "int \<Rightarrow> int" where "brt_second t = (t - 10800) mod 86400"

text \<open>\<open>datetime(day, hour, minute, tzinfo=BRT)\<close>.\<close>

definition brt_instant :: "int \<Rightarrow> int \<Rightarrow> int \<Rightarrow> int" where
  "brt_instant day hour minute = day * 86400 + hour * 3600 + minute * 60 + 10800"

text \<open>\<open>date.weekday()\<close>; the first of January 1970 was a Thursday.\<close>

definition weekday_of :: "int \<Rightarrow> int" where "weekday_of day = (day + 3) mod 7"

definition stamp_text :: "int \<Rightarrow> string" where
  "stamp_text t = iso_text (719163 + t div 86400) @ ''T'' @ pad 2 (show_int (t mod 86400 div 3600)) @ '':''
     @ pad 2 (show_int (t mod 3600 div 60)) @ '':'' @ pad 2 (show_int (t mod 60)) @ ''Z''"

definition slot_key :: "slot \<Rightarrow> string" where
  "slot_key s = sl_workflow s @ '':'' @ stamp_text (sl_at s)"

definition slot_tag :: "slot \<Rightarrow> string" where
  "slot_tag s = ''[recovery:'' @ stamp_text (sl_at s) @ '']''"

definition due :: "int \<Rightarrow> int \<Rightarrow> bool" where
  "due now inst \<longleftrightarrow> MIN_AGE \<le> now - inst \<and> now - inst \<le> MAX_AGE"

definition day_slots :: "int \<Rightarrow> int \<Rightarrow> slot list" where
  "day_slots now day =
     concat (map (\<lambda>(h, m). if due now (brt_instant day h m) then [\<lparr>sl_workflow = OPS, sl_at = brt_instant day h m\<rparr>] else [])
       [(3, 30), (8, 30)])
     @ (if weekday_of day < 5 \<and> due now (brt_instant day 8 0) then [\<lparr>sl_workflow = EXPORT, sl_at = brt_instant day 8 0\<rparr>] else [])"

definition slots :: "int \<Rightarrow> slot list" where
  "slots now = concat (map (\<lambda>offset. day_slots now (brt_day now + offset)) [0, -1])"

datatype recovery_error = Refused string | Os_Error

text \<open>\<open>validate_slot\<close>: \<open>SLOT_RE\<close> admits whole minutes only.\<close>

definition validate_slot :: "string \<Rightarrow> int \<Rightarrow> recovery_error + slot" where
  "validate_slot workflow inst =
     (if workflow \<notin> {OPS, EXPORT} \<or> inst mod 60 \<noteq> 0 then Inl (Refused ''invalid_recovery_slot'')
      else
        let hour = brt_second inst div 3600; minute = brt_second inst mod 3600 div 60 in
        if (if workflow = OPS then (hour, minute) \<in> {(3, 30), (8, 30)}
            else (hour, minute) = (8, 0) \<and> weekday_of (brt_day inst) < 5)
        then Inr \<lparr>sl_workflow = workflow, sl_at = inst\<rparr>
        else Inl (Refused ''invalid_recovery_slot''))"

section \<open>Run listings\<close>

record run_row =
  rn_id :: int
  rn_path :: string
  rn_branch :: string
  rn_created :: int
  rn_status :: string
  rn_event :: string
  rn_title :: string
  rn_sha :: string

definition has_prefix :: "string \<Rightarrow> string \<Rightarrow> bool" where
  "has_prefix w s \<longleftrightarrow> take (length w) s = w"

fun contains :: "string \<Rightarrow> string \<Rightarrow> bool" where
  "contains w [] = (w = [])"
| "contains w (c # cs) = (has_prefix w (c # cs) \<or> contains w cs)"

fun check_rows :: "slot \<Rightarrow> int list \<Rightarrow> run_row list \<Rightarrow> recovery_error + unit" where
  "check_rows s seen [] = Inr ()"
| "check_rows s seen (r # rs) =
     (if rn_id r \<le> 0 \<or> rn_id r \<in> set seen then Inl (Refused ''invalid_run_identity'')
      else
        let expected = ''.github/workflows/'' @ sl_workflow s in
        if (rn_path r \<noteq> expected \<and> \<not> has_prefix (expected @ ''@'') (rn_path r)) \<or> rn_branch r \<noteq> ''main''
        then Inl (Refused ''unexpected_run'')
        else check_rows s (rn_id r # seen) rs)"

definition run_listing :: "slot \<Rightarrow> recovery_error + run_row list \<Rightarrow> recovery_error + run_row list" where
  "run_listing s answer = ebind answer (\<lambda>rows. ebind (check_rows s [] rows) (\<lambda>_. Inr rows))"

text \<open>\<open>covered\<close>: whether a run already serves the slot.\<close>

fun slot_covered :: "slot \<Rightarrow> run_row list \<Rightarrow> int \<Rightarrow> recovery_error + bool" where
  "slot_covered s [] now = Inr False"
| "slot_covered s (r # rs) now =
     (if rn_status r \<noteq> ''completed'' then Inr True
      else if rn_event r \<notin> {''schedule'', ''workflow_dispatch''} \<or> \<not> (sl_at s \<le> rn_created r \<and> rn_created r \<le> now)
      then slot_covered s rs now
      else if contains ''[recovery:'' (rn_title r)
      then (if contains (slot_tag s) (rn_title r) then Inr True else slot_covered s rs now)
      else if sl_workflow s = OPS \<and> rn_event r = ''schedule'' \<and> contains ''[schedule:'' (rn_title r)
        \<and> \<not> contains (''[schedule:'' @ (if brt_second (sl_at s) div 3600 = 3 then ''30 6 * * *'' else ''30 11 * * *'') @ '']'') (rn_title r)
      then slot_covered s rs now
      else if sl_workflow s = EXPORT \<and> rn_event r = ''workflow_dispatch'' \<and> \<not> contains ''last-completed'' (rn_title r)
      then Inl (Refused ''ambiguous_export_night'')
      else Inr True)"

section \<open>The ledger\<close>

datatype rstate =
    Dispatch_Held
  | Skipped
  | Dispatch_Intent
  | Dispatch_Unknown
  | Run_Confirmed
  | Notice_Intent
  | Notice_Unknown
  | Complete

record entry =
  en_workflow :: string
  en_slot :: int
  en_state :: rstate
  en_attempted :: int
  en_sha :: string
  en_before :: int
  en_run :: "int option"
  en_comment :: "int option"

type_synonym entries = "(string \<times> entry) list"

definition sha_ok :: "string \<Rightarrow> bool" where
  "sha_ok s \<longleftrightarrow> length s = 40 \<and> list_all (\<lambda>c. c \<in> set ''0123456789abcdef'') s"

text \<open>\<open>Ledger.__init__\<close>: what the file must hold; entries of retired workflows are history.\<close>

definition entry_ok :: "string \<times> entry \<Rightarrow> bool" where
  "entry_ok = (\<lambda>(key, e). en_workflow e \<in> set retired_workflows
     \<or> (case validate_slot (en_workflow e) (en_slot e) of
          Inl err \<Rightarrow> False
        | Inr s \<Rightarrow> key = slot_key s \<and> sha_ok (en_sha e) \<and> 0 \<le> en_before e
            \<and> (en_state e \<in> {Run_Confirmed, Notice_Intent, Notice_Unknown, Complete} \<longrightarrow>
                 (case en_run e of None \<Rightarrow> False | Some i \<Rightarrow> en_before e < i))))"

definition ledger_ok :: "entries \<Rightarrow> bool" where
  "ledger_ok es \<longleftrightarrow> length es \<le> 50000 \<and> distinct (map fst es) \<and> list_all entry_ok es"

section \<open>The script's state and effects\<close>

datatype effect = Wrote entries | Posted slot | Noticed slot

text \<open>\<open>atomic_write\<close>: it succeeds, fails before the replacement, or fails after it (the directory's \<open>fsync\<close>).\<close>

datatype save_outcome = Saved | Not_Saved | Saved_With_Error

record counters =
  n_covered :: nat
  n_planned :: nat
  n_confirmed :: nat
  n_errors :: nat

record script =
  sc_entries :: entries
  sc_trace :: "effect list"
  sc_saves :: "save_outcome list"
  sc_counters :: counters

text \<open>A step of the script may raise; its state stays, as the outer \<open>except\<close> sees it.\<close>

type_synonym 'a action = "script \<Rightarrow> (recovery_error + 'a) \<times> script"

definition ok :: "'a \<Rightarrow> 'a action" where "ok x = (\<lambda>s. (Inr x, s))"
definition raise :: "recovery_error \<Rightarrow> 'a action" where "raise e = (\<lambda>s. (Inl e, s))"

definition andthen :: "'a action \<Rightarrow> ('a \<Rightarrow> 'b action) \<Rightarrow> 'b action" where
  "andthen m f = (\<lambda>s. case m s of (Inl e, s') \<Rightarrow> (Inl e, s') | (Inr x, s') \<Rightarrow> f x s')"

definition read_answer :: "recovery_error + 'a \<Rightarrow> 'a action" where
  "read_answer a = (\<lambda>s. (a, s))"

definition emit :: "effect \<Rightarrow> unit action" where
  "emit e = (\<lambda>s. (Inr (), s\<lparr>sc_trace := sc_trace s @ [e]\<rparr>))"

definition get_entry :: "string \<Rightarrow> entry option action" where
  "get_entry k = (\<lambda>s. (Inr (map_of (sc_entries s) k), s))"

definition put_entry :: "string \<Rightarrow> entry \<Rightarrow> unit action" where
  "put_entry k e = (\<lambda>s. (Inr (), s\<lparr>sc_entries := AList.update k e (sc_entries s)\<rparr>))"

definition count_up :: "(counters \<Rightarrow> counters) \<Rightarrow> unit action" where
  "count_up f = (\<lambda>s. (Inr (), s\<lparr>sc_counters := f (sc_counters s)\<rparr>))"

definition covered_up :: "unit action" where "covered_up = count_up (\<lambda>c. c\<lparr>n_covered := Suc (n_covered c)\<rparr>)"

text \<open>\<open>ledger.save()\<close>; with no outcome given it succeeds.\<close>

definition save_ledger :: "unit action" where
  "save_ledger = (\<lambda>s.
     let outcome = (case sc_saves s of [] \<Rightarrow> Saved | x # _ \<Rightarrow> x);
         s1 = s\<lparr>sc_saves := tl (sc_saves s)\<rparr>;
         s2 = s1\<lparr>sc_trace := sc_trace s @ [Wrote (sc_entries s)]\<rparr> in
     case outcome of Saved \<Rightarrow> (Inr (), s2) | Not_Saved \<Rightarrow> (Inl Os_Error, s1) | Saved_With_Error \<Rightarrow> (Inl Os_Error, s2))"

section \<open>Confirming a run, publishing the notice\<close>

definition confirm_run :: "entry \<Rightarrow> slot \<Rightarrow> run_row list \<Rightarrow> recovery_error + entry option" where
  "confirm_run e s runs =
     (let matching = filter (\<lambda>r. en_before e < rn_id r \<and> rn_event r = ''workflow_dispatch'' \<and> contains (slot_tag s) (rn_title r)
        \<and> rn_sha r = en_sha e \<and> en_attempted e - 5 \<le> rn_created r) runs in
      case matching of
        [] \<Rightarrow> Inr None
      | [r] \<Rightarrow> Inr (Some (e\<lparr>en_state := Run_Confirmed, en_run := Some (rn_id r)\<rparr>))
      | _ \<Rightarrow> Inl (Refused ''multiple_recovery_runs''))"

record comment =
  cm_id :: "int option"
  cm_body :: string

definition repo_url :: string where "repo_url = ''https://github.com/duduvcastro/c3po-chief-of-staff-intelligence/actions/runs/''"

definition notice_body :: "int \<Rightarrow> slot \<Rightarrow> string" where
  "notice_body i s = ''<!-- c3po-workflow-recovery:'' @ slot_key s @ '':'' @ show_int i @ '' -->'' @ [CHR 0x0A]
     @ ''Recupera'' @ [CHR 0xE7, CHR 0xE3] @ ''o de agendamento `'' @ sl_workflow s @ ''`, slot `'' @ stamp_text (sl_at s) @ ''`: ''
     @ ''[run '' @ show_int i @ ''](''  @ repo_url @ show_int i @ '') confirmado; ''
     @ ''despacho de recupera'' @ [CHR 0xE7, CHR 0xE3] @ ''o registrado, resultado do workflow ainda deve ser conferido.''"

text \<open>What the outside answers while one slot is handled.\<close>

record answers =
  an_held_clock :: int
  an_runs :: "recovery_error + run_row list"
  an_active :: "recovery_error + bool"
  an_clock1 :: int
  an_main :: "recovery_error + string"
  an_runs2 :: "recovery_error + run_row list"
  an_clock2 :: int
  an_main2 :: "recovery_error + string"
  an_clock3 :: int
  an_may1 :: bool
  an_may2 :: bool
  an_clock4 :: int
  an_post :: "recovery_error + unit"
  an_polls :: "(recovery_error + run_row list) list"
  an_comments :: "recovery_error + comment list"
  an_may3 :: bool
  an_may4 :: bool
  an_notice :: "recovery_error + comment"
  an_comments2 :: "recovery_error + comment list"

definition set_state :: "string \<Rightarrow> entry \<Rightarrow> rstate \<Rightarrow> unit action" where
  "set_state k e st = put_entry k (e\<lparr>en_state := st\<rparr>)"

text \<open>The POST of the notice and its confirmation by a separate read.\<close>

definition post_notice :: "answers \<Rightarrow> string \<Rightarrow> comment action" where
  "post_notice a body =
     andthen (read_answer (an_notice a)) (\<lambda>c.
     if cm_id c = None \<or> cm_body c \<noteq> body then raise (Refused ''notice_not_confirmed'')
     else andthen (read_answer (an_comments2 a)) (\<lambda>cs.
       if list_ex (\<lambda>x. cm_id x = cm_id c \<and> cm_body x = body) cs then ok c
       else raise (Refused ''notice_not_confirmed'')))"

definition catching :: "'a action \<Rightarrow> 'b action \<Rightarrow> ('a \<Rightarrow> 'b action) \<Rightarrow> 'b action" where
  "catching m handler f = (\<lambda>s. case m s of (Inl e, s') \<Rightarrow> handler s' | (Inr x, s') \<Rightarrow> f x s')"

definition send_notice :: "answers \<Rightarrow> slot \<Rightarrow> entry \<Rightarrow> unit action" where
  "send_notice a s e =
     (let k = slot_key s in
      andthen (set_state k e Notice_Intent) (\<lambda>_. andthen save_ledger (\<lambda>_.
      if \<not> an_may4 a then andthen (set_state k e Run_Confirmed) (\<lambda>_. save_ledger)
      else andthen (emit (Noticed s)) (\<lambda>_.
        catching (post_notice a (notice_body (the (en_run e)) s))
          (andthen (set_state k e Notice_Unknown) (\<lambda>_. andthen save_ledger (\<lambda>_. raise (Refused ''notice_outcome_unknown''))))
          (\<lambda>c. andthen (put_entry k (e\<lparr>en_state := Complete, en_comment := cm_id c\<rparr>)) (\<lambda>_. save_ledger))))))"

definition publish_notice :: "answers \<Rightarrow> slot \<Rightarrow> entry \<Rightarrow> unit action" where
  "publish_notice a s e =
     andthen (read_answer (an_comments a)) (\<lambda>comments.
     case filter (\<lambda>c. cm_body c = notice_body (the (en_run e)) s) comments of
       [] \<Rightarrow>
         if en_state e \<in> {Notice_Intent, Notice_Unknown} then raise (Refused ''notice_outcome_unknown'')
         else if \<not> an_may3 a then ok ()
         else send_notice a s e
     | [c] \<Rightarrow>
         if cm_id c \<noteq> None
         then andthen (put_entry (slot_key s) (e\<lparr>en_state := Complete, en_comment := cm_id c\<rparr>)) (\<lambda>_. save_ledger)
         else raise (Refused ''multiple_recovery_notices'')
     | _ \<Rightarrow> raise (Refused ''multiple_recovery_notices''))"

section \<open>One slot\<close>

text \<open>The polls after the dispatch (at most twelve): the entry as the last of them left it.\<close>

fun poll :: "slot \<Rightarrow> entry \<Rightarrow> (recovery_error + run_row list) list \<Rightarrow> entry action" where
  "poll s e [] = ok e"
| "poll s e (x # xs) =
     andthen (read_answer (ebind (run_listing s x) (confirm_run e s))) (\<lambda>found.
       case found of
         None \<Rightarrow> poll s e xs
       | Some e' \<Rightarrow> andthen (put_entry (slot_key s) e') (\<lambda>_. andthen save_ledger (\<lambda>_. ok e')))"

text \<open>
  From the durable intent to the polls; \<open>None\<close> means the slot is settled for this run (the code's
  \<open>continue\<close>).
\<close>

definition settled :: "entry option action" where
  "settled = andthen covered_up (\<lambda>_. ok None)"

definition send_dispatch :: "answers \<Rightarrow> slot \<Rightarrow> entry \<Rightarrow> entry option action" where
  "send_dispatch a s e =
     (let k = slot_key s in
      andthen (put_entry k e) (\<lambda>_. andthen save_ledger (\<lambda>_.
      if \<not> an_may2 a then andthen (set_state k e Dispatch_Held) (\<lambda>_. andthen save_ledger (\<lambda>_. settled))
      else if \<not> due (an_clock4 a) (sl_at s) then andthen (set_state k e Skipped) (\<lambda>_. andthen save_ledger (\<lambda>_. settled))
      else andthen (emit (Posted s)) (\<lambda>_.
        andthen (catching (read_answer (an_post a))
          (andthen (set_state k e Dispatch_Unknown) (\<lambda>_. andthen save_ledger (\<lambda>_. ok (e\<lparr>en_state := Dispatch_Unknown\<rparr>))))
          (\<lambda>_. ok e)) (\<lambda>e1.
        andthen (poll s e1 (take 12 (an_polls a))) (\<lambda>e2. ok (Some e2)))))))"

text \<open>The branch without an entry.\<close>

definition dispatch :: "answers \<Rightarrow> bool \<Rightarrow> slot \<Rightarrow> run_row list \<Rightarrow> entry option action" where
  "dispatch a act s runs =
     andthen (read_answer (an_active a)) (\<lambda>active.
     if \<not> active then raise (Refused ''workflow_not_active'')
     else andthen (read_answer (slot_covered s runs (an_clock1 a))) (\<lambda>c.
     if c then settled
     else if \<not> act then andthen (count_up (\<lambda>c. c\<lparr>n_planned := Suc (n_planned c)\<rparr>)) (\<lambda>_. ok None)
     else andthen (read_answer (an_main a)) (\<lambda>sha.
     if \<not> sha_ok sha then raise (Refused ''main_revision_unavailable'')
     else andthen (read_answer (run_listing s (an_runs2 a))) (\<lambda>runs2.
     andthen (read_answer (slot_covered s runs2 (an_clock2 a))) (\<lambda>c2.
     if c2 then settled
     else andthen (read_answer (an_main2 a)) (\<lambda>sha2.
     if sha2 \<noteq> sha then raise (Refused ''main_revision_changed'')
     else if \<not> due (an_clock3 a) (sl_at s) \<or> \<not> an_may1 a then settled
     else send_dispatch a s
       \<lparr>en_workflow = sl_workflow s, en_slot = sl_at s, en_state = Dispatch_Intent, en_attempted = an_clock3 a,
        en_sha = sha, en_before = fold max (map rn_id runs2) 0, en_run = None, en_comment = None\<rparr>))))))"

text \<open>The common end: an entry whose dispatch is unconfirmed is an error, a confirmed one gets its notice.\<close>

definition finish_slot :: "answers \<Rightarrow> bool \<Rightarrow> slot \<Rightarrow> entry \<Rightarrow> unit action" where
  "finish_slot a act s e =
     (if en_state e \<in> {Dispatch_Intent, Dispatch_Unknown}
      then andthen (if act then andthen (set_state (slot_key s) e Dispatch_Unknown) (\<lambda>_. save_ledger) else ok ())
             (\<lambda>_. raise (Refused ''dispatch_outcome_unknown''))
      else andthen (count_up (\<lambda>c. c\<lparr>n_confirmed := Suc (n_confirmed c)\<rparr>)) (\<lambda>_.
        if act then publish_notice a s e else ok ()))"

definition recover_slot :: "answers \<Rightarrow> bool \<Rightarrow> slot \<Rightarrow> unit action" where
  "recover_slot a act s =
     (let k = slot_key s in
      andthen (get_entry k) (\<lambda>found.
      let fresh = andthen (read_answer (run_listing s (an_runs a))) (\<lambda>runs.
            andthen (dispatch a act s runs) (\<lambda>r. case r of None \<Rightarrow> ok () | Some e \<Rightarrow> finish_slot a act s e)) in
      case found of
        None \<Rightarrow> fresh
      | Some e \<Rightarrow>
          if en_state e \<in> {Complete, Skipped} then covered_up
          else if en_state e = Dispatch_Held
          then (if due (an_held_clock a) (sl_at s) then fresh
                else andthen (if act then andthen (set_state k e Skipped) (\<lambda>_. save_ledger) else ok ()) (\<lambda>_. covered_up))
          else andthen (read_answer (run_listing s (an_runs a))) (\<lambda>runs.
            if en_state e \<in> {Dispatch_Intent, Dispatch_Unknown}
            then andthen (read_answer (confirm_run e s runs)) (\<lambda>c.
              case c of
                None \<Rightarrow> finish_slot a act s e
              | Some e' \<Rightarrow> andthen (put_entry k e') (\<lambda>_. andthen (if act then save_ledger else ok ()) (\<lambda>_. finish_slot a act s e')))
            else finish_slot a act s e)))"

section \<open>One run of the script, and the host's life\<close>

definition recover_one :: "(string \<Rightarrow> answers) \<Rightarrow> bool \<Rightarrow> slot \<Rightarrow> script \<Rightarrow> script" where
  "recover_one env act s st =
     (case recover_slot (env (slot_key s)) act s st of
        (Inr _, st') \<Rightarrow> st'
      | (Inl _, st') \<Rightarrow> snd (count_up (\<lambda>c. c\<lparr>n_errors := Suc (n_errors c)\<rparr>) st'))"

text \<open>The candidates: the slots due, then the slots of the entries that are not settled; each key once.\<close>

definition candidates :: "int \<Rightarrow> entries \<Rightarrow> slot list" where
  "candidates now es =
     map snd (fold (\<lambda>s m. AList.update (slot_key s) s m)
       (slots now @ map (\<lambda>(k, e). \<lparr>sl_workflow = en_workflow e, sl_at = en_slot e\<rparr>)
          (filter (\<lambda>(k, e). en_state e \<notin> {Complete, Skipped} \<and> en_workflow e \<notin> set retired_workflows) es)) [])"

definition script_start :: "entries \<Rightarrow> save_outcome list \<Rightarrow> script" where
  "script_start es saves = \<lparr>sc_entries = es, sc_trace = [], sc_saves = saves,
     sc_counters = \<lparr>n_covered = 0, n_planned = 0, n_confirmed = 0, n_errors = 0\<rparr>\<rparr>"

definition recover :: "(string \<Rightarrow> answers) \<Rightarrow> bool \<Rightarrow> int \<Rightarrow> save_outcome list \<Rightarrow> entries \<Rightarrow> script" where
  "recover env act now saves es = fold (recover_one env act) (candidates now es) (script_start es saves)"

text \<open>
  \<open>main\<close> under the file lock: a run starts from the file and may crash after any of its effects
  (\<open>rn_cut\<close> of them happen).  A ledger the constructor refuses, or a hold, ends the run at once.
\<close>

record host =
  ho_file :: entries
  ho_posts :: "slot list"
  ho_notices :: "slot list"

record host_run =
  hr_held :: bool
  hr_env :: "string \<Rightarrow> answers"
  hr_act :: bool
  hr_now :: int
  hr_saves :: "save_outcome list"
  hr_cut :: nat

fun happen :: "effect \<Rightarrow> host \<Rightarrow> host" where
  "happen (Wrote es) h = h\<lparr>ho_file := es\<rparr>"
| "happen (Posted s) h = h\<lparr>ho_posts := ho_posts h @ [s]\<rparr>"
| "happen (Noticed s) h = h\<lparr>ho_notices := ho_notices h @ [s]\<rparr>"

definition run_effects :: "host_run \<Rightarrow> host \<Rightarrow> effect list" where
  "run_effects r h =
     (if hr_held r \<or> \<not> ledger_ok (ho_file h) then []
      else take (hr_cut r) (sc_trace (recover (hr_env r) (hr_act r) (hr_now r) (hr_saves r) (ho_file h))))"

definition host_step :: "host_run \<Rightarrow> host \<Rightarrow> host" where
  "host_step r h = run_ops happen (run_effects r h) h"

definition new_host :: host where
  "new_host = \<lparr>ho_file = [], ho_posts = [], ho_notices = []\<rparr>"

end
