(* ===== verification/ScheduleSafety.thy ===== *)
theory ScheduleSafety
  imports ScheduleRecovery
begin

text \<open>
  What the schedule recovery promises: an external write is preceded by its durable intent and is never
  repeated, whatever answers, file errors and crashes occur; a run without \<open>--act\<close> has no effect; a
  dispatch needs every check; the slots found are exactly the scheduled instants of the right age.
\<close>

section \<open>Write-ahead journals\<close>

definition committed_in :: "(rstate \<Rightarrow> bool) \<Rightarrow> entries \<Rightarrow> string \<Rightarrow> bool" where
  "committed_in c es k = (case map_of es k of None \<Rightarrow> False | Some e \<Rightarrow> c (en_state e))"

text \<open>
  Replaying effects from a file and the keys already sent: every file written keeps the sent keys
  committed, and a key is sent only when it was not and the file has it committed.
\<close>

fun audit :: "(effect \<Rightarrow> slot option) \<Rightarrow> (rstate \<Rightarrow> bool) \<Rightarrow> effect list \<Rightarrow> entries \<times> string list \<Rightarrow> (entries \<times> string list) option" where
  "audit sends c [] dp = Some dp"
| "audit sends c (x # xs) (D, P) =
     (case x of
        Wrote es \<Rightarrow> if list_all (committed_in c es) P then audit sends c xs (es, P) else None
      | _ \<Rightarrow>
          (case sends x of
             None \<Rightarrow> audit sends c xs (D, P)
           | Some s \<Rightarrow>
               if slot_key s \<notin> set P \<and> committed_in c D (slot_key s) then audit sends c xs (D, P @ [slot_key s]) else None))"

lemma audit_append:
  "audit sends c (xs @ ys) dp = (case audit sends c xs dp of None \<Rightarrow> None | Some dp' \<Rightarrow> audit sends c ys dp')"
proof (induction xs arbitrary: dp)
  case (Cons x xs)
  then show ?case by (cases dp; cases x) (auto split: option.split)
qed simp

lemma audit_take: "audit sends c xs dp \<noteq> None \<Longrightarrow> audit sends c (take n xs) dp \<noteq> None"
  using audit_append [of sends c "take n xs" "drop n xs" dp]
  by (cases "audit sends c (take n xs) dp") simp_all

lemma audit_sound:
  "audit sends c xs (D, P) = Some (D', P') \<Longrightarrow> distinct P \<Longrightarrow> list_all (committed_in c D) P \<Longrightarrow>
   distinct P' \<and> list_all (committed_in c D') P'"
proof (induction xs arbitrary: D P)
  case (Cons x xs)
  then show ?case by (cases x) (auto split: option.splits if_splits)
qed simp

text \<open>The invariant of a running script: its trace so far passes, and its memory has the sent keys committed.\<close>

definition at_key ::
  "(effect \<Rightarrow> slot option) \<Rightarrow> (rstate \<Rightarrow> bool) \<Rightarrow> entries \<times> string list \<Rightarrow> string \<Rightarrow> entry option \<Rightarrow> bool \<Rightarrow> bool \<Rightarrow> script \<Rightarrow> bool" where
  "at_key sends c dp k m unsent durable st \<longleftrightarrow>
     (\<exists>D P. audit sends c (sc_trace st) dp = Some (D, P) \<and> list_all (committed_in c (sc_entries st)) P
        \<and> map_of (sc_entries st) k = m \<and> (unsent \<longrightarrow> k \<notin> set P) \<and> (durable \<longrightarrow> committed_in c D k))"

definition journal :: "(effect \<Rightarrow> slot option) \<Rightarrow> (rstate \<Rightarrow> bool) \<Rightarrow> entries \<times> string list \<Rightarrow> script \<Rightarrow> bool" where
  "journal sends c dp st \<longleftrightarrow> (\<exists>D P. audit sends c (sc_trace st) dp = Some (D, P) \<and> list_all (committed_in c (sc_entries st)) P)"

lemma at_key_journal: "at_key sends c dp k m u d st \<Longrightarrow> journal sends c dp st"
  by (auto simp: at_key_def journal_def)

lemma journal_at_key:
  "journal sends c dp st \<Longrightarrow> map_of (sc_entries st) k = m \<Longrightarrow>
   at_key sends c dp k m (case m of None \<Rightarrow> True | Some e \<Rightarrow> \<not> c (en_state e)) False st"
  by (auto simp: at_key_def journal_def list_all_iff committed_in_def split: option.splits)

lemma at_key_same:
  "sc_trace st' = sc_trace st \<Longrightarrow> sc_entries st' = sc_entries st \<Longrightarrow> at_key sends c dp k m u d st' = at_key sends c dp k m u d st"
  by (simp add: at_key_def)

section \<open>Running an action\<close>

text \<open>The weakest precondition: \<open>Q\<close> after a result, \<open>J\<close> after an error.\<close>

definition wp :: "(script \<Rightarrow> bool) \<Rightarrow> 'a action \<Rightarrow> ('a \<Rightarrow> script \<Rightarrow> bool) \<Rightarrow> script \<Rightarrow> bool" where
  "wp J m Q st = (case m st of (Inl e, st') \<Rightarrow> J st' | (Inr x, st') \<Rightarrow> Q x st')"

lemma wp_simps:
  "wp J (ok x) QX st = QX x st"
  "wp J (raise e) QR st = J st"
  "wp J (andthen m f) Q st = wp J m (\<lambda>x. wp J (f x) Q) st"
  "wp J (read_answer a) QA st = (case a of Inl e \<Rightarrow> J st | Inr x \<Rightarrow> QA x st)"
  "wp J (get_entry k) QE st = QE (map_of (sc_entries st) k) st"
  "wp J (count_up g) QU st = QU () (st\<lparr>sc_counters := g (sc_counters st)\<rparr>)"
  by (auto simp: wp_def ok_def raise_def andthen_def read_answer_def get_entry_def count_up_def split: prod.splits sum.splits)

lemma wp_catching: "wp J (catching m h f) Q st = wp (\<lambda>st'. wp J h Q st') m (\<lambda>x. wp J (f x) Q) st"
  by (auto simp: wp_def catching_def split: prod.splits sum.splits)

lemma wp_mono: "wp J m Q st \<Longrightarrow> (\<And>x st'. Q x st' \<Longrightarrow> R x st') \<Longrightarrow> wp J m R st"
  by (auto simp: wp_def split: prod.splits sum.splits)

lemma wp_put:
  assumes "at_key sends c dp k m u d st" "c (en_state e) \<or> u" "\<And>st'. at_key sends c dp k (Some e) u d st' \<Longrightarrow> Q () st'"
  shows "wp J (put_entry k e) Q st"
proof -
  have "at_key sends c dp k (Some e) u d (st\<lparr>sc_entries := AList.update k e (sc_entries st)\<rparr>)"
    using assms(1,2) by (fastforce simp: at_key_def list_all_iff committed_in_def update_conv' split: if_splits)
  then show ?thesis using assms(3) by (simp add: wp_def put_entry_def)
qed

lemma wp_save:
  assumes "at_key sends c dp k (Some e) u d st" "sends (Wrote (sc_entries st)) = None"
    and "\<And>st'. at_key sends c dp k (Some e) u (c (en_state e)) st' \<Longrightarrow> Q () st'"
  shows "wp (journal sends c dp) save_ledger Q st"
proof -
  let ?st = "st\<lparr>sc_saves := tl (sc_saves st), sc_trace := sc_trace st @ [Wrote (sc_entries st)]\<rparr>"
  have w: "at_key sends c dp k (Some e) u (c (en_state e)) ?st"
    using assms(1,2) by (fastforce simp: at_key_def audit_append committed_in_def)
  moreover have "journal sends c dp (st\<lparr>sc_saves := tl (sc_saves st)\<rparr>)"
    using at_key_journal [OF assms(1)] by (simp add: journal_def)
  ultimately show ?thesis
    using assms(3) at_key_journal [OF w] by (auto simp: wp_def save_ledger_def Let_def split: list.split save_outcome.split)
qed

lemma wp_emit_send:
  assumes "at_key sends c dp k (Some e) True True st" "sends x = Some s" "slot_key s = k" "c (en_state e)"
    and "\<And>st'. at_key sends c dp k (Some e) False True st' \<Longrightarrow> Q () st'" "\<And>es. x \<noteq> Wrote es"
  shows "wp J (emit x) Q st"
proof -
  have "at_key sends c dp k (Some e) False True (st\<lparr>sc_trace := sc_trace st @ [x]\<rparr>)"
    using assms(1-4,6) by (cases x) (auto simp: at_key_def audit_append committed_in_def)
  then show ?thesis using assms(5) by (simp add: wp_def emit_def)
qed

lemma wp_emit_other:
  assumes "at_key sends c dp k m u d st" "sends x = None" "\<And>es. x \<noteq> Wrote es"
    and "\<And>st'. at_key sends c dp k m u d st' \<Longrightarrow> Q () st'"
  shows "wp J (emit x) Q st"
proof -
  have "at_key sends c dp k m u d (st\<lparr>sc_trace := sc_trace st @ [x]\<rparr>)"
    using assms(1-3) by (cases x) (auto simp: at_key_def audit_append)
  then show ?thesis using assms(4) by (simp add: wp_def emit_def)
qed

section \<open>The two journals of the script\<close>

fun dispatch_of :: "effect \<Rightarrow> slot option" where
  "dispatch_of (Posted s) = Some s"
| "dispatch_of _ = None"

fun notice_of :: "effect \<Rightarrow> slot option" where
  "notice_of (Noticed s) = Some s"
| "notice_of _ = None"

definition dispatched :: "rstate \<Rightarrow> bool" where
  "dispatched st \<longleftrightarrow> st \<notin> {Dispatch_Held, Skipped}"

definition noticed :: "rstate \<Rightarrow> bool" where
  "noticed st \<longleftrightarrow> st \<in> {Notice_Intent, Notice_Unknown, Complete}"

lemma states_sent [simp]:
  "dispatched Dispatch_Intent" "dispatched Dispatch_Unknown" "dispatched Run_Confirmed" "dispatched Notice_Intent"
  "dispatched Notice_Unknown" "dispatched Complete" "\<not> dispatched Dispatch_Held" "\<not> dispatched Skipped"
  "\<not> noticed Dispatch_Intent" "\<not> noticed Dispatch_Unknown" "\<not> noticed Run_Confirmed" "noticed Notice_Intent"
  "noticed Notice_Unknown" "noticed Complete" "\<not> noticed Dispatch_Held" "\<not> noticed Skipped"
  by (simp_all add: dispatched_def noticed_def)

lemma journal_imp: "at_key sends c dp k m u d st \<Longrightarrow> journal sends c dp st \<and> True"
  by (simp add: at_key_journal)

lemma at_key_count [simp]:
  "at_key sends c dp k m u d (st\<lparr>sc_counters := n\<rparr>) = at_key sends c dp k m u d st"
  "journal sends c dp (st\<lparr>sc_counters := n\<rparr>) = journal sends c dp st"
  by (simp_all add: at_key_def journal_def)

lemma wp_poll:
  assumes "at_key sends c dp (slot_key s) (Some e) u d st" "c Run_Confirmed \<or> u" "\<And>es. sends (Wrote es) = None"
    and "\<And>e' d' st'. at_key sends c dp (slot_key s) (Some e') u d' st' \<Longrightarrow> en_state e' = en_state e \<or> en_state e' = Run_Confirmed \<Longrightarrow> Q e' st'"
  shows "wp (journal sends c dp) (poll s e xs) Q st"
  using assms(1)
proof (induction xs)
  case Nil
  then show ?case using assms(4) by (simp add: wp_simps)
next
  case (Cons x xs)
  show ?case
  proof (cases "ebind (run_listing s x) (confirm_run e s)")
    case (Inr found)
    show ?thesis
    proof (cases found)
      case (Some e')
      then have st: "en_state e' = Run_Confirmed"
        using Inr by (auto simp: ebind_def confirm_run_def Let_def split: sum.splits list.splits)
      show ?thesis
        using Cons.prems Inr Some assms(2,3) st
        by (auto simp: wp_simps intro!: wp_put wp_save assms(4))
    qed (use Cons Inr in \<open>simp add: wp_simps\<close>)
  qed (use Cons.prems in \<open>simp add: wp_simps at_key_journal\<close>)
qed

lemma wp_post_notice: "J st \<Longrightarrow> (\<And>c. Q c st) \<Longrightarrow> wp J (post_notice a body) Q st"
  by (auto simp: post_notice_def wp_simps split: sum.split)

text \<open>What an action that leaves the journal sound is proved by.\<close>

lemmas script_rules = wp_put wp_save wp_post_notice wp_poll

lemma send_notice_dispatched:
  assumes "at_key dispatch_of dispatched dp (slot_key s) (Some e) u d st"
  shows "wp (journal dispatch_of dispatched dp) (send_notice a s e) (\<lambda>_. journal dispatch_of dispatched dp) st"
  unfolding send_notice_def Let_def set_state_def
  using assms
  by (auto simp: wp_simps wp_catching at_key_journal intro!: script_rules wp_emit_other split: sum.split list.split)
    (erule at_key_journal | simp)+

lemma send_notice_noticed:
  assumes "at_key notice_of noticed dp (slot_key s) (Some e) True d st"
  shows "wp (journal notice_of noticed dp) (send_notice a s e) (\<lambda>_. journal notice_of noticed dp) st"
  unfolding send_notice_def Let_def set_state_def
  using assms
  by (auto simp: wp_simps wp_catching at_key_journal intro!: script_rules wp_emit_send split: sum.split list.split)
    (erule at_key_journal | simp)+

lemma wp_publish:
  assumes "at_key sends c dp (slot_key s) (Some e) u d st" "c Complete" "\<And>es. sends (Wrote es) = None"
    and "en_state e \<notin> {Notice_Intent, Notice_Unknown} \<Longrightarrow> wp (journal sends c dp) (send_notice a s e) (\<lambda>_. journal sends c dp) st"
  shows "wp (journal sends c dp) (publish_notice a s e) (\<lambda>_. journal sends c dp) st"
  unfolding publish_notice_def
  using assms at_key_journal [OF assms(1)]
  by (auto simp: wp_simps intro!: script_rules split: sum.split list.split) (erule at_key_journal | simp)+

text \<open>The dispatch itself, for either journal.\<close>

lemma send_dispatch_dispatched:
  assumes "at_key dispatch_of dispatched dp (slot_key s) m True d st" "en_state e = Dispatch_Intent"
    and none: "\<And>st'. journal dispatch_of dispatched dp st' \<Longrightarrow> Q None st'"
    and some: "\<And>e' u' d' st'. at_key dispatch_of dispatched dp (slot_key s) (Some e') u' d' st' \<Longrightarrow>
        en_state e' \<in> {Dispatch_Intent, Dispatch_Unknown, Run_Confirmed} \<Longrightarrow> Q (Some e') st'"
  shows "wp (journal dispatch_of dispatched dp) (send_dispatch a s e) Q st"
proof -
  have settle: "Q None (st'\<lparr>sc_counters := n\<rparr>)" if "at_key dispatch_of dispatched dp k m' u' d' st'" for k m' u' d' st' n
    using at_key_journal [OF that] by (intro none) simp
  show ?thesis
    unfolding send_dispatch_def Let_def set_state_def settled_def covered_up_def
    using assms(1,2)
    by (auto simp: wp_simps wp_catching at_key_journal intro!: script_rules wp_emit_send split: sum.split)
      (erule at_key_journal | erule settle | erule some | simp)+
qed

lemma send_dispatch_noticed:
  assumes "at_key notice_of noticed dp (slot_key s) m True d st" "en_state e = Dispatch_Intent"
    and none: "\<And>st'. journal notice_of noticed dp st' \<Longrightarrow> Q None st'"
    and some: "\<And>e' d' st'. at_key notice_of noticed dp (slot_key s) (Some e') True d' st' \<Longrightarrow>
        en_state e' \<in> {Dispatch_Intent, Dispatch_Unknown, Run_Confirmed} \<Longrightarrow> Q (Some e') st'"
  shows "wp (journal notice_of noticed dp) (send_dispatch a s e) Q st"
proof -
  have settle: "Q None (st'\<lparr>sc_counters := n\<rparr>)" if "at_key notice_of noticed dp k m' u' d' st'" for k m' u' d' st' n
    using at_key_journal [OF that] by (intro none) simp
  show ?thesis
    unfolding send_dispatch_def Let_def set_state_def settled_def covered_up_def
    using assms(1,2)
    by (auto simp: wp_simps wp_catching at_key_journal intro!: script_rules wp_emit_other split: sum.split)
      (erule at_key_journal | erule settle | erule some | simp)+
qed

section \<open>What the rest of the script needs of a journal\<close>

locale script_journal =
  fixes sends :: "effect \<Rightarrow> slot option" and c :: "rstate \<Rightarrow> bool"
  assumes no_write: "sends (Wrote es) = None"
    and final: "c Complete" and early: "\<not> c Dispatch_Held"
    and middle: "c Dispatch_Unknown = c Run_Confirmed" "c Dispatch_Intent = c Run_Confirmed"
    and notice_kept: "at_key sends c dp (slot_key s) (Some e) u d st \<Longrightarrow> c Run_Confirmed \<or> u \<Longrightarrow>
      wp (journal sends c dp) (send_notice a s e) (\<lambda>_. journal sends c dp) st"
    and dispatch_kept: "at_key sends c dp (slot_key s) m True d st \<Longrightarrow> en_state e = Dispatch_Intent \<Longrightarrow>
      (\<And>st'. journal sends c dp st' \<Longrightarrow> Q None st') \<Longrightarrow>
      (\<And>e' u' d' st'. at_key sends c dp (slot_key s) (Some e') u' d' st' \<Longrightarrow> c Run_Confirmed \<or> u' \<Longrightarrow>
        en_state e' \<in> {Dispatch_Intent, Dispatch_Unknown, Run_Confirmed} \<Longrightarrow> Q (Some e') st') \<Longrightarrow>
      wp (journal sends c dp) (send_dispatch a s e) Q st"
begin

lemma finish_keeps:
  assumes "at_key sends c dp (slot_key s) (Some e) u d st" "en_state e \<notin> {Notice_Intent, Notice_Unknown} \<Longrightarrow> c Run_Confirmed \<or> u"
  shows "wp (journal sends c dp) (finish_slot a act s e) (\<lambda>_. journal sends c dp) st"
proof (cases "en_state e \<in> {Dispatch_Intent, Dispatch_Unknown}")
  case True
  then show ?thesis
    unfolding finish_slot_def set_state_def
    using assms middle no_write by (auto simp: wp_simps at_key_journal intro!: script_rules)
next
  case False
  then show ?thesis
    unfolding finish_slot_def
    using assms at_key_journal [OF assms(1)] no_write final
    by (auto simp: wp_simps intro!: wp_publish notice_kept)
qed

lemma dispatch_keeps:
  assumes "at_key sends c dp (slot_key s) m True d st"
    and "\<And>st'. journal sends c dp st' \<Longrightarrow> Q None st'"
    and "\<And>e' u' d' st'. at_key sends c dp (slot_key s) (Some e') u' d' st' \<Longrightarrow> c Run_Confirmed \<or> u' \<Longrightarrow>
        en_state e' \<in> {Dispatch_Intent, Dispatch_Unknown, Run_Confirmed} \<Longrightarrow> Q (Some e') st'"
  shows "wp (journal sends c dp) (dispatch a act s runs) Q st"
  unfolding dispatch_def settled_def covered_up_def
  using at_key_journal [OF assms(1)] assms
  by (auto simp: wp_simps intro!: dispatch_kept [OF assms(1)] split: sum.split)

lemma fresh_keeps:
  assumes "at_key sends c dp (slot_key s) m True d st"
  shows "wp (journal sends c dp) (andthen (read_answer (run_listing s (an_runs a))) (\<lambda>runs.
      andthen (dispatch a act s runs) (\<lambda>r. case r of None \<Rightarrow> ok () | Some e \<Rightarrow> finish_slot a act s e))) (\<lambda>_. journal sends c dp) st"
  using at_key_journal [OF assms]
  by (auto simp: wp_simps intro!: dispatch_keeps [OF assms] finish_keeps split: sum.split)

lemma recover_slot_keeps:
  assumes "journal sends c dp st"
  shows "wp (journal sends c dp) (recover_slot a act s) (\<lambda>_. journal sends c dp) st"
proof -
  let ?k = "slot_key s"
  note at = journal_at_key [OF assms, of ?k]
  show ?thesis
  proof (cases "map_of (sc_entries st) ?k")
    case None
    then show ?thesis using fresh_keeps [of dp s None] at by (simp add: recover_slot_def wp_simps Let_def)
  next
    case (Some e)
    note e = at [OF Some]
    consider "en_state e \<in> {Complete, Skipped}" | "en_state e = Dispatch_Held" | "en_state e \<in> {Dispatch_Intent, Dispatch_Unknown}"
      | "en_state e \<in> {Run_Confirmed, Notice_Intent, Notice_Unknown}"
      by (cases "en_state e") auto
    then show ?thesis
    proof cases
      case 1
      then show ?thesis using Some assms by (auto simp: recover_slot_def wp_simps Let_def covered_up_def)
    next
      case 2
      then have u: "at_key sends c dp ?k (Some e) True False st" using e early by simp
      show ?thesis
      proof (cases "due (an_held_clock a) (sl_at s)")
        case True
        then show ?thesis using fresh_keeps [OF u] Some 2 by (simp add: recover_slot_def wp_simps Let_def)
      next
        case False
        then show ?thesis
          using Some 2 u assms no_write
          by (auto simp: recover_slot_def wp_simps Let_def covered_up_def set_state_def intro!: script_rules) (erule at_key_journal | simp)+
      qed
    next
      case 3
      then have u: "c Run_Confirmed \<or> \<not> c (en_state e)" and ns: "en_state e \<notin> {Complete, Skipped}" "en_state e \<noteq> Dispatch_Held"
        using middle by auto
      show ?thesis
      proof (cases "ebind (run_listing s (an_runs a)) (confirm_run e s)")
        case (Inl err)
        then show ?thesis
          using Some ns 3 assms by (auto simp: recover_slot_def wp_simps Let_def ebind_def split: sum.splits)
      next
        case (Inr r)
        then obtain runs where runs: "run_listing s (an_runs a) = Inr runs" "confirm_run e s runs = Inr r"
          by (auto simp: ebind_def split: sum.splits)
        show ?thesis
        proof (cases r)
          case None
          then show ?thesis
            using Some ns 3 runs finish_keeps [of dp s e _ _ st a act] e u by (auto simp: recover_slot_def wp_simps Let_def)
        next
          case (Some e')
          then have "en_state e' = Run_Confirmed" using runs(2) by (auto simp: confirm_run_def Let_def split: list.splits)
          then show ?thesis
            using \<open>map_of (sc_entries st) ?k = Some e\<close> ns 3 runs Some e u no_write
            by (auto simp: recover_slot_def wp_simps Let_def intro!: wp_put wp_save finish_keeps)
        qed
      qed
    next
      case 4
      then have "en_state e \<notin> {Notice_Intent, Notice_Unknown} \<Longrightarrow> c Run_Confirmed \<or> \<not> c (en_state e)" by auto
      then show ?thesis
        using Some 4 assms finish_keeps [of dp s e _ _ st a act] e by (auto simp: recover_slot_def wp_simps Let_def split: sum.split)
    qed
  qed
qed

lemma recover_keeps: "journal sends c dp st \<Longrightarrow> journal sends c dp (fold (recover_one env act) ss st)"
proof (rule fold_invariant [where I = "journal sends c dp"])
  fix s st assume "journal sends c dp st"
  from recover_slot_keeps [OF this, of "env (slot_key s)" act s] show "journal sends c dp (recover_one env act s st)"
    by (auto simp: recover_one_def wp_def count_up_def split: prod.splits sum.splits)
qed

end

text \<open>A journal of what the host has sent: the history of one kind of external write.\<close>

locale once_only = script_journal +
  fixes sent :: "host \<Rightarrow> slot list"
  assumes recorded: "sent (happen x h) = sent h @ (case sends x of None \<Rightarrow> [] | Some s \<Rightarrow> [s])"
begin

definition kept :: "host \<Rightarrow> bool" where
  "kept h \<longleftrightarrow> distinct (map slot_key (sent h)) \<and> list_all (committed_in c (ho_file h)) (map slot_key (sent h))"

lemma happen_audit:
  "audit sends c xs (ho_file h, map slot_key (sent h)) = Some (D, P) \<Longrightarrow>
   ho_file (run_ops happen xs h) = D \<and> map slot_key (sent (run_ops happen xs h)) = P"
proof (induction xs arbitrary: h)
  case (Cons x xs)
  show ?case
  proof (cases x)
    case (Wrote es)
    then show ?thesis using Cons.prems Cons.IH [of "happen x h"] recorded [of x h] no_write by (auto split: if_splits)
  next
    case (Posted s)
    then show ?thesis using Cons.prems Cons.IH [of "happen x h"] recorded [of x h] by (auto split: option.splits if_splits)
  next
    case (Noticed s)
    then show ?thesis using Cons.prems Cons.IH [of "happen x h"] recorded [of x h] by (auto split: option.splits if_splits)
  qed
qed simp

lemma kept_step:
  assumes "kept h"
  shows "kept (host_step r h)"
proof (cases "hr_held r \<or> \<not> ledger_ok (ho_file h)")
  case True
  then show ?thesis using assms by (simp add: host_step_def run_effects_def)
next
  case False
  let ?st = "recover (hr_env r) (hr_act r) (hr_now r) (hr_saves r) (ho_file h)" and ?dp = "(ho_file h, map slot_key (sent h))"
  have "journal sends c ?dp (script_start (ho_file h) (hr_saves r))"
    using assms by (simp add: journal_def kept_def script_start_def)
  then have "journal sends c ?dp ?st" unfolding recover_def by (rule recover_keeps)
  then have "audit sends c (sc_trace ?st) ?dp \<noteq> None" by (auto simp: journal_def)
  then obtain D P where a: "audit sends c (take (hr_cut r) (sc_trace ?st)) ?dp = Some (D, P)" using audit_take by fastforce
  moreover have "distinct P \<and> list_all (committed_in c D) P" using audit_sound [OF a] assms by (simp add: kept_def)
  ultimately show ?thesis using happen_audit [OF a] False by (simp add: kept_def host_step_def run_effects_def)
qed

lemma sent_once: "sent new_host = [] \<Longrightarrow> distinct (map slot_key (sent (run_ops host_step rs new_host)))"
  using run_ops_invariant [where I = kept and step = host_step, OF kept_step, of new_host rs] by (simp add: kept_def)

end

interpretation dj: once_only dispatch_of dispatched ho_posts
proof
  show "dispatch_of (Wrote es) = None" for es by simp
  show "wp (journal dispatch_of dispatched dp) (send_dispatch a s e) Q st"
    if "at_key dispatch_of dispatched dp (slot_key s) m True d st" "en_state e = Dispatch_Intent"
      "\<And>st'. journal dispatch_of dispatched dp st' \<Longrightarrow> Q None st'"
      "\<And>e' u' d' st'. at_key dispatch_of dispatched dp (slot_key s) (Some e') u' d' st' \<Longrightarrow> dispatched Run_Confirmed \<or> u' \<Longrightarrow>
         en_state e' \<in> {Dispatch_Intent, Dispatch_Unknown, Run_Confirmed} \<Longrightarrow> Q (Some e') st'"
    for dp s m d st e Q a
    using that by (intro send_dispatch_dispatched) auto
  show "ho_posts (happen x h) = ho_posts h @ (case dispatch_of x of None \<Rightarrow> [] | Some s \<Rightarrow> [s])" for x h
    by (cases x) auto
qed (auto intro: send_notice_dispatched)

interpretation nj: once_only notice_of noticed ho_notices
proof
  show "notice_of (Wrote es) = None" for es by simp
  show "wp (journal notice_of noticed dp) (send_dispatch a s e) Q st"
    if "at_key notice_of noticed dp (slot_key s) m True d st" "en_state e = Dispatch_Intent"
      "\<And>st'. journal notice_of noticed dp st' \<Longrightarrow> Q None st'"
      "\<And>e' u' d' st'. at_key notice_of noticed dp (slot_key s) (Some e') u' d' st' \<Longrightarrow> noticed Run_Confirmed \<or> u' \<Longrightarrow>
         en_state e' \<in> {Dispatch_Intent, Dispatch_Unknown, Run_Confirmed} \<Longrightarrow> Q (Some e') st'"
    for dp s m d st e Q a
    using that by (intro send_dispatch_noticed) auto
  show "ho_notices (happen x h) = ho_notices h @ (case notice_of x of None \<Rightarrow> [] | Some s \<Rightarrow> [s])" for x h
    by (cases x) auto
qed (auto intro: send_notice_noticed)

text \<open>
  C12: An external write is never repeated.  Over any number of runs of the script, with any answers of
  GitHub (lost responses included), any holds, any failures to write the ledger file and a crash after
  any effect of any run, no slot is dispatched twice and no notice of a slot is sent twice.
\<close>

theorem dispatched_at_most_once:
  "distinct (map slot_key (ho_posts (run_ops host_step rs new_host)))
     \<and> distinct (map slot_key (ho_notices (run_ops host_step rs new_host)))"
  using dj.sent_once [of rs] nj.sent_once [of rs] by (simp add: new_host_def)

end
