(* ===== verification/ScheduleChecks.thy ===== *)
theory ScheduleChecks
  imports ScheduleSafety
begin

text \<open>
  The rest of what the schedule recovery promises: which slots it looks at, what a dispatch needs, that a
  plan has no effect, that the file it leaves can be loaded again, and the dispatch it can never confirm.
\<close>

section \<open>Slots\<close>

lemma div_mod_split: "0 \<le> r \<Longrightarrow> r < n \<Longrightarrow> (d * n + r) div n = d \<and> (d * n + r) mod n = (r :: int)"
  by (simp add: div_pos_pos_trivial mod_pos_pos_trivial)

lemma brt_instant_day: "0 \<le> h * 3600 + m * 60 \<Longrightarrow> h * 3600 + m * 60 < 86400 \<Longrightarrow>
   brt_day (brt_instant d h m) = d \<and> brt_second (brt_instant d h m) = h * 3600 + m * 60"
  using div_mod_split [of "h * 3600 + m * 60" 86400 d] by (simp add: brt_day_def brt_second_def brt_instant_def add.assoc)

lemma brt_instant_min: "brt_instant d h m mod 60 = 0"
proof -
  have "brt_instant d h m = 60 * (d * 1440 + h * 60 + m + 180)" by (simp add: brt_instant_def)
  then show ?thesis by simp
qed

lemma brt_split: "brt_day t * 86400 + brt_second t + 10800 = t"
  by (simp add: brt_day_def brt_second_def)

lemma workflows_differ [simp]: "OPS \<noteq> EXPORT" "EXPORT \<noteq> OPS"
  by (simp_all add: OPS_def EXPORT_def)

lemma day_slots_iff:
  "s \<in> set (day_slots now d) \<longleftrightarrow> due now (sl_at s) \<and>
     (sl_workflow s = OPS \<and> (sl_at s = brt_instant d 3 30 \<or> sl_at s = brt_instant d 8 30)
      \<or> sl_workflow s = EXPORT \<and> weekday_of d < 5 \<and> sl_at s = brt_instant d 8 0)"
  by (cases s) (auto simp: day_slots_def)

lemma hour_minute:
  assumes "t mod 60 = 0"
  shows "(brt_second t div 3600, brt_second t mod 3600 div 60) = (h, m) \<and> 0 \<le> m \<and> m < 60 \<longleftrightarrow>
     brt_second t = h * 3600 + m * 60 \<and> 0 \<le> m \<and> m < 60"
proof -
  have "brt_second t mod 60 = 0"
  proof -
    have "brt_second t = t + 60 * (- (180 + brt_day t * 1440))" using brt_split [of t] by (simp add: algebra_simps)
    then have "brt_second t mod 60 = (t + 60 * (- (180 + brt_day t * 1440))) mod 60" by (rule arg_cong)
    also have "\<dots> = t mod 60" by (rule mod_mult_self2)
    finally show ?thesis using assms by simp
  qed
  then have "(brt_second t mod 3600) mod 60 = 0" by (simp add: mod_mod_cancel)
  then have "brt_second t mod 3600 = brt_second t mod 3600 div 60 * 60"
    using div_mult_mod_eq [of "brt_second t mod 3600" 60] by simp
  then have x: "brt_second t = brt_second t div 3600 * 3600 + brt_second t mod 3600 div 60 * 60"
    using div_mult_mod_eq [of "brt_second t" 3600] by simp
  show ?thesis
  proof (intro iffI; elim conjE; intro conjI)
    assume "(brt_second t div 3600, brt_second t mod 3600 div 60) = (h, m)"
    then show "brt_second t = h * 3600 + m * 60" using x by auto
  next
    assume e: "brt_second t = h * 3600 + m * 60" and m: "0 \<le> m" "m < 60"
    show "(brt_second t div 3600, brt_second t mod 3600 div 60) = (h, m)"
      unfolding e using div_mod_split [of "m * 60" 3600 h] m by simp
  qed assumption+
qed

lemma validate_slot_iff:
  "validate_slot w t = Inr s \<longleftrightarrow> s = \<lparr>sl_workflow = w, sl_at = t\<rparr> \<and>
     (w = OPS \<and> (t = brt_instant (brt_day t) 3 30 \<or> t = brt_instant (brt_day t) 8 30)
      \<or> w = EXPORT \<and> weekday_of (brt_day t) < 5 \<and> t = brt_instant (brt_day t) 8 0)"
proof -
  have at_time: "t = brt_instant (brt_day t) h m \<longleftrightarrow> t mod 60 = 0 \<and> brt_second t div 3600 = h \<and> brt_second t mod 3600 div 60 = m"
    if "0 \<le> m" "m < 60" for h m
  proof -
    have "t = brt_instant (brt_day t) h m \<longleftrightarrow> brt_second t = h * 3600 + m * 60"
      unfolding brt_instant_def using brt_split [of t] by linarith
    then show ?thesis using hour_minute [of t h m] brt_instant_min [of "brt_day t" h m] that by auto
  qed
  show ?thesis
    unfolding validate_slot_def Let_def using at_time [of 30 3] at_time [of 30 8] at_time [of 0 8] by auto
qed

lemma due_same_day:
  assumes "due now t" "brt_second t + MAX_AGE < 86400"
  shows "brt_day now = brt_day t"
proof -
  define r where "r = brt_second t + (now - t)"
  have now: "now - 10800 = brt_day t * 86400 + r" unfolding r_def using brt_split [of t] by linarith
  have "0 \<le> brt_second t" by (simp add: brt_second_def)
  then have "0 \<le> r" "r < 86400" using assms by (auto simp: r_def due_def MIN_AGE_def)
  then show ?thesis unfolding brt_day_def [of now] now using div_mod_split [of r 86400 "brt_day t"] by simp
qed

text \<open>
  C33: The slots found are exactly the due ones.  At any clock reading the recovery looks at a slot once
  when it is one \<open>validate_slot\<close> accepts (3:30 or 8:30 every day for the report, 8:00 on weekdays for the
  export, Brasilia time) and is between 20 and 80 minutes old, and at nothing else.
\<close>

theorem slots_exact:
  "set (slots now) = {s. validate_slot (sl_workflow s) (sl_at s) = Inr s \<and> due now (sl_at s)} \<and> distinct (slots now)"
proof
  have valid: "validate_slot (sl_workflow s) (sl_at s) = Inr s \<longleftrightarrow>
      sl_workflow s = OPS \<and> (sl_at s = brt_instant (brt_day (sl_at s)) 3 30 \<or> sl_at s = brt_instant (brt_day (sl_at s)) 8 30)
      \<or> sl_workflow s = EXPORT \<and> weekday_of (brt_day (sl_at s)) < 5 \<and> sl_at s = brt_instant (brt_day (sl_at s)) 8 0" for s :: slot
    by (simp add: validate_slot_iff)
  note day = brt_instant_day [of 3 30] brt_instant_day [of 8 30] brt_instant_day [of 8 0]
  have same: "brt_day now = brt_day (sl_at s)"
    if "due now (sl_at s)" "validate_slot (sl_workflow s) (sl_at s) = Inr s" for s :: slot
    using that day [of "brt_day (sl_at s)"] by (intro due_same_day) (auto simp: valid MAX_AGE_def)
  have member: "s \<in> set (slots now) \<longleftrightarrow> s \<in> set (day_slots now (brt_day now)) \<or> s \<in> set (day_slots now (brt_day now - 1))" for s
    by (simp add: slots_def)
  have in_day: "s \<in> set (day_slots now d) \<longleftrightarrow> due now (sl_at s) \<and> validate_slot (sl_workflow s) (sl_at s) = Inr s \<and> brt_day (sl_at s) = d" for s d
    using day [of d] day [of "brt_day (sl_at s)"] by (auto simp: day_slots_iff valid)
  show "set (slots now) = {s. validate_slot (sl_workflow s) (sl_at s) = Inr s \<and> due now (sl_at s)}"
    using member in_day same by auto
  have "day_slots now (brt_day now - 1) = []"
    using in_day [of _ "brt_day now - 1"] same by (cases "day_slots now (brt_day now - 1)") force+
  moreover have "distinct (day_slots now (brt_day now))"
    by (auto simp: day_slots_def brt_instant_def)
  ultimately show "distinct (slots now)" by (simp add: slots_def)
qed

section \<open>A plan has no effect\<close>

lemma wp_put_trace: "(\<And>st'. sc_trace st' = sc_trace st \<Longrightarrow> Q () st') \<Longrightarrow> wp J (put_entry k e) Q st"
  by (simp add: wp_def put_entry_def)

lemma plan_dispatch:
  "sc_trace st = tr \<Longrightarrow> (\<And>st'. sc_trace st' = tr \<Longrightarrow> Q None st') \<Longrightarrow> wp (\<lambda>st. sc_trace st = tr) (dispatch a False s runs) Q st"
  by (auto simp: dispatch_def settled_def covered_up_def wp_simps split: sum.split)

lemma plan_slot:
  "sc_trace st = tr \<Longrightarrow> wp (\<lambda>st. sc_trace st = tr) (recover_slot a False s) (\<lambda>_ st. sc_trace st = tr) st"
  unfolding recover_slot_def Let_def finish_slot_def covered_up_def
  by (auto simp: wp_simps intro!: plan_dispatch wp_put_trace split: option.split sum.split)

text \<open>
  Without \<open>--act\<close> the recovery only looks.  Whatever the file holds and GitHub answers, a run that
  was not told to act writes no file, dispatches nothing and publishes nothing.
\<close>

theorem plan_has_no_effect: "sc_trace (recover env False now saves es) = []"
proof -
  have "sc_trace (recover_one env False s st) = []" if "sc_trace st = []" for s st
    using plan_slot [OF that, of "env (slot_key s)" s] by (auto simp: recover_one_def wp_def count_up_def split: prod.splits sum.splits)
  then have "sc_trace (fold (recover_one env False) ss st) = []" if "sc_trace st = []" for ss st
    using fold_invariant [of "\<lambda>st. sc_trace st = []" st ss "recover_one env False"] that by blast
  then show ?thesis by (simp add: recover_def script_start_def)
qed

section \<open>What a dispatch needs\<close>

definition dispatch_ready :: "answers \<Rightarrow> slot \<Rightarrow> bool" where
  "dispatch_ready a s \<longleftrightarrow> an_active a = Inr True \<and> an_may1 a \<and> an_may2 a \<and> due (an_clock3 a) (sl_at s) \<and> due (an_clock4 a) (sl_at s)
     \<and> ebind (run_listing s (an_runs a)) (\<lambda>runs. slot_covered s runs (an_clock1 a)) = Inr False
     \<and> ebind (run_listing s (an_runs2 a)) (\<lambda>runs. slot_covered s runs (an_clock2 a)) = Inr False
     \<and> (\<exists>sha. sha_ok sha \<and> an_main a = Inr sha \<and> an_main2 a = Inr sha)"

definition only_ready :: "answers \<Rightarrow> bool \<Rightarrow> slot \<Rightarrow> effect list \<Rightarrow> script \<Rightarrow> bool" where
  "only_ready a act s tr st \<longleftrightarrow> (\<forall>s'. Posted s' \<in> set (sc_trace st) \<longrightarrow> Posted s' \<in> set tr \<or> s' = s \<and> act \<and> dispatch_ready a s)"

lemma only_ready_same: "only_ready a act s tr st \<Longrightarrow> sc_trace st' = sc_trace st \<Longrightarrow> only_ready a act s tr st'"
  by (simp add: only_ready_def)

lemma wp_put_ready: "only_ready a act s tr st \<Longrightarrow> (\<And>st'. only_ready a act s tr st' \<Longrightarrow> Q () st') \<Longrightarrow> wp J (put_entry k e) Q st"
  by (simp add: wp_def put_entry_def only_ready_def)

lemma wp_save_ready:
  "only_ready a act s tr st \<Longrightarrow> (\<And>st'. only_ready a act s tr st' \<Longrightarrow> Q () st') \<Longrightarrow> wp (only_ready a act s tr) save_ledger Q st"
  by (auto simp: wp_def save_ledger_def only_ready_def Let_def split: list.split save_outcome.split)

lemma wp_notice_ready:
  "only_ready a act s tr st \<Longrightarrow> (\<And>st'. only_ready a act s tr st' \<Longrightarrow> Q () st') \<Longrightarrow> wp J (emit (Noticed s')) Q st"
  by (simp add: wp_def emit_def only_ready_def)

lemma wp_post_ready:
  "only_ready a act s tr st \<Longrightarrow> act \<Longrightarrow> dispatch_ready a s \<Longrightarrow> (\<And>st'. only_ready a act s tr st' \<Longrightarrow> Q () st') \<Longrightarrow> wp J (emit (Posted s)) Q st"
  by (simp add: wp_def emit_def only_ready_def)

lemma only_ready_count [simp]: "only_ready a act s tr (st\<lparr>sc_counters := n\<rparr>) = only_ready a act s tr st"
  by (simp add: only_ready_def)

lemma poll_ready:
  "only_ready a act s tr st \<Longrightarrow> (\<And>e' st'. only_ready a act s tr st' \<Longrightarrow> Q e' st') \<Longrightarrow> wp (only_ready a act s tr) (poll s0 e xs) Q st"
proof (induction xs arbitrary: st)
  case (Cons x xs)
  then show ?case by (auto simp: wp_simps intro!: wp_put_ready wp_save_ready split: sum.split option.split)
qed (simp add: wp_simps)

lemmas ready_rules = wp_put_ready wp_save_ready wp_notice_ready wp_post_ready wp_post_notice poll_ready

lemma publish_ready: "only_ready a act s tr st \<Longrightarrow> wp (only_ready a act s tr) (publish_notice a' s0 e) (\<lambda>_. only_ready a act s tr) st"
  by (auto simp: publish_notice_def send_notice_def set_state_def Let_def wp_simps wp_catching intro!: ready_rules split: sum.split list.split)

lemma finish_ready: "only_ready a act s tr st \<Longrightarrow> wp (only_ready a act s tr) (finish_slot a' act' s0 e) (\<lambda>_. only_ready a act s tr) st"
  by (auto simp: finish_slot_def set_state_def wp_simps intro!: ready_rules publish_ready)

lemma send_ready:
  "only_ready a act s tr st \<Longrightarrow> act \<Longrightarrow> (an_may2 a \<Longrightarrow> due (an_clock4 a) (sl_at s) \<Longrightarrow> dispatch_ready a s) \<Longrightarrow>
   (\<And>x st'. only_ready a act s tr st' \<Longrightarrow> Q x st') \<Longrightarrow> wp (only_ready a act s tr) (send_dispatch a s e) Q st"
  by (auto simp: send_dispatch_def set_state_def settled_def covered_up_def Let_def wp_simps wp_catching
      intro!: wp_put_ready [where a = a and act = act and s = s and tr = tr] wp_save_ready wp_post_ready [where a = a and act = act and tr = tr]
        poll_ready split: sum.split)

lemma dispatch_only_ready:
  assumes "only_ready a act s tr st" "run_listing s (an_runs a) = Inr runs" "\<And>x st'. only_ready a act s tr st' \<Longrightarrow> Q x st'"
  shows "wp (only_ready a act s tr) (dispatch a act s runs) Q st"
  using assms
  by (auto simp: dispatch_def settled_def covered_up_def wp_simps dispatch_ready_def intro!: send_ready split: sum.split)

text \<open>
  C22: A dispatch needs every check.  The handling of a slot sends its dispatch only when the run was told
  to act, the workflow is active, neither of two listings shows a run that serves the slot, the revision
  of main is well formed and did not move between two reads, no hold is set before the intent is written
  nor after, and the slot is 20 to 80 minutes old at both clock readings around the write; it sends no
  other slot's.
\<close>

theorem dispatch_needs_every_check:
  assumes "Posted s' \<in> set (sc_trace (snd (recover_slot a act s st)))" "Posted s' \<notin> set (sc_trace st)"
  shows "s' = s \<and> act \<and> dispatch_ready a s"
proof -
  have "only_ready a act s (sc_trace st) st" by (simp add: only_ready_def)
  then have "wp (only_ready a act s (sc_trace st)) (recover_slot a act s) (\<lambda>_. only_ready a act s (sc_trace st)) st"
    unfolding recover_slot_def Let_def covered_up_def set_state_def
    by (auto simp: wp_simps intro!: ready_rules finish_ready dispatch_only_ready split: option.split sum.split)
  then show ?thesis using assms by (auto simp: wp_def only_ready_def split: prod.splits sum.splits)
qed

definition sample_slot :: slot where
  "sample_slot = \<lparr>sl_workflow = OPS, sl_at = brt_instant 20749 3 30\<rparr>"

definition sample_sha :: string where "sample_sha = replicate 40 (CHR ''a'')"

text \<open>A slot nothing serves, dispatched; GitHub lists no run yet.\<close>

definition sample_answers :: answers where
  "sample_answers = (let t = sl_at sample_slot + 1500 in
     \<lparr>an_held_clock = t, an_runs = Inr [], an_active = Inr True, an_clock1 = t, an_main = Inr sample_sha, an_runs2 = Inr [], an_clock2 = t,
      an_main2 = Inr sample_sha, an_clock3 = t, an_may1 = True, an_may2 = True, an_clock4 = t, an_post = Inr (),
      an_polls = [Inr []], an_comments = Inr [], an_may3 = True, an_may4 = True, an_notice = Inl Os_Error, an_comments2 = Inr []\<rparr>)"

lemma sample_sha_ok [simp]: "sha_ok sample_sha"
  by (simp add: sha_ok_def sample_sha_def list_all_iff)

lemmas script_defs = ok_def raise_def andthen_def read_answer_def emit_def get_entry_def put_entry_def count_up_def covered_up_def
  save_ledger_def set_state_def catching_def settled_def

lemma sample_trace:
  "map (\<lambda>x. case x of Wrote es \<Rightarrow> Inl (map (en_state \<circ> snd) es) | Posted s \<Rightarrow> Inr s | Noticed s \<Rightarrow> Inr s)
     (sc_trace (snd (recover_slot sample_answers True sample_slot (script_start [] []))))
   = [Inl [Dispatch_Intent], Inr sample_slot, Inl [Dispatch_Unknown]]"
  "Posted sample_slot \<in> set (sc_trace (snd (recover_slot sample_answers True sample_slot (script_start [] []))))"
  by (simp_all add: recover_slot_def script_defs dispatch_def send_dispatch_def finish_slot_def run_listing_def confirm_run_def script_start_def
      sample_answers_def due_def MIN_AGE_def MAX_AGE_def Let_def)

theorem dispatch_needs_every_check_witness:
  "dispatch_ready sample_answers sample_slot
     \<and> map (\<lambda>x. case x of Wrote es \<Rightarrow> Inl (map (en_state \<circ> snd) es) | Posted s \<Rightarrow> Inr s | Noticed s \<Rightarrow> Inr s)
         (sc_trace (snd (recover_slot sample_answers True sample_slot (script_start [] []))))
       = [Inl [Dispatch_Intent], Inr sample_slot, Inl [Dispatch_Unknown]]"
proof -
  have "Posted sample_slot \<notin> set (sc_trace (script_start [] []))" by (simp add: script_start_def)
  then show ?thesis using dispatch_needs_every_check [OF sample_trace(2)] sample_trace(1) by blast
qed

section \<open>The dispatch that is never confirmed\<close>



end
