(* ===== verification/ScheduleFile.thy ===== *)
theory ScheduleFile
  imports ScheduleChecks
begin

text \<open>The ledger file of the schedule recovery stays loadable, whatever answers, file errors and crashes occur.\<close>

section \<open>The file stays loadable\<close>

definition file_ok :: "entries \<Rightarrow> bool" where
  "file_ok es \<longleftrightarrow> distinct (map fst es) \<and> list_all entry_ok es"

definition files_ok :: "script \<Rightarrow> bool" where
  "files_ok st \<longleftrightarrow> file_ok (sc_entries st) \<and> (\<forall>es. Wrote es \<in> set (sc_trace st) \<longrightarrow> file_ok es)"

lemma file_update: "file_ok es \<Longrightarrow> entry_ok (k, e) \<Longrightarrow> file_ok (AList.update k e es)"
proof -
  have "list_all entry_ok es \<Longrightarrow> entry_ok (k, e) \<Longrightarrow> list_all entry_ok (AList.update k e es)"
    by (induction es) auto
  then show "file_ok es \<Longrightarrow> entry_ok (k, e) \<Longrightarrow> ?thesis" by (simp add: file_ok_def distinct_update)
qed

lemma file_entry: "file_ok es \<Longrightarrow> map_of es k = Some e \<Longrightarrow> entry_ok (k, e)"
  by (auto simp: file_ok_def list_all_iff dest: map_of_SomeD)

definition run_known :: "rstate \<Rightarrow> bool" where
  "run_known st \<longleftrightarrow> st \<in> {Run_Confirmed, Notice_Intent, Notice_Unknown, Complete}"

lemma run_known_simps [simp]:
  "run_known Run_Confirmed" "run_known Notice_Intent" "run_known Notice_Unknown" "run_known Complete"
  "\<not> run_known Dispatch_Held" "\<not> run_known Skipped" "\<not> run_known Dispatch_Intent" "\<not> run_known Dispatch_Unknown"
  by (simp_all add: run_known_def)

lemma entry_ok_iff:
  "entry_ok (k, e) \<longleftrightarrow> en_workflow e \<in> set retired_workflows \<or> (\<exists>s. validate_slot (en_workflow e) (en_slot e) = Inr s \<and> k = slot_key s
     \<and> sha_ok (en_sha e) \<and> 0 \<le> en_before e \<and> (run_known (en_state e) \<longrightarrow> (\<exists>i. en_run e = Some i \<and> en_before e < i)))"
  by (simp add: entry_ok_def run_known_def split: sum.split option.split)

lemma entry_state:
  "entry_ok (k, e) \<Longrightarrow> \<not> run_known x \<or> run_known (en_state e) \<Longrightarrow> entry_ok (k, e\<lparr>en_state := x\<rparr>)"
  "entry_ok (k, e) \<Longrightarrow> \<not> run_known x \<or> run_known (en_state e) \<Longrightarrow> entry_ok (k, e\<lparr>en_state := x, en_comment := y\<rparr>)"
  by (auto simp: entry_ok_iff)

lemma confirm_ok:
  assumes "confirm_run e s runs = Inr (Some e')" "entry_ok (k, e)"
  shows "entry_ok (k, e') \<and> en_state e' = Run_Confirmed"
proof -
  obtain r where r: "filter (\<lambda>r. en_before e < rn_id r \<and> rn_event r = ''workflow_dispatch'' \<and> contains (slot_tag s) (rn_title r)
        \<and> rn_sha r = en_sha e \<and> en_attempted e - 5 \<le> rn_created r) runs = [r]"
    and e': "e' = e\<lparr>en_state := Run_Confirmed, en_run := Some (rn_id r)\<rparr>"
    using assms(1) by (auto simp: confirm_run_def Let_def split: list.splits)
  have "r \<in> set (filter (\<lambda>r. en_before e < rn_id r \<and> rn_event r = ''workflow_dispatch'' \<and> contains (slot_tag s) (rn_title r)
        \<and> rn_sha r = en_sha e \<and> en_attempted e - 5 \<le> rn_created r) runs)" unfolding r by simp
  then have "en_before e < rn_id r" by simp
  then show ?thesis using assms(2) e' by (auto simp: entry_ok_def split: sum.splits)
qed

lemma files_count [simp]: "files_ok (st\<lparr>sc_counters := n\<rparr>) = files_ok st"
  by (simp add: files_ok_def)

lemma wp_put_file: "files_ok st \<Longrightarrow> entry_ok (k, e) \<Longrightarrow> (\<And>st'. files_ok st' \<Longrightarrow> Q () st') \<Longrightarrow> wp J (put_entry k e) Q st"
  by (simp add: wp_def put_entry_def files_ok_def file_update)

lemma wp_save_file: "files_ok st \<Longrightarrow> (\<And>st'. files_ok st' \<Longrightarrow> Q () st') \<Longrightarrow> wp files_ok save_ledger Q st"
  by (auto simp: wp_def save_ledger_def files_ok_def Let_def split: list.split save_outcome.split)

lemma wp_emit_file:
  "files_ok st \<Longrightarrow> (\<And>st'. files_ok st' \<Longrightarrow> Q () st') \<Longrightarrow> wp J (emit (Posted s)) Q st"
  "files_ok st \<Longrightarrow> (\<And>st'. files_ok st' \<Longrightarrow> Q () st') \<Longrightarrow> wp J (emit (Noticed s)) Q st"
  by (auto simp: wp_def emit_def files_ok_def)

lemma wp_poll_file:
  assumes "files_ok st" "entry_ok (slot_key s, e)"
    and "\<And>e' st'. files_ok st' \<Longrightarrow> entry_ok (slot_key s, e') \<Longrightarrow> en_state e' = en_state e \<or> en_state e' = Run_Confirmed \<Longrightarrow> Q e' st'"
  shows "wp files_ok (poll s e xs) Q st"
  using assms(1)
proof (induction xs)
  case (Cons x xs)
  show ?case
  proof (cases "ebind (run_listing s x) (confirm_run e s)")
    case (Inr found)
    show ?thesis
    proof (cases found)
      case (Some e')
      then have "confirm_run e s runs = Inr (Some e')" if "run_listing s x = Inr runs" for runs using Inr that by simp
      then have "entry_ok (slot_key s, e') \<and> en_state e' = Run_Confirmed"
        using Inr confirm_ok [OF _ assms(2)] by (cases "run_listing s x") auto
      then show ?thesis
        using Cons.prems Inr Some by (auto simp: wp_simps intro!: wp_put_file wp_save_file assms(3))
    qed (use Cons Inr in \<open>simp add: wp_simps\<close>)
  qed (use Cons.prems in \<open>simp add: wp_simps\<close>)
qed (use assms in \<open>simp add: wp_simps\<close>)

lemmas file_rules = wp_put_file wp_save_file wp_emit_file wp_post_notice wp_poll_file entry_state

lemma publish_file:
  "files_ok st \<Longrightarrow> entry_ok (slot_key s, e) \<Longrightarrow> run_known (en_state e) \<Longrightarrow> wp files_ok (publish_notice a s e) (\<lambda>_. files_ok) st"
  by (auto simp: publish_notice_def send_notice_def set_state_def Let_def wp_simps wp_catching intro!: file_rules split: sum.split list.split)

lemma finish_file:
  "files_ok st \<Longrightarrow> entry_ok (slot_key s, e) \<Longrightarrow> run_known (en_state e) \<or> en_state e \<in> {Dispatch_Intent, Dispatch_Unknown} \<Longrightarrow>
   wp files_ok (finish_slot a act s e) (\<lambda>_. files_ok) st"
  by (auto simp: finish_slot_def set_state_def wp_simps intro!: file_rules publish_file)

lemma dispatch_file:
  assumes "files_ok st" "validate_slot (sl_workflow s) (sl_at s) = Inr s" "\<And>st'. files_ok st' \<Longrightarrow> Q None st'"
    and "\<And>e st'. files_ok st' \<Longrightarrow> entry_ok (slot_key s, e) \<Longrightarrow> en_state e \<in> {Run_Confirmed, Dispatch_Intent, Dispatch_Unknown} \<Longrightarrow> Q (Some e) st'"
  shows "wp files_ok (dispatch a act s runs) Q st"
proof -
  have send: "wp files_ok (send_dispatch a s e) Q st'" if "files_ok st'" "entry_ok (slot_key s, e)" "en_state e = Dispatch_Intent" for e st'
    using that assms(3)
    by (auto simp: send_dispatch_def set_state_def settled_def covered_up_def Let_def wp_simps wp_catching
        intro!: file_rules assms(4) split: sum.split)
  have "0 \<le> fold max xs (0 :: int)" for xs
  proof -
    have "n \<le> fold max xs n" for n :: int by (induction xs arbitrary: n) (auto intro: order_trans [OF max.cobounded2])
    then show ?thesis .
  qed
  then have new: "entry_ok (slot_key s, \<lparr>en_workflow = sl_workflow s, en_slot = sl_at s, en_state = Dispatch_Intent, en_attempted = t,
      en_sha = sha, en_before = fold max xs 0, en_run = None, en_comment = None\<rparr>)" if "sha_ok sha" for t sha xs
    using assms(2) that by (simp add: entry_ok_def)
  show ?thesis
    using assms(1,3) new
    by (auto simp: dispatch_def settled_def covered_up_def wp_simps intro!: send split: sum.split)
qed

lemma slot_file:
  assumes "files_ok st" "validate_slot (sl_workflow s) (sl_at s) = Inr s"
  shows "wp files_ok (recover_slot a act s) (\<lambda>_. files_ok) st"
proof -
  have e: "entry_ok (slot_key s, e)" if "map_of (sc_entries st) (slot_key s) = Some e" for e
    using assms(1) that file_entry by (auto simp: files_ok_def)
  have fresh: "wp files_ok (dispatch a b s runs) (\<lambda>r. wp files_ok (case r of None \<Rightarrow> ok () | Some e \<Rightarrow> finish_slot a b s e) (\<lambda>_. files_ok)) st" for b runs
    by (rule dispatch_file [OF assms]) (auto simp: wp_simps intro!: finish_file)
  show ?thesis
  proof (cases "map_of (sc_entries st) (slot_key s)")
    case None
    then show ?thesis using fresh assms(1) by (auto simp: recover_slot_def wp_simps Let_def split: sum.split)
  next
    case (Some x)
    note ex = e [OF Some]
    show ?thesis
      using Some ex fresh assms(1) confirm_ok [OF _ ex]
      by (cases "en_state x")
        (auto simp: recover_slot_def wp_simps Let_def covered_up_def set_state_def intro!: file_rules finish_file split: sum.split option.split)
  qed
qed

text \<open>Every candidate is a valid slot.\<close>

lemma slots_valid: "s \<in> set (slots now) \<Longrightarrow> validate_slot (sl_workflow s) (sl_at s) = Inr s"
  using brt_instant_day [of 3 30] brt_instant_day [of 8 30] brt_instant_day [of 8 0]
  by (auto simp: slots_def day_slots_iff validate_slot_iff)

lemma set_update_subset: "snd ` set (AList.update k v m) \<subseteq> insert v (snd ` set m)"
  by (induction m) auto

lemma fold_update_values:
  "snd ` set (fold (\<lambda>s m. AList.update (f s) s m) xs m) \<subseteq> set xs \<union> snd ` set m"
proof (induction xs arbitrary: m)
  case (Cons x xs)
  show ?case using Cons [of "AList.update (f x) x m"] set_update_subset [of "f x" x m] by auto
qed simp

lemma candidates_valid:
  assumes "file_ok es" "s \<in> set (candidates now es)"
  shows "validate_slot (sl_workflow s) (sl_at s) = Inr s"
proof -
  let ?open = "map (\<lambda>(k, e). \<lparr>sl_workflow = en_workflow e, sl_at = en_slot e\<rparr>)
     (filter (\<lambda>(k, e). en_state e \<notin> {Complete, Skipped} \<and> en_workflow e \<notin> set retired_workflows) es)"
  have "s \<in> set (slots now @ ?open)"
    using assms(2) fold_update_values [of slot_key "slots now @ ?open" "[]"] unfolding candidates_def by (auto simp only: set_map list.set image_empty Un_empty_right)
  then have "s \<in> set (slots now) \<or> (\<exists>k e. (k, e) \<in> set es \<and> en_workflow e \<notin> set retired_workflows \<and> s = \<lparr>sl_workflow = en_workflow e, sl_at = en_slot e\<rparr>)"
    by auto
  then show ?thesis
  proof (elim disjE exE conjE)
    fix k e
    assume "(k, e) \<in> set es" "en_workflow e \<notin> set retired_workflows" and s: "s = \<lparr>sl_workflow = en_workflow e, sl_at = en_slot e\<rparr>"
    then obtain v where "validate_slot (en_workflow e) (en_slot e) = Inr v"
      using assms(1) entry_ok_iff [of k e] by (auto simp: file_ok_def list_all_iff)
    then show ?thesis using s by (simp add: validate_slot_iff)
  qed (rule slots_valid)
qed

lemma recover_files:
  assumes "file_ok es"
  shows "files_ok (recover env act now saves es)"
proof -
  have "files_ok (recover_one env act s st)" if "files_ok st" "validate_slot (sl_workflow s) (sl_at s) = Inr s" for s st
    using slot_file [OF that, of "env (slot_key s)" act] by (auto simp: recover_one_def wp_def count_up_def split: prod.splits sum.splits)
  then have keeps: "files_ok (fold (recover_one env act) ss st)"
    if "files_ok st" "\<And>s. s \<in> set ss \<Longrightarrow> validate_slot (sl_workflow s) (sl_at s) = Inr s" for ss st
    using that by (induction ss arbitrary: st) simp_all
  have "files_ok (script_start es saves)" using assms by (simp add: files_ok_def script_start_def)
  then show ?thesis unfolding recover_def by (rule keeps) (rule candidates_valid [OF assms])
qed

lemma happen_files: "file_ok (ho_file h) \<Longrightarrow> \<forall>es. Wrote es \<in> set xs \<longrightarrow> file_ok es \<Longrightarrow> file_ok (ho_file (run_ops happen xs h))"
proof (induction xs arbitrary: h)
  case (Cons x xs)
  show ?case using Cons by (cases x) auto
qed simp


end
