(* ===== verification/CashYield.thy ===== *)
theory CashYield
  imports Prelude PyDate "HOL-Library.AList"
begin

text \<open>
  \<open>r2d2_cash_yield.py\<close>: the synthetic T-bill interest of the paper book's cash.  The Treasury feed as rows
  of named texts, the accrual factor, the closing cash of \<open>r2d2_lab_live.py\<close> it accrues on, and a run of
  the service cut at its sessions, so that runs of several processes interleave.  Dates are ordinals,
  instants microseconds since ordinal 0 (UTC); the exchange calendar, the digests and the feed's answers
  are inputs.  The append-only table keeps the values given to it.
\<close>

section \<open>The Treasury feed\<close>

datatype pending_reason =
    Snapshot_Missing
  | Not_Yet_Published
  | Not_Yet_Causal
  | Observation_Absent

datatype yield_error =
    Data_Fault string
  | Pending_Data pending_reason
  | Value_Error
  | Unreachable_Source

text \<open>One \<open>properties\<close> element: local names and stripped texts; a later name overrides an earlier one.\<close>

type_synonym feed_row = "(string \<times> string) list"

text \<open>What a fetch answers: nothing, a text that is no XML, or its rows.\<close>

datatype feed_answer = Unreachable | Bad_Xml | Feed "feed_row list"

definition feed_text :: "feed_row \<Rightarrow> string \<Rightarrow> string option" where
  "feed_text row k = map_of (rev row) k"

definition day_us :: int where "day_us = 86400000000"
definition stale_days :: int where "stale_days = 4"

definition available_after_day :: "int \<Rightarrow> int" where
  "available_after_day d = (d + 1) * day_us"

record feed_scan =
  fs_matches :: "pyfloat list"
  fs_later :: bool
  fs_rows :: nat

definition row_date :: "feed_row \<Rightarrow> int option" where
  "row_date row = date_fromisoformat (take 10 (case feed_text row ''INDEX_DATE'' of None \<Rightarrow> [] | Some t \<Rightarrow> t))"

definition row_rate :: "feed_row \<Rightarrow> pyfloat option" where
  "row_rate row = Option.bind (feed_text row ''ROUND_B1_YIELD_13WK_2'') (\<lambda>t. map_option (\<lambda>x. fdiv x (Fin 100)) (parse_float t))"

definition scan_row :: "int \<Rightarrow> feed_row \<Rightarrow> feed_scan \<Rightarrow> yield_error + feed_scan" where
  "scan_row obs row st =
     (case row_date row of
        None \<Rightarrow> Inr st
      | Some d \<Rightarrow>
          let st = st\<lparr>fs_rows := Suc (fs_rows st)\<rparr> in
          if d \<noteq> obs then Inr (st\<lparr>fs_later := fs_later st \<or> obs < d\<rparr>)
          else case row_rate row of
                 None \<Rightarrow> Inl (Data_Fault ''Treasury row lacks 13-week Coupon Equivalent'')
               | Some r \<Rightarrow>
                   if flt r (Fin 0) then Inl (Data_Fault ''Treasury 13-week Coupon Equivalent is negative'')
                   else Inr (st\<lparr>fs_matches := fs_matches st @ [r]\<rparr>))"

definition scan_start :: feed_scan where
  "scan_start = \<lparr>fs_matches = [], fs_later = False, fs_rows = 0\<rparr>"

text \<open>What the counts allow: one observation, on time and available; early January may be empty.\<close>

definition judge_scan :: "int \<Rightarrow> int \<Rightarrow> feed_scan \<Rightarrow> yield_error + pyfloat" where
  "judge_scan obs fetched st =
     (let recent = fetched div day_us - stale_days \<le> obs in
      if fs_rows st = 0 \<and> \<not> (fst (snd (civil_of obs)) = 1 \<and> recent) then Inl (Data_Fault ''Treasury feed has no dated rows'')
      else if fs_matches st = [] \<and> \<not> fs_later st \<and> \<not> recent then Inl (Data_Fault ''Treasury feed is stale'')
      else case fs_matches st of
             [] \<Rightarrow> Inl (Pending_Data (if fs_later st then Observation_Absent else Not_Yet_Published))
           | [r] \<Rightarrow> if fetched < available_after_day obs then Inl (Pending_Data Not_Yet_Causal) else Inr r
           | _ \<Rightarrow> Inl (Data_Fault ''Expected one Treasury observation''))"

record rate_package =
  rp_observation :: int
  rp_rate :: pyfloat
  rp_available :: int
  rp_fetched :: int

text \<open>\<open>_canonical_sha256\<close> raises \<open>ValueError\<close> on a number JSON has no text for.\<close>

definition canonical :: "pyfloat list \<Rightarrow> 'a \<Rightarrow> yield_error + 'a" where
  "canonical numbers x = (if list_all finite_float numbers then Inr x else Inl Value_Error)"

definition parse_treasury_bill_xml :: "feed_answer \<Rightarrow> int \<Rightarrow> int \<Rightarrow> yield_error + rate_package" where
  "parse_treasury_bill_xml feed obs fetched =
     (case feed of
        Unreachable \<Rightarrow> Inl Unreachable_Source
      | Bad_Xml \<Rightarrow> Inl (Data_Fault ''Treasury bill feed returned invalid XML'')
      | Feed rows \<Rightarrow>
          ebind (efold (scan_row obs) rows scan_start) (\<lambda>st.
          ebind (judge_scan obs fetched st) (\<lambda>r.
          canonical [r] \<lparr>rp_observation = obs, rp_rate = r, rp_available = available_after_day obs, rp_fetched = fetched\<rparr>)))"

section \<open>The accrual factor\<close>

definition year_of :: "int \<Rightarrow> int" where "year_of d = fst (civil_of d)"
definition year_length :: "int \<Rightarrow> int" where "year_length y = (if leap y then 366 else 365)"

definition new_year :: "int \<Rightarrow> int" where "new_year y = ordinal y 1 1"

text \<open>The civil year of an ordinal spans it.\<close>

lemma year_of_spans: "new_year (year_of d) \<le> d \<and> d < new_year (year_of d + 1)"
proof -
  define n where "n = d - 1"
  define a where "a = n div 146097"
  define n1 where "n1 = n mod 146097"
  define b where "b = n1 div 36524"
  define n2 where "n2 = n1 mod 36524"
  define c where "c = n2 div 1461"
  define n3 where "n3 = n2 mod 1461"
  define e where "e = n3 div 365"
  define r where "r = n3 mod 365"
  have y: "year_of d = (if e = 4 \<or> b = 4 then a * 400 + b * 100 + c * 4 + e else a * 400 + 1 + b * 100 + c * 4 + e)"
    unfolding year_of_def civil_of_def Let_def
    by (simp add: n_def a_def n1_def b_def n2_def c_def n3_def e_def r_def)
  have split: "n = 146097 * a + n1" "n1 = 36524 * b + n2" "n2 = 1461 * c + n3" "n3 = 365 * e + r"
    by (simp_all add: a_def n1_def b_def n2_def c_def n3_def e_def r_def)
  have bounds: "0 \<le> n1" "n1 < 146097" "0 \<le> n2" "n2 < 36524" "0 \<le> n3" "n3 < 1461" "0 \<le> r" "r < 365"
    by (simp_all add: n1_def n2_def n3_def r_def)
  have small: "0 \<le> b" "b \<le> 4" "0 \<le> c" "c \<le> 24" "0 \<le> e" "e \<le> 4"
    using bounds split by linarith+
  have four: "b = 4 \<Longrightarrow> n2 = 0 \<and> c = 0 \<and> e = 0 \<and> r = 0" "e = 4 \<Longrightarrow> r = 0"
    using bounds split small by linarith+
  have days: "new_year (p + 1) = 365 * p + p div 4 - p div 100 + p div 400 + 1" for p
    by (simp add: new_year_def ordinal_def days_before_year_def days_before_month_def)
  have quot: "p div m = q" if "m * q \<le> p" "p < m * q + m" for m p q :: int
    using that div_pos_pos_trivial [of "p - m * q" m] div_mult_self4 [of m q "p - m * q"] by (cases "m = 0") (auto simp: algebra_simps)
  have at: "new_year (p + 1) = 365 * p + q4 - q100 + q400 + 1"
    if "4 * q4 \<le> p" "p < 4 * q4 + 4" "100 * q100 \<le> p" "p < 100 * q100 + 100" "400 * q400 \<le> p" "p < 400 * q400 + 400" for p q4 q100 q400
    using quot [OF that(1,2)] quot [OF that(3,4)] quot [OF that(5,6)] days [of p] by simp
  have start: "new_year (a * 400 + b * 100 + c * 4 + k + 1) = 146097 * a + 36524 * b + 1461 * c + 365 * k + 1"
    if "b \<le> 3" "0 \<le> k" "k \<le> 3" for k
  proof -
    have "new_year (a * 400 + b * 100 + c * 4 + k + 1) = 365 * (a * 400 + b * 100 + c * 4 + k) + (a * 100 + b * 25 + c) - (a * 4 + b) + a + 1"
      by (rule at; insert small that; simp)
    then show ?thesis by simp
  qed
  consider "b = 4" | "e = 4" "b \<le> 3" | "e \<le> 3" "b \<le> 3" using small by linarith
  then show ?thesis
  proof cases
    case 1
    then have "d = 146097 * a + 146097" "year_of d = a * 400 + 399 + 1" using four(1) split n_def y by auto
    moreover have "new_year (a * 400 + 399 + 1) = 365 * (a * 400 + 399) + (a * 100 + 99) - (a * 4 + 3) + a + 1" by (rule at; simp)
    moreover have "new_year (a * 400 + 400 + 1) = 365 * (a * 400 + 400) + (a * 100 + 100) - (a * 4 + 4) + (a + 1) + 1" by (rule at; simp)
    ultimately show ?thesis by simp
  next
    case 2
    then have c: "c \<le> 23" using bounds split four small by linarith
    have d: "d = 146097 * a + 36524 * b + 1461 * c + 1461" "year_of d = a * 400 + b * 100 + c * 4 + 3 + 1"
      using 2 four(2) split n_def y by auto
    moreover have "new_year (a * 400 + b * 100 + c * 4 + 4 + 1)
        = 365 * (a * 400 + b * 100 + c * 4 + 4) + (a * 100 + b * 25 + c + 1) - (a * 4 + b) + a + 1"
      by (rule at; insert c small 2; simp)
    ultimately show ?thesis using start [of 3] 2 by simp
  next
    case 3
    have "new_year (a * 400 + b * 100 + c * 4 + e + 1 + 1) \<ge> 146097 * a + 36524 * b + 1461 * c + 365 * e + 366"
    proof (cases "e = 3")
      case False
      then show ?thesis using start [of "e + 1"] 3 small by (simp add: algebra_simps)
    next
      case True
      let ?p = "a * 400 + b * 100 + c * 4 + 4"
      have "?p div 4 = a * 100 + b * 25 + c + 1" by (rule quot; simp)
      moreover have "?p div 100 \<le> a * 4 + b + (if c = 24 then 1 else 0)" using small 3 by auto
      moreover have "a \<le> ?p div 400" using small 3 by auto
      ultimately show ?thesis using days [of ?p] True small by (auto split: if_splits)
    qed
    moreover have "year_of d = a * 400 + b * 100 + c * 4 + e + 1" "d = 146097 * a + 36524 * b + 1461 * c + 365 * e + r + 1"
      using 3 y split n_def by auto
    ultimately show ?thesis using start [of e] 3 small bounds by simp
  qed
qed


function factor_loop :: "pyfloat \<Rightarrow> int \<Rightarrow> int \<Rightarrow> pyfloat \<Rightarrow> yield_error + pyfloat" where
  "factor_loop rate stop cursor acc =
     (if stop \<le> cursor then Inr acc
      else if 9999 \<le> year_of cursor then Inl Value_Error
      else let segment_end = min stop (new_year (year_of cursor + 1)) in
        factor_loop rate stop segment_end
          (fadd acc (fdiv (fmul rate (fint (segment_end - cursor))) (fint (year_length (year_of cursor))))))"
  by auto
termination
proof (relation "measure (\<lambda>(rate, stop, cursor, acc). nat (stop - cursor))", goal_cases)
  case (2 rate stop cursor acc segment_end)
  then show ?case using year_of_spans [of cursor] by auto
qed simp

declare factor_loop.simps [simp del]

definition coupon_equivalent_factor :: "pyfloat \<Rightarrow> int \<Rightarrow> int \<Rightarrow> yield_error + pyfloat" where
  "coupon_equivalent_factor rate start stop =
     (if flt rate (Fin 0) \<or> stop \<le> start then Inl Value_Error else factor_loop rate stop start (Fin 0))"

section \<open>The closing cash\<close>

text \<open>The exchange calendar; \<open>None\<close> is its error on a day that is no session.\<close>

record xnys =
  xc_is_session :: "int \<Rightarrow> bool"
  xc_next :: "int \<Rightarrow> int option"
  xc_previous :: "int \<Rightarrow> int option"
  xc_between :: "int \<Rightarrow> int \<Rightarrow> int list"

type_synonym closes = "(int \<times> pyfloat) list"

definition BOOK_FIRST_SESSION :: int where "BOOK_FIRST_SESSION = ordinal 2026 10 27"
definition CASH_TOLERANCE_USD :: pyfloat where "CASH_TOLERANCE_USD = flit 5 100"

record lab_book =
  lb_as_of :: int
  lb_cash :: pyfloat

record engine_checkpoint =
  ck_session_open :: bool
  ck_last_session :: "int option"
  ck_nav_realized :: pyfloat
  ck_costs :: "pyfloat list"

definition checkpoint_cash :: "engine_checkpoint \<Rightarrow> pyfloat" where
  "checkpoint_cash ck = fsub (ck_nav_realized ck) (py_sum (ck_costs ck))"

text \<open>\<open>close d\<close> is the instant of 16:00 in New York on day \<open>d\<close>; \<open>lab d\<close> the newest stored book of day \<open>d\<close>.\<close>

definition proved_closes :: "(int \<Rightarrow> int) \<Rightarrow> int \<Rightarrow> (int \<Rightarrow> lab_book option) \<Rightarrow> closes" where
  "proved_closes close today lab =
     List.map_filter (\<lambda>d. case lab d of
         None \<Rightarrow> None
       | Some b \<Rightarrow> if close d \<le> lb_as_of b then Some (d, lb_cash b) else None)
     [BOOK_FIRST_SESSION..today - 1]"

definition closing_cash ::
  "xnys \<Rightarrow> (int \<Rightarrow> int) \<Rightarrow> int \<Rightarrow> (int \<Rightarrow> lab_book option) \<Rightarrow> engine_checkpoint option \<Rightarrow> closes" where
  "closing_cash cal close today lab checkpoint =
     (let stored = proved_closes close today lab in
      if stored = [] then []
      else let (newest, cash) = last stored in
        case checkpoint of
          None \<Rightarrow> stored
        | Some ck \<Rightarrow>
            if ck_session_open ck \<or> ck_last_session ck \<noteq> Some newest then stored
            else if flt CASH_TOLERANCE_USD (fabs (fsub (checkpoint_cash ck) cash)) then filter (\<lambda>(d, c). d \<noteq> newest) stored
            else fold (\<lambda>d m. AList.update d cash m) (xc_between cal newest (today - 1)) stored)"

text \<open>\<open>_final_snapshots\<close>: the paused book's final rows before the live book's first session, then its closes.\<close>

definition final_snapshots :: "closes \<Rightarrow> closes \<Rightarrow> closes" where
  "final_snapshots paused live =
     sort_key fst (fold (\<lambda>(d, c) m. AList.update d c m) (filter (\<lambda>(d, c). d < BOOK_FIRST_SESSION) paused @ live) [])"

section \<open>The ledger\<close>

record accrual =
  ac_experiment :: string
  ac_session :: int
  ac_prior :: int
  ac_base :: pyfloat
  ac_rate :: pyfloat
  ac_days :: int
  ac_factor :: pyfloat
  ac_interest :: pyfloat
  ac_observation :: int
  ac_available :: int
  ac_fetched :: int
  ac_payload :: string
  ac_backfilled :: "int option"
  ac_sha :: string

datatype yield_status =
    Skipped_Run int
  | Idle_Run string
  | No_Final_Session
  | No_Prior_Session
  | Idempotent_Run int string
  | Partial_Run "int list" "(int \<times> pending_reason) list" "(int \<times> string) list"
  | Pending_Run "int list" "(int \<times> pending_reason) list"
  | Posted_Run int pyfloat string "int list"

record yield_db =
  yd_ledger :: "accrual list"
  yd_rates :: "rate_package list"
  yd_runs :: "yield_status list"

definition accrual_of :: "accrual list \<Rightarrow> string \<Rightarrow> int \<Rightarrow> accrual option" where
  "accrual_of es x s = find (\<lambda>e. ac_experiment e = x \<and> ac_session e = s) es"

text \<open>\<open>INSERT ... ON CONFLICT DO NOTHING\<close>, and the comparison with the entry another run posted.\<close>

definition insert_entry :: "accrual \<Rightarrow> yield_db \<Rightarrow> (yield_error + accrual) \<times> yield_db" where
  "insert_entry e db =
     (case accrual_of (yd_ledger db) (ac_experiment e) (ac_session e) of
        None \<Rightarrow> (Inr e, db\<lparr>yd_ledger := yd_ledger db @ [e]\<rparr>)
      | Some old \<Rightarrow>
          if ac_sha old = ac_sha e then (Inr (e\<lparr>ac_interest := ac_interest old\<rparr>), db)
          else (Inl (Data_Fault ''Existing cash-yield entry does not match the canonical entry''), db))"

section \<open>A run of the service\<close>

record yield_experiment =
  xp_id :: string
  xp_start :: int
  xp_status :: string

text \<open>What a run reads from outside: \<open>yr_clock s\<close> is the clock at session \<open>s\<close>, the feed is fetched once a year.\<close>

record yield_run =
  yr_calendar :: xnys
  yr_experiment :: "yield_experiment option"
  yr_closes :: closes
  yr_clock :: "int \<Rightarrow> int"
  yr_feed :: "int \<Rightarrow> feed_answer"
  yr_package_sha :: "rate_package \<Rightarrow> string"
  yr_entry_sha :: "accrual \<Rightarrow> string"

definition inactive :: "yield_experiment \<Rightarrow> bool" where
  "inactive x \<longleftrightarrow> (if xp_status x = [] then ''running'' else xp_status x) \<in> {''paused'', ''completed''}"

definition record_run :: "yield_status \<Rightarrow> yield_db \<Rightarrow> yield_db" where
  "record_run r db = db\<lparr>yd_runs := yd_runs db @ [r]\<rparr>"

definition eligible_closes :: "yield_run \<Rightarrow> yield_experiment \<Rightarrow> int \<Rightarrow> closes" where
  "eligible_closes run x target = filter (\<lambda>(d, c). xp_start x \<le> d \<and> d < target) (yr_closes run)"

definition make_entry :: "yield_run \<Rightarrow> string \<Rightarrow> int \<Rightarrow> int \<Rightarrow> pyfloat \<Rightarrow> rate_package \<Rightarrow> yield_error + accrual" where
  "make_entry run x s p cash rate =
     (let base = py_max cash (Fin 0); fetched = yr_clock run s in
      ebind (coupon_equivalent_factor (rp_rate rate) p s) (\<lambda>factor.
      let e = \<lparr>ac_experiment = x, ac_session = s, ac_prior = p, ac_base = py_round 6 base, ac_rate = rp_rate rate,
               ac_days = s - p, ac_factor = factor, ac_interest = py_round 6 (fmul base factor), ac_observation = p,
               ac_available = rp_available rate, ac_fetched = rp_fetched rate, ac_payload = yr_package_sha run rate,
               ac_backfilled = (if s < fetched div day_us then Some fetched else None), ac_sha = []\<rparr> in
      ebind (canonical [ac_base e, ac_rate e, ac_factor e, ac_interest e] e) (\<lambda>e. Inr (e\<lparr>ac_sha := yr_entry_sha run e\<rparr>))))"

text \<open>One missing session; an \<open>Inl\<close> result leaves the run (it is no \<open>CashYieldDataError\<close> of the feed).\<close>

datatype session_result = Session_Posted | Session_Pending pending_reason | Session_Faulted string

definition post_session :: "yield_run \<Rightarrow> yield_experiment \<Rightarrow> int \<Rightarrow> int \<Rightarrow> yield_db \<Rightarrow> (yield_error + session_result) \<times> yield_db" where
  "post_session run x target s db =
     (case xc_previous (yr_calendar run) s of
        None \<Rightarrow> (Inl Value_Error, db)
      | Some p \<Rightarrow>
          case map_of (eligible_closes run x target) p of
            None \<Rightarrow> (Inr (Session_Pending Snapshot_Missing), db)
          | Some cash \<Rightarrow>
              case parse_treasury_bill_xml (yr_feed run (year_of p)) p (yr_clock run s) of
                Inl (Pending_Data r) \<Rightarrow> (Inr (Session_Pending r), db)
              | Inl (Data_Fault t) \<Rightarrow> (Inr (Session_Faulted t), db)
              | Inl err \<Rightarrow> (Inl err, db)
              | Inr rate \<Rightarrow>
                  let db = db\<lparr>yd_rates := yd_rates db @ [rate]\<rparr> in
                  case make_entry run (xp_id x) s p cash rate of
                    Inl err \<Rightarrow> (Inl err, db)
                  | Inr e \<Rightarrow>
                      (case insert_entry e db of
                         (Inl err, db) \<Rightarrow> (Inl err, db)
                       | (Inr _, db) \<Rightarrow> (Inr Session_Posted, db)))"

text \<open>The run cut at its sessions: what is left, what was done, and its answer once it returned or raised.\<close>

record yield_job =
  yj_run :: yield_run
  yj_target :: int
  yj_days :: "int list"
  yj_left :: "int list"
  yj_posted :: "int list"
  yj_pending :: "(int \<times> pending_reason) list"
  yj_faults :: "(int \<times> string) list"
  yj_answer :: "(yield_error + yield_status) option"

definition new_job :: "yield_run \<Rightarrow> int \<Rightarrow> yield_job" where
  "new_job run target = \<lparr>yj_run = run, yj_target = target, yj_days = [], yj_left = [], yj_posted = [], yj_pending = [],
     yj_faults = [], yj_answer = None\<rparr>"

definition job_returns :: "yield_status \<Rightarrow> yield_job \<Rightarrow> yield_db \<Rightarrow> yield_job \<times> yield_db" where
  "job_returns r j db = (j\<lparr>yj_answer := Some (Inr r)\<rparr>, record_run r db)"

definition job_raises :: "yield_error \<Rightarrow> yield_job \<Rightarrow> yield_db \<Rightarrow> yield_job \<times> yield_db" where
  "job_raises err j db = (j\<lparr>yj_answer := Some (Inl err)\<rparr>, db)"

text \<open>\<open>run_through\<close> up to its loop.\<close>

definition begin_through :: "yield_run \<Rightarrow> int \<Rightarrow> yield_db \<Rightarrow> yield_job \<times> yield_db" where
  "begin_through run target db =
     (let cal = yr_calendar run; j = new_job run target in
      if \<not> xc_is_session cal target then job_returns (Skipped_Run target) j db
      else case yr_experiment run of
        None \<Rightarrow> job_raises (Data_Fault ''R2D2 experiment is not initialized'') j db
      | Some x \<Rightarrow>
          if inactive x then job_returns (Idle_Run (xp_status x)) j db
          else case eligible_closes run x target of
            [] \<Rightarrow> job_returns No_Prior_Session j db
          | (d, c) # _ \<Rightarrow>
              case xc_next cal d of
                None \<Rightarrow> job_raises Value_Error j db
              | Some first \<Rightarrow>
                  let days = xc_between cal first target;
                      missing = filter (\<lambda>s. accrual_of (yd_ledger db) (xp_id x) s = None) days in
                  if missing \<noteq> [] then (j\<lparr>yj_days := days, yj_left := missing\<rparr>, db)
                  else if days = [] then job_raises Value_Error j db
                  else case accrual_of (yd_ledger db) (xp_id x) (last days) of
                         None \<Rightarrow> job_raises Value_Error j db
                       | Some e \<Rightarrow> job_returns (Idempotent_Run (last days) (ac_sha e)) (j\<lparr>yj_days := days\<rparr>) db)"

definition begin_latest :: "yield_run \<Rightarrow> yield_db \<Rightarrow> yield_job \<times> yield_db" where
  "begin_latest run db =
     (case yr_experiment run of
        None \<Rightarrow> job_raises (Data_Fault ''R2D2 experiment is not initialized'') (new_job run 0) db
      | Some x \<Rightarrow>
          if inactive x then job_returns (Idle_Run (xp_status x)) (new_job run 0) db
          else case filter (\<lambda>(d, c). xp_start x \<le> d) (yr_closes run) of
            [] \<Rightarrow> job_returns No_Final_Session (new_job run 0) db
          | ds \<Rightarrow> begin_through run (fst (last ds)) db)"

text \<open>After the last session: faults raise, gaps are recorded.\<close>

definition finish_run :: "yield_job \<Rightarrow> yield_experiment \<Rightarrow> yield_db \<Rightarrow> yield_job \<times> yield_db" where
  "finish_run j x db =
     (if yj_faults j \<noteq> []
      then job_raises (Data_Fault ''Cash-yield sessions failed on a data fault'') j
             (record_run (Partial_Run (yj_posted j) (yj_pending j) (yj_faults j)) db)
      else if yj_pending j \<noteq> [] then job_returns (Pending_Run (yj_posted j) (yj_pending j)) j db
      else case accrual_of (yd_ledger db) (xp_id x) (last (yj_days j)) of
             None \<Rightarrow> job_raises (Data_Fault ''Latest cash-yield session was not persisted'') j db
           | Some e \<Rightarrow> job_returns (Posted_Run (last (yj_days j)) (ac_interest e) (ac_sha e) (yj_posted j)) j db)"

definition note_session :: "int \<Rightarrow> session_result \<Rightarrow> yield_job \<Rightarrow> yield_job" where
  "note_session s r j =
     (case r of
        Session_Posted \<Rightarrow> j\<lparr>yj_posted := yj_posted j @ [s]\<rparr>
      | Session_Pending why \<Rightarrow> j\<lparr>yj_pending := yj_pending j @ [(s, why)]\<rparr>
      | Session_Faulted t \<Rightarrow> j\<lparr>yj_faults := yj_faults j @ [(s, t)]\<rparr>)"

definition advance_job :: "yield_job \<Rightarrow> yield_db \<Rightarrow> yield_job \<times> yield_db" where
  "advance_job j db =
     (case (yj_answer j, yr_experiment (yj_run j)) of
        (None, Some x) \<Rightarrow>
          (case yj_left j of
             [] \<Rightarrow> finish_run j x db
           | s # rest \<Rightarrow>
               (case post_session (yj_run j) x (yj_target j) s db of
                  (Inl err, db) \<Rightarrow> job_raises err (j\<lparr>yj_left := rest\<rparr>) db
                | (Inr r, db) \<Rightarrow> (note_session s r (j\<lparr>yj_left := rest\<rparr>), db)))
      | _ \<Rightarrow> (j, db))"

text \<open>A run alone: one step a session and the last.\<close>

fun advance_all :: "nat \<Rightarrow> yield_job \<times> yield_db \<Rightarrow> yield_job \<times> yield_db" where
  "advance_all 0 jd = jd"
| "advance_all (Suc n) (j, db) = advance_all n (advance_job j db)"

definition run_through :: "yield_run \<Rightarrow> int \<Rightarrow> yield_db \<Rightarrow> yield_job \<times> yield_db" where
  "run_through run target db = (let (j, db) = begin_through run target db in advance_all (Suc (length (yj_left j))) (j, db))"

text \<open>Runs of several processes on one database, interleaved at their sessions.\<close>

record yield_world =
  yw_db :: yield_db
  yw_jobs :: "yield_job list"

datatype yield_event = Begin_Through yield_run int | Begin_Latest yield_run | Advance nat

definition yield_step :: "yield_event \<Rightarrow> yield_world \<Rightarrow> yield_world" where
  "yield_step ev w =
     (case ev of
        Begin_Through run target \<Rightarrow> (case begin_through run target (yw_db w) of (j, db) \<Rightarrow> \<lparr>yw_db = db, yw_jobs = yw_jobs w @ [j]\<rparr>)
      | Begin_Latest run \<Rightarrow> (case begin_latest run (yw_db w) of (j, db) \<Rightarrow> \<lparr>yw_db = db, yw_jobs = yw_jobs w @ [j]\<rparr>)
      | Advance i \<Rightarrow>
          if i < length (yw_jobs w)
          then (case advance_job (yw_jobs w ! i) (yw_db w) of (j, db) \<Rightarrow> \<lparr>yw_db = db, yw_jobs = (yw_jobs w)[i := j]\<rparr>)
          else w)"

definition new_yield_world :: yield_world where
  "new_yield_world = \<lparr>yw_db = \<lparr>yd_ledger = [], yd_rates = [], yd_runs = []\<rparr>, yw_jobs = []\<rparr>"

text \<open>\<open>last_run_at\<close>: a partial run does not count as one.\<close>

definition counts_as_run :: "yield_db \<Rightarrow> bool" where
  "counts_as_run db = (case rev (yd_runs db) of [] \<Rightarrow> False | Partial_Run _ _ _ # _ \<Rightarrow> False | _ \<Rightarrow> True)"

end
