(* ===== verification/CashYieldSafety.thy ===== *)
theory CashYieldSafety
  imports CashYield
begin

text \<open>
  What the cash-yield accounting promises: the factor accrues every day once at its own year's length;
  an observation enters only when it is the one of its date and out; entries are posted once, are never
  changed, meet the table's constraints and come from a proved close; a run that says it posted has left
  no session of its range behind, and another run cannot complete after it.
\<close>

section \<open>The accrual factor\<close>

lemma new_year_gap: "y \<le> z \<Longrightarrow> new_year y + 364 * (z - y) \<le> new_year z"
proof -
  assume "y \<le> z"
  then have "(y - 1) div 4 \<le> (z - 1) div 4" "(y - 1) div 400 \<le> (z - 1) div 400" "(z - 1) div 100 - (y - 1) div 100 \<le> z - y"
    by (simp_all add: zdiv_mono1)
  then show ?thesis using \<open>y \<le> z\<close> by (simp add: new_year_def ordinal_def days_before_year_def days_before_month_def Let_def)
qed

lemma new_year_mono: "y \<le> z \<Longrightarrow> new_year y \<le> new_year z"
  using new_year_gap [of y z] by simp

lemma new_year_less: "new_year y < new_year (y + 1)"
  using new_year_gap [of y "y + 1"] by simp

lemma year_of_iff: "year_of d = y \<longleftrightarrow> new_year y \<le> d \<and> d < new_year (y + 1)"
proof
  assume "new_year y \<le> d \<and> d < new_year (y + 1)"
  moreover have "new_year (year_of d + 1) \<le> new_year y" if "year_of d < y" using that by (intro new_year_mono) simp
  moreover have "new_year (y + 1) \<le> new_year (year_of d)" if "y < year_of d" using that by (intro new_year_mono) simp
  ultimately show "year_of d = y" using year_of_spans [of d] by linarith
qed (use year_of_spans [of d] in auto)

lemma year_of_mono: "c \<le> d \<Longrightarrow> year_of c \<le> year_of d"
proof (rule ccontr)
  assume "c \<le> d" "\<not> year_of c \<le> year_of d"
  moreover from this have "new_year (year_of d + 1) \<le> new_year (year_of c)" by (intro new_year_mono) simp
  ultimately show False using year_of_spans [of c] year_of_spans [of d] by linarith
qed

definition days_of_year :: "int \<Rightarrow> int \<Rightarrow> int \<Rightarrow> int" where
  "days_of_year start stop y = int (length (filter (\<lambda>d. year_of d = y) [start..stop - 1]))"

lemma upto_count: "int (length (filter (\<lambda>d. a \<le> d \<and> d < b) [c..e - 1])) = max 0 (min b e - max a c)"
proof -
  have "set (filter (\<lambda>d. a \<le> d \<and> d < b) [c..e - 1]) = {max a c..<min b e}" by auto
  then have "length (filter (\<lambda>d. a \<le> d \<and> d < b) [c..e - 1]) = card {max a c..<min b e}"
    by (metis distinct_card distinct_filter distinct_upto)
  then show ?thesis by (simp only: card_atLeastLessThan_int)
qed

lemma days_of_year_eq: "days_of_year start stop y = max 0 (min (new_year (y + 1)) stop - max (new_year y) start)"
  unfolding days_of_year_def year_of_iff by (rule upto_count)

lemma factor_loop_eq:
  "cursor < stop \<Longrightarrow>
   factor_loop rate stop cursor acc =
     (if 9999 \<le> year_of (stop - 1) then Inl Value_Error
      else Inr (foldl (\<lambda>acc y. fadd acc (fdiv (fmul rate (fint (days_of_year cursor stop y))) (fint (year_length y)))) acc
                  [year_of cursor..year_of (stop - 1)]))"
proof (induction rate stop cursor acc rule: factor_loop.induct)
  case (1 rate stop cursor acc)
  let ?y = "year_of cursor" and ?seg = "min stop (new_year (year_of cursor + 1))"
  let ?acc = "fadd acc (fdiv (fmul rate (fint (?seg - cursor))) (fint (year_length ?y)))"
  have le: "?y \<le> year_of (stop - 1)" using 1(2) by (intro year_of_mono) simp
  have own: "days_of_year cursor stop ?y = ?seg - cursor"
    using 1(2) year_of_spans [of cursor] by (auto simp: days_of_year_eq)
  show ?case
  proof (cases "9999 \<le> ?y")
    case True
    then show ?thesis using 1(2) le by (simp add: factor_loop.simps [of _ _ cursor])
  next
    case False
    have step: "factor_loop rate stop cursor acc = factor_loop rate stop ?seg ?acc"
      using False 1(2) by (simp add: factor_loop.simps [of _ _ cursor] Let_def)
    show ?thesis
    proof (cases "?seg < stop")
      case True
      then have seg: "?seg = new_year (?y + 1)" by simp
      have "year_of ?seg = ?y + 1"
        unfolding seg year_of_iff using new_year_less [of "?y + 1"] by simp
      moreover from this have "?y + 1 \<le> year_of (stop - 1)" using year_of_mono [of ?seg "stop - 1"] True by simp
      moreover have "days_of_year ?seg stop y = days_of_year cursor stop y" if "?y < y" for y
        using that seg year_of_spans [of cursor] new_year_mono [of "?y + 1" y] by (simp add: days_of_year_eq)
      then have "foldl (\<lambda>acc y. fadd acc (fdiv (fmul rate (fint (days_of_year ?seg stop y))) (fint (year_length y)))) ?acc [?y + 1..year_of (stop - 1)]
          = foldl (\<lambda>acc y. fadd acc (fdiv (fmul rate (fint (days_of_year cursor stop y))) (fint (year_length y)))) ?acc [?y + 1..year_of (stop - 1)]"
        by (intro foldl_cong) auto
      ultimately show ?thesis using 1(1) [OF _ False refl True] 1(2) step own le by (simp add: upto_rec1)
    next
      case seg: False
      then have "stop \<le> new_year (?y + 1)" by simp
      then have "year_of (stop - 1) = ?y" using 1(2) year_of_spans [of cursor] by (auto simp: year_of_iff)
      then show ?thesis using step own False seg by (simp add: factor_loop.simps [of _ _ stop])
    qed
  qed
qed

text \<open>
  C31: The factor accrues every day once.  The loop over calendar years equals the reference that counts,
  year by year, the days of the interval falling in that year and divides them by that year's length; it
  always ends, and it raises exactly on a negative rate, an empty interval or the last year of the calendar.
\<close>

theorem factor_counts_days:
  "coupon_equivalent_factor rate start stop =
     (if flt rate (Fin 0) \<or> stop \<le> start \<or> 9999 \<le> year_of (stop - 1) then Inl Value_Error
      else Inr (foldl (\<lambda>acc y. fadd acc (fdiv (fmul rate (fint (int (length (filter (\<lambda>d. year_of d = y) [start..stop - 1])))))
                                      (fint (if leap y then 366 else 365))))
                  (Fin 0) [year_of start..year_of (stop - 1)]))"
  using factor_loop_eq [of start stop rate "Fin 0"]
  by (simp add: coupon_equivalent_factor_def days_of_year_def year_length_def)

section \<open>The Treasury observation\<close>

definition own_rows :: "int \<Rightarrow> feed_row list \<Rightarrow> feed_row list" where
  "own_rows obs rows = filter (\<lambda>row. row_date row = Some obs) rows"

definition good_rate :: "feed_row \<Rightarrow> bool" where
  "good_rate row = (case row_rate row of None \<Rightarrow> False | Some r \<Rightarrow> \<not> flt r (Fin 0))"

lemma scan_rows:
  "efold (scan_row obs) rows st = Inr st' \<longleftrightarrow>
     list_all good_rate (own_rows obs rows)
     \<and> st' = \<lparr>fs_matches = fs_matches st @ map (\<lambda>row. the (row_rate row)) (own_rows obs rows),
              fs_later = (fs_later st \<or> list_ex (\<lambda>row. \<exists>d. row_date row = Some d \<and> obs < d) rows),
              fs_rows = fs_rows st + length (filter (\<lambda>row. row_date row \<noteq> None) rows)\<rparr>"
proof (induction rows arbitrary: st)
  case (Cons row rows)
  show ?case
  proof (cases "row_date row")
    case (Some d)
    then show ?thesis
    proof (cases "d = obs")
      case True
      then show ?thesis using Some Cons
        by (cases "row_rate row") (auto simp: scan_row_def own_rows_def good_rate_def Let_def)
    qed (use Cons in \<open>auto simp: scan_row_def own_rows_def Let_def\<close>)
  qed (use Cons in \<open>simp add: scan_row_def own_rows_def\<close>)
qed (auto simp: own_rows_def)

lemma judge_accepts:
  "fs_rows st \<noteq> 0 \<or> fs_matches st = [] \<Longrightarrow>
   judge_scan obs fetched st = Inr r \<longleftrightarrow> fs_matches st = [r] \<and> available_after_day obs \<le> fetched"
  by (auto simp: judge_scan_def Let_def split: list.splits)

lemma feed_accepts:
  "ebind (efold (scan_row obs) rows scan_start) (judge_scan obs fetched) = Inr r \<longleftrightarrow>
     (\<exists>row. own_rows obs rows = [row] \<and> row_rate row = Some r \<and> \<not> flt r (Fin 0)) \<and> available_after_day obs \<le> fetched"
proof -
  define st where "st = \<lparr>fs_matches = map (\<lambda>row. the (row_rate row)) (own_rows obs rows),
      fs_later = list_ex (\<lambda>row. \<exists>d. row_date row = Some d \<and> obs < d) rows,
      fs_rows = length (filter (\<lambda>row. row_date row \<noteq> None) rows)\<rparr>"
  have scan: "efold (scan_row obs) rows scan_start = Inr st' \<longleftrightarrow> list_all good_rate (own_rows obs rows) \<and> st' = st" for st'
    unfolding scan_rows by (simp add: scan_start_def st_def)
  have "ebind (efold (scan_row obs) rows scan_start) (judge_scan obs fetched) = Inr r
      \<longleftrightarrow> list_all good_rate (own_rows obs rows) \<and> judge_scan obs fetched st = Inr r"
  proof (cases "efold (scan_row obs) rows scan_start")
    case (Inr b)
    then show ?thesis using scan [of b] by simp
  qed (use scan [of st] in auto)
  moreover have "judge_scan obs fetched st = Inr r \<longleftrightarrow> fs_matches st = [r] \<and> available_after_day obs \<le> fetched"
    by (rule judge_accepts) (auto simp: st_def own_rows_def filter_empty_conv)
  ultimately show ?thesis
    by (cases "own_rows obs rows") (auto simp: st_def good_rate_def split: option.splits)
qed

text \<open>
  An observation is accepted exactly when it is the one of its date, carries a rate and was out.  The
  feed gives a package for a date if and only if exactly one of its rows has that date, that row's coupon
  equivalent is a finite number not below zero, and the day after the date had begun at the fetch; the
  package then carries that rate and that instant.
\<close>

theorem feed_accepts_exact:
  "parse_treasury_bill_xml (Feed rows) obs fetched = Inr pkg \<longleftrightarrow>
     (\<exists>row r. filter (\<lambda>row. row_date row = Some obs) rows = [row] \<and> row_rate row = Some r \<and> \<not> flt r (Fin 0) \<and> finite_float r
        \<and> (obs + 1) * 86400000000 \<le> fetched
        \<and> pkg = \<lparr>rp_observation = obs, rp_rate = r, rp_available = (obs + 1) * 86400000000, rp_fetched = fetched\<rparr>)"
proof -
  have "parse_treasury_bill_xml (Feed rows) obs fetched =
      ebind (ebind (efold (scan_row obs) rows scan_start) (judge_scan obs fetched)) (\<lambda>r.
        canonical [r] \<lparr>rp_observation = obs, rp_rate = r, rp_available = available_after_day obs, rp_fetched = fetched\<rparr>)"
    by (simp add: parse_treasury_bill_xml_def ebind_def split: sum.split)
  then have "parse_treasury_bill_xml (Feed rows) obs fetched = Inr pkg \<longleftrightarrow>
      (\<exists>r. ebind (efold (scan_row obs) rows scan_start) (judge_scan obs fetched) = Inr r \<and> finite_float r
         \<and> pkg = \<lparr>rp_observation = obs, rp_rate = r, rp_available = available_after_day obs, rp_fetched = fetched\<rparr>)"
    by (auto simp: canonical_def elim!: steps split: if_splits)
  then show ?thesis unfolding feed_accepts by (auto simp: own_rows_def available_after_day_def day_us_def)
qed

section \<open>The entries\<close>

text \<open>The \<open>CHECK\<close> constraints of the table, for the fields of an entry.\<close>

definition table_row_ok :: "accrual \<Rightarrow> bool" where
  "table_row_ok e \<longleftrightarrow>
     list_all (\<lambda>v. finite_float v \<and> fle (Fin 0) v) [ac_base e, ac_rate e, ac_factor e, ac_interest e]
     \<and> 0 < ac_days e \<and> ac_days e = ac_session e - ac_prior e \<and> ac_prior e < ac_session e
     \<and> ac_observation e = ac_prior e \<and> ac_available e \<le> ac_fetched e"

lemma not_neg_fadd: "not_neg x \<Longrightarrow> not_neg y \<Longrightarrow> not_neg (fadd x y)"
  using not_neg_fl [of "_ + _"] by (cases x; cases y) (auto simp: not_neg_def)

lemma not_neg_fdiv_pos: "not_neg x \<Longrightarrow> 0 < q \<Longrightarrow> not_neg (fdiv x (Fin q))"
  using not_neg_fl [of "_ / q"] by (cases x) (auto simp: not_neg_def inf_of_sign_def)

lemma not_neg_py_round: "not_neg x \<Longrightarrow> not_neg (py_round k x)"
proof (cases x)
  case (Fin r)
  assume "not_neg x"
  then have "0 \<le> rhe (r * 10 ^ k)" using rhe_mono [of 0 "r * 10 ^ k"] Fin by simp
  then show ?thesis unfolding Fin py_round_def by (simp add: not_neg_fl)
qed (simp_all add: py_round_def)

lemma not_neg_fint: "0 \<le> n \<Longrightarrow> not_neg (fint n)"
  unfolding fint_def by (rule not_neg_fl) simp

lemma finite_not_neg: "finite_float v \<Longrightarrow> not_neg v \<Longrightarrow> fle (Fin 0) v"
  by (cases v) (auto simp: finite_float_def)

lemma factor_not_neg:
  assumes "coupon_equivalent_factor rate start stop = Inr f"
  shows "not_neg f"
proof -
  have rate: "not_neg rate" using assms by (auto simp: factor_counts_days not_neg_def split: if_splits)
  have "fint (if leap y then 366 else 365) = Fin (if leap y then 366 else 365)" for y
    using fint_eq [of 366] fint_eq [of 365] by simp
  then have step: "not_neg (fadd acc (fdiv (fmul rate (fint (int n))) (fint (if leap y then 366 else 365))))" if "not_neg acc" for acc n y
    using not_neg_fadd [OF that not_neg_fdiv_pos [OF not_neg_fmul [OF rate not_neg_fint [of "int n"]], of "if leap y then 366 else 365"]] by simp
  have "not_neg (foldl (\<lambda>acc y. fadd acc (fdiv (fmul rate (fint (int (g y)))) (fint (if leap y then 366 else 365)))) acc ys)"
    if "not_neg acc" for acc g ys
    using that by (induction ys arbitrary: acc) (simp_all add: step del: fint_eq)
  then show ?thesis using assms by (auto simp: factor_counts_days split: if_splits)
qed

lemma make_entry_Inr:
  "make_entry run x s p cash rate = Inr e \<longleftrightarrow>
     (\<exists>f. coupon_equivalent_factor (rp_rate rate) p s = Inr f
        \<and> (let e0 = \<lparr>ac_experiment = x, ac_session = s, ac_prior = p, ac_base = py_round 6 (py_max cash (Fin 0)), ac_rate = rp_rate rate,
                ac_days = s - p, ac_factor = f, ac_interest = py_round 6 (fmul (py_max cash (Fin 0)) f), ac_observation = p,
                ac_available = rp_available rate, ac_fetched = rp_fetched rate, ac_payload = yr_package_sha run rate,
                ac_backfilled = (if s < yr_clock run s div day_us then Some (yr_clock run s) else None), ac_sha = []\<rparr> in
           list_all finite_float [ac_base e0, ac_rate e0, ac_factor e0, ac_interest e0] \<and> e = e0\<lparr>ac_sha := yr_entry_sha run e0\<rparr>))"
  by (auto simp: make_entry_def Let_def canonical_def elim!: steps split: if_splits)

lemma entry_row_ok:
  assumes "make_entry run x s p cash rate = Inr e" "rp_available rate \<le> rp_fetched rate"
  shows "table_row_ok e"
proof -
  obtain f where f: "coupon_equivalent_factor (rp_rate rate) p s = Inr f"
    and e: "ac_base e = py_round 6 (py_max cash (Fin 0))" "ac_rate e = rp_rate rate" "ac_factor e = f" "ac_interest e = py_round 6 (fmul (py_max cash (Fin 0)) f)"
      "ac_days e = s - p" "ac_session e = s" "ac_prior e = p" "ac_observation e = p" "ac_available e = rp_available rate" "ac_fetched e = rp_fetched rate"
    and fin: "finite_float (ac_base e)" "finite_float (ac_rate e)" "finite_float (ac_factor e)" "finite_float (ac_interest e)"
    using assms(1) unfolding make_entry_Inr Let_def by auto
  have "p < s" "not_neg (rp_rate rate)" using f by (auto simp: coupon_equivalent_factor_def not_neg_def split: if_splits)
  moreover have "cash \<noteq> NaN" using fin(1) e(1) by (auto simp: finite_float_def py_max_def py_round_def)
  then have "not_neg (py_max cash (Fin 0))" by (cases cash) (auto simp: py_max_def not_neg_def)
  ultimately show ?thesis
    using fin assms(2) factor_not_neg [OF f]
    by (auto simp: table_row_ok_def e intro!: finite_not_neg not_neg_py_round not_neg_fmul)
qed

end
