(* ===== verification/CashYieldRuns.thy ===== *)
theory CashYieldRuns
  imports CashYieldSafety
begin

text \<open>
  Runs of the cash-yield accounting on one database, interleaved at their sessions: the ledger only grows,
  holds a session once, and every entry can be traced to the run, the close and the observation it came
  from; what a completed run has covered; the run that comes second to a session.
\<close>

section \<open>One session\<close>

definition accrued_by :: "yield_run \<Rightarrow> accrual \<Rightarrow> bool" where
  "accrued_by run e \<longleftrightarrow>
     (\<exists>x cash rows row. yr_experiment run = Some x \<and> \<not> inactive x \<and> ac_experiment e = xp_id x
        \<and> xc_previous (yr_calendar run) (ac_session e) = Some (ac_prior e)
        \<and> (ac_prior e, cash) \<in> set (yr_closes run) \<and> xp_start x \<le> ac_prior e
        \<and> yr_feed run (year_of (ac_prior e)) = Feed rows
        \<and> filter (\<lambda>row. row_date row = Some (ac_prior e)) rows = [row] \<and> row_rate row = Some (ac_rate e)
        \<and> available_after_day (ac_prior e) \<le> yr_clock run (ac_session e)
        \<and> coupon_equivalent_factor (ac_rate e) (ac_prior e) (ac_session e) = Inr (ac_factor e)
        \<and> ac_base e = py_round 6 (py_max cash (Fin 0))
        \<and> ac_interest e = py_round 6 (fmul (py_max cash (Fin 0)) (ac_factor e)))"

lemma parse_Inr:
  "parse_treasury_bill_xml feed obs fetched = Inr pkg \<Longrightarrow>
   \<exists>rows row. feed = Feed rows \<and> filter (\<lambda>row. row_date row = Some obs) rows = [row] \<and> row_rate row = Some (rp_rate pkg)
     \<and> available_after_day obs \<le> fetched \<and> rp_available pkg = available_after_day obs \<and> rp_fetched pkg = fetched"
proof (cases feed)
  case (Feed rows)
  assume "parse_treasury_bill_xml feed obs fetched = Inr pkg"
  then have "ebind (efold (scan_row obs) rows scan_start) (judge_scan obs fetched) = Inr (rp_rate pkg)
      \<and> rp_available pkg = available_after_day obs \<and> rp_fetched pkg = fetched"
    unfolding Feed by (auto simp: parse_treasury_bill_xml_def canonical_def elim!: steps split: if_splits)
  then show ?thesis using Feed unfolding feed_accepts by (auto simp: own_rows_def)
qed (simp_all add: parse_treasury_bill_xml_def)

lemma accrual_of_append: "accrual_of (es @ [e]) x s =
    (case accrual_of es x s of None \<Rightarrow> (if ac_experiment e = x \<and> ac_session e = s then Some e else None) | Some old \<Rightarrow> Some old)"
  by (induction es) (auto simp: accrual_of_def)

lemma accrual_of_None: "accrual_of es x s = None \<longleftrightarrow> (x, s) \<notin> (\<lambda>e. (ac_experiment e, ac_session e)) ` set es"
  by (auto simp: accrual_of_def find_None_iff)

text \<open>What handling a session may do to the ledger: nothing, or one new entry that came from this run.\<close>

definition one_entry :: "yield_run \<Rightarrow> yield_experiment \<Rightarrow> int \<Rightarrow> yield_db \<Rightarrow> yield_error + session_result \<Rightarrow> yield_db \<Rightarrow> bool" where
  "one_entry run x s db r db' \<longleftrightarrow> yd_runs db' = yd_runs db \<and>
     (yd_ledger db' = yd_ledger db \<and> (r = Inr Session_Posted \<longrightarrow> accrual_of (yd_ledger db) (xp_id x) s \<noteq> None)
      \<or> (\<exists>e. yd_ledger db' = yd_ledger db @ [e] \<and> accrual_of (yd_ledger db) (xp_id x) s = None
           \<and> ac_experiment e = xp_id x \<and> ac_session e = s \<and> accrued_by run e \<and> table_row_ok e))"

lemma post_session_one_entry:
  assumes "yr_experiment run = Some x" "\<not> inactive x" "post_session run x target s db = (r, db')"
  shows "one_entry run x s db r db'"
proof (cases "xc_previous (yr_calendar run) s")
  case None
  then show ?thesis using assms(3) by (auto simp: post_session_def one_entry_def)
next
  case (Some p)
  note previous = this
  show ?thesis
  proof (cases "map_of (eligible_closes run x target) p")
    case None
    then show ?thesis using assms(3) previous by (auto simp: post_session_def one_entry_def)
  next
    case (Some cash)
    note close = this
    show ?thesis
    proof (cases "parse_treasury_bill_xml (yr_feed run (year_of p)) p (yr_clock run s)")
      case (Inl err)
      then show ?thesis using assms(3) previous close by (cases err) (auto simp: post_session_def one_entry_def)
    next
      case (Inr rate)
      note rate = this
      show ?thesis
      proof (cases "make_entry run (xp_id x) s p cash rate")
        case (Inl err)
        then show ?thesis using assms(3) previous close rate by (auto simp: post_session_def one_entry_def)
      next
        case (Inr e)
        have r: "rp_available rate \<le> rp_fetched rate" using parse_Inr [OF rate] by auto
        obtain f where "coupon_equivalent_factor (rp_rate rate) p s = Inr f" "ac_session e = s" "ac_prior e = p" "ac_experiment e = xp_id x"
          "ac_rate e = rp_rate rate" "ac_factor e = f" "ac_base e = py_round 6 (py_max cash (Fin 0))" "ac_interest e = py_round 6 (fmul (py_max cash (Fin 0)) f)"
          using Inr unfolding make_entry_Inr Let_def by auto
        moreover have "(p, cash) \<in> set (yr_closes run)" "xp_start x \<le> p"
          using map_of_SomeD [OF close] by (auto simp: eligible_closes_def)
        ultimately have "accrued_by run e" "ac_session e = s" "ac_experiment e = xp_id x"
          using assms(1,2) previous parse_Inr [OF rate] by (auto simp: accrued_by_def)
        moreover have "table_row_ok e" by (rule entry_row_ok [OF Inr r])
        ultimately show ?thesis
          using assms(3) previous close rate Inr
          by (auto simp: post_session_def one_entry_def insert_entry_def Let_def split: option.splits if_splits)
      qed
    qed
  qed
qed

section \<open>Interleaved runs\<close>

text \<open>The ledger grew: what was there is still there.\<close>

definition db_grows :: "yield_db \<Rightarrow> yield_db \<Rightarrow> bool" where
  "db_grows db db' \<longleftrightarrow> (\<exists>es. yd_ledger db' = yd_ledger db @ es)"

text \<open>An active job has an experiment that is not inactive; its posted range is covered by entries.\<close>

definition range_covered :: "yield_db \<Rightarrow> yield_job \<Rightarrow> yield_experiment \<Rightarrow> bool" where
  "range_covered db j x \<longleftrightarrow> (\<forall>s \<in> set (yj_days j). s \<in> set (yj_left j) \<or> s \<in> fst ` set (yj_pending j) \<or> s \<in> fst ` set (yj_faults j)
     \<or> accrual_of (yd_ledger db) (xp_id x) s \<noteq> None)"

definition complete_answer :: "yield_status \<Rightarrow> bool" where
  "complete_answer r \<longleftrightarrow> (case r of Posted_Run _ _ _ _ \<Rightarrow> True | Idempotent_Run _ _ \<Rightarrow> True | _ \<Rightarrow> False)"

text \<open>The sessions a run has to cover: from the one after its first close to its target.\<close>

definition session_range :: "yield_run \<Rightarrow> yield_experiment \<Rightarrow> int \<Rightarrow> int list option" where
  "session_range run x target =
     (if \<not> xc_is_session (yr_calendar run) target then None
      else case eligible_closes run x target of
             [] \<Rightarrow> None
           | (d, c) # _ \<Rightarrow> map_option (\<lambda>first. xc_between (yr_calendar run) first target) (xc_next (yr_calendar run) d))"

lemma session_range_eq:
  "xc_is_session (yr_calendar run) target \<Longrightarrow> eligible_closes run x target = dc # rest \<Longrightarrow> xc_next (yr_calendar run) (fst dc) = Some first \<Longrightarrow>
   session_range run x target = Some (xc_between (yr_calendar run) first target)"
  by (auto simp: session_range_def split: prod.split)

definition job_ok :: "yield_db \<Rightarrow> yield_job \<Rightarrow> bool" where
  "job_ok db j \<longleftrightarrow>
     (yj_answer j = None \<longrightarrow>
        (\<exists>x. yr_experiment (yj_run j) = Some x \<and> \<not> inactive x \<and> session_range (yj_run j) x (yj_target j) = Some (yj_days j)
           \<and> yj_days j \<noteq> [] \<and> range_covered db j x))
     \<and> (\<forall>r. yj_answer j = Some (Inr r) \<and> complete_answer r \<longrightarrow>
          (\<exists>x. yr_experiment (yj_run j) = Some x \<and> \<not> inactive x \<and> session_range (yj_run j) x (yj_target j) = Some (yj_days j)
             \<and> yj_days j \<noteq> [] \<and> (\<forall>s \<in> set (yj_days j). accrual_of (yd_ledger db) (xp_id x) s \<noteq> None)))"

lemma db_grows_refl [simp]: "db_grows db db"
  by (simp add: db_grows_def)

lemma db_grows_trans: "db_grows a b \<Longrightarrow> db_grows b c \<Longrightarrow> db_grows a c"
  by (auto simp: db_grows_def)

lemma db_grows_accrual: "db_grows db db' \<Longrightarrow> accrual_of (yd_ledger db) x s \<noteq> None \<Longrightarrow> accrual_of (yd_ledger db') x s \<noteq> None"
  by (auto simp: db_grows_def accrual_of_None)

lemma db_grows_job: "db_grows db db' \<Longrightarrow> job_ok db j \<Longrightarrow> job_ok db' j"
proof -
  assume g: "db_grows db db'" and ok: "job_ok db j"
  have keep: "accrual_of (yd_ledger db') x s \<noteq> None" if "accrual_of (yd_ledger db) x s \<noteq> None" for x s
    using db_grows_accrual [OF g that] .
  have "range_covered db j x \<Longrightarrow> range_covered db' j x" for x unfolding range_covered_def using keep by metis
  then show "job_ok db' j" using ok keep unfolding job_ok_def by metis
qed

lemma job_ended: "db_grows db db' \<Longrightarrow> \<not> (\<exists>r. a = Inr r \<and> complete_answer r) \<Longrightarrow> job_ok db' (j\<lparr>yj_answer := Some a\<rparr>)"
  by (auto simp: job_ok_def)

text \<open>
  A step of a job grows the ledger by at most one entry, of a session it had not, accrued by the job's own run.
\<close>

definition fair_step :: "yield_job \<Rightarrow> yield_db \<Rightarrow> yield_job \<Rightarrow> yield_db \<Rightarrow> bool" where
  "fair_step j db j' db' \<longleftrightarrow> yj_run j' = yj_run j \<and> job_ok db' j' \<and>
     (yd_ledger db' = yd_ledger db
      \<or> (\<exists>e. yd_ledger db' = yd_ledger db @ [e] \<and> accrual_of (yd_ledger db) (ac_experiment e) (ac_session e) = None
           \<and> accrued_by (yj_run j) e \<and> table_row_ok e))"

lemma record_run_ledger [simp]: "yd_ledger (record_run r db) = yd_ledger db"
  by (simp add: record_run_def)

lemma finish_fair:
  assumes "job_ok db j" "yj_answer j = None" "yj_left j = []" "yr_experiment (yj_run j) = Some x" "finish_run j x db = (j', db')"
  shows "fair_step j db j' db'"
  using assms
  by (auto simp: finish_run_def job_raises_def job_returns_def fair_step_def job_ok_def complete_answer_def range_covered_def
      split: if_splits option.splits)

lemma advance_fair:
  assumes "job_ok db j" "advance_job j db = (j', db')"
  shows "fair_step j db j' db'"
proof (cases "yj_answer j = None")
  case True
  then obtain x where x: "yr_experiment (yj_run j) = Some x" "\<not> inactive x" "range_covered db j x"
    and range: "session_range (yj_run j) x (yj_target j) = Some (yj_days j)" "yj_days j \<noteq> []" using assms(1) by (auto simp: job_ok_def)
  show ?thesis
  proof (cases "yj_left j")
    case Nil
    then show ?thesis using finish_fair [OF assms(1) True Nil x(1)] assms(2) True x(1) by (auto simp: advance_job_def)
  next
    case (Cons s rest)
    obtain r db1 where post: "post_session (yj_run j) x (yj_target j) s db = (r, db1)" by (cases "post_session (yj_run j) x (yj_target j) s db")
    note one = post_session_one_entry [OF x(1,2) post]
    have ledger: "yd_ledger db1 = yd_ledger db
      \<or> (\<exists>e. yd_ledger db1 = yd_ledger db @ [e] \<and> accrual_of (yd_ledger db) (ac_experiment e) (ac_session e) = None
           \<and> accrued_by (yj_run j) e \<and> table_row_ok e)"
      using one by (auto simp: one_entry_def)
    then have g: "db_grows db db1" by (auto simp: db_grows_def)
    show ?thesis
    proof (cases r)
      case (Inl err)
      then have "j' = j\<lparr>yj_left := rest, yj_answer := Some (Inl err)\<rparr>" "db' = db1"
        using assms(2) True x(1) Cons post by (auto simp: advance_job_def job_raises_def)
      then show ?thesis using ledger job_ended [of db db1 "Inl err" "j\<lparr>yj_left := rest\<rparr>"] g by (simp add: fair_step_def)
    next
      case (Inr res)
      then have j': "j' = note_session s res (j\<lparr>yj_left := rest\<rparr>)" "db' = db1"
        using assms(2) True x(1) Cons post by (auto simp: advance_job_def)
      have "range_covered db1 j' x"
      proof (cases res)
        case Session_Posted
        then have "accrual_of (yd_ledger db1) (xp_id x) s \<noteq> None"
          using one Inr by (auto simp: one_entry_def accrual_of_append)
        then show ?thesis using x(3) Cons db_grows_accrual [OF g] by (auto simp: range_covered_def j' note_session_def Session_Posted)
      qed (use x(3) Cons db_grows_accrual [OF g] in \<open>auto simp: range_covered_def j' note_session_def\<close>)
      then have "job_ok db1 j'" using True x range by (cases res) (auto simp: job_ok_def j' note_session_def)
      then show ?thesis using ledger j' by (cases res) (auto simp: fair_step_def note_session_def)
    qed
  qed
next
  case False
  then show ?thesis using assms by (auto simp: advance_job_def fair_step_def split: option.splits)
qed

lemma begin_fair:
  "begin_through run target db = (j, db') \<Longrightarrow> fair_step (new_job run target) db j db'"
  by (auto simp: begin_through_def Let_def job_returns_def job_raises_def fair_step_def job_ok_def new_job_def complete_answer_def
      range_covered_def session_range_eq filter_empty_conv split: if_splits option.splits list.splits)

lemma latest_fair:
  "begin_latest run db = (j, db') \<Longrightarrow> \<exists>target. fair_step (new_job run target) db j db'"
proof (cases "yr_experiment run")
  case None
  assume "begin_latest run db = (j, db')"
  with None show ?thesis by (auto simp: begin_latest_def job_raises_def fair_step_def job_ok_def new_job_def)
next
  case (Some x)
  assume b: "begin_latest run db = (j, db')"
  show ?thesis
  proof (cases "\<not> inactive x \<and> filter (\<lambda>(d, c). xp_start x \<le> d) (yr_closes run) \<noteq> []")
    case True
    then have "begin_through run (fst (last (filter (\<lambda>(d, c). xp_start x \<le> d) (yr_closes run)))) db = (j, db')"
      using b Some by (auto simp: begin_latest_def split: list.splits)
    then show ?thesis using begin_fair by blast
  next
    case False
    then show ?thesis using b Some
      by (auto simp: begin_latest_def job_returns_def fair_step_def job_ok_def new_job_def complete_answer_def split: if_splits)
  qed
qed

definition yield_ok :: "yield_world \<Rightarrow> bool" where
  "yield_ok w \<longleftrightarrow> distinct (map (\<lambda>e. (ac_experiment e, ac_session e)) (yd_ledger (yw_db w)))
     \<and> list_all (\<lambda>e. table_row_ok e \<and> list_ex (\<lambda>j. accrued_by (yj_run j) e) (yw_jobs w)) (yd_ledger (yw_db w))
     \<and> list_all (job_ok (yw_db w)) (yw_jobs w)"

text \<open>Replacing or adding one job after a fair step of it.\<close>

lemma fair_step_ok:
  assumes "yield_ok w" "fair_step j (yw_db w) j' db'" "j' \<in> set js"
    and jobs: "\<And>i. i \<in> set (yw_jobs w) \<Longrightarrow> i \<in> set js \<or> yj_run i = yj_run j'" "set js \<subseteq> insert j' (set (yw_jobs w))"
  shows "yield_ok \<lparr>yw_db = db', yw_jobs = js\<rparr> \<and> db_grows (yw_db w) db'"
proof -
  have run: "yj_run j' = yj_run j" and ok: "job_ok db' j'" using assms(2) by (auto simp: fair_step_def)
  have g: "db_grows (yw_db w) db'" using assms(2) by (auto simp: fair_step_def db_grows_def)
  have old: "list_ex (\<lambda>j. accrued_by (yj_run j) e) js" if "list_ex (\<lambda>j. accrued_by (yj_run j) e) (yw_jobs w)" for e
    using that jobs(1) assms(3) unfolding list_ex_iff by metis
  have new: "list_ex (\<lambda>j. accrued_by (yj_run j) e) js" if "accrued_by (yj_run j) e" for e
    using that run assms(3) unfolding list_ex_iff by metis
  have "list_all (job_ok db') js"
    using assms(1) ok jobs(2) db_grows_job [OF g] by (auto simp: list_all_iff yield_ok_def)
  moreover have "distinct (map (\<lambda>e. (ac_experiment e, ac_session e)) (yd_ledger db'))
     \<and> list_all (\<lambda>e. table_row_ok e \<and> list_ex (\<lambda>j. accrued_by (yj_run j) e) js) (yd_ledger db')"
    using assms(1,2) old new by (auto simp: fair_step_def yield_ok_def list_all_iff accrual_of_None simp del: list_ex_iff)
  ultimately show ?thesis using g by (simp add: yield_ok_def)
qed

lemma yield_step_ok:
  assumes "yield_ok w"
  shows "yield_ok (yield_step ev w) \<and> db_grows (yw_db w) (yw_db (yield_step ev w))"
proof (cases ev)
  case (Begin_Through run target)
  obtain j db' where b: "begin_through run target (yw_db w) = (j, db')" by (cases "begin_through run target (yw_db w)")
  show ?thesis using fair_step_ok [OF assms begin_fair [OF b], of "yw_jobs w @ [j]"] b by (simp add: yield_step_def Begin_Through)
next
  case (Begin_Latest run)
  obtain j db' where b: "begin_latest run (yw_db w) = (j, db')" by (cases "begin_latest run (yw_db w)")
  then obtain target where "fair_step (new_job run target) (yw_db w) j db'" using latest_fair by blast
  from fair_step_ok [OF assms this, of "yw_jobs w @ [j]"] show ?thesis using b by (simp add: yield_step_def Begin_Latest)
next
  case (Advance i)
  show ?thesis
  proof (cases "i < length (yw_jobs w)")
    case True
    obtain j db' where b: "advance_job (yw_jobs w ! i) (yw_db w) = (j, db')" by (cases "advance_job (yw_jobs w ! i) (yw_db w)")
    have "job_ok (yw_db w) (yw_jobs w ! i)" using assms True by (auto simp: yield_ok_def list_all_length)
    note f = advance_fair [OF this b]
    have "k \<in> set ((yw_jobs w)[i := j]) \<or> yj_run k = yj_run j" if k: "k \<in> set (yw_jobs w)" for k
    proof -
      from k obtain n where n: "n < length (yw_jobs w)" "yw_jobs w ! n = k" by (auto simp: in_set_conv_nth)
      show ?thesis
      proof (cases "n = i")
        case True
        then show ?thesis using n f by (auto simp: fair_step_def)
      next
        case False
        then show ?thesis using n by (metis length_list_update nth_list_update_neq nth_mem)
      qed
    qed
    from fair_step_ok [OF assms f set_update_memI [OF True] this set_update_subset_insert]
    show ?thesis using b True by (simp add: yield_step_def Advance)
  qed (use assms in \<open>simp add: yield_step_def Advance\<close>)
qed

lemma new_world_ok [simp]: "yield_ok new_yield_world"
  by (simp add: yield_ok_def new_yield_world_def)

lemma yield_run_ok: "yield_ok w \<Longrightarrow> yield_ok (run_ops yield_step evs w) \<and> db_grows (yw_db w) (yw_db (run_ops yield_step evs w))"
proof (induction evs arbitrary: w)
  case (Cons ev evs)
  then show ?case using yield_step_ok [OF Cons.prems, of ev] Cons.IH [of "yield_step ev w"] by (auto intro: db_grows_trans)
qed simp

lemmas reachable_ok = yield_run_ok [OF new_world_ok]

text \<open>
  C23: Interest is posted once, on rows the table accepts.  In every interleaving of runs the ledger holds an
  experiment's session at most once, and every entry meets all the constraints of the table: a positive
  number of days from the prior session, an observation of that session already out when it was fetched,
  and a base, a rate, a factor and an interest that are finite and not negative.
\<close>

theorem interest_posted_once:
  "distinct (map (\<lambda>e. (ac_experiment e, ac_session e)) (yd_ledger (yw_db (run_ops yield_step evs new_yield_world))))
     \<and> list_all table_row_ok (yd_ledger (yw_db (run_ops yield_step evs new_yield_world)))"
  using reachable_ok [of evs] by (auto simp: yield_ok_def list_all_iff)


text \<open>
  Posted entries are final.  Whatever runs do later, the entries in the ledger stay, unchanged and in
  their places.
\<close>

theorem ledger_is_append_only:
  "take (length (yd_ledger (yw_db (run_ops yield_step evs new_yield_world))))
     (yd_ledger (yw_db (run_ops yield_step (evs @ later) new_yield_world)))
   = yd_ledger (yw_db (run_ops yield_step evs new_yield_world))"
  using yield_run_ok [of "run_ops yield_step evs new_yield_world" later] reachable_ok [of evs] by (auto simp: db_grows_def)

text \<open>
  C24: A run that says it posted left nothing behind.  In every interleaving, when a run has answered that
  its sessions are posted, or that there was nothing to post, each session from the one after its first
  close to its target has an entry in the ledger, then and ever after; gaps and faults are answered
  differently.
\<close>

theorem completed_run_covers_range:
  "list_all (\<lambda>j. case yj_answer j of
       Some (Inr r) \<Rightarrow>
         \<not> complete_answer r \<or>
         (case yr_experiment (yj_run j) of
            None \<Rightarrow> False
          | Some x \<Rightarrow>
              (case session_range (yj_run j) x (yj_target j) of
                 None \<Rightarrow> False
               | Some days \<Rightarrow> list_all (\<lambda>s. accrual_of (yd_ledger (yw_db (run_ops yield_step evs new_yield_world))) (xp_id x) s \<noteq> None) days))
     | _ \<Rightarrow> True) (yw_jobs (run_ops yield_step evs new_yield_world))"
proof -
  let ?w = "run_ops yield_step evs new_yield_world"
  have "list_all (job_ok (yw_db ?w)) (yw_jobs ?w)" using reachable_ok [of evs] by (simp add: yield_ok_def)
  then show ?thesis
    by (rule list.pred_mono_strong) (fastforce simp: job_ok_def list_all_iff split: option.split sum.split)
qed

section \<open>The second run\<close>


definition sample_clock :: int where "sample_clock = available_after_day (ordinal 2026 7 1)"

text \<open>A run over one session, on a calendar where every day is one.\<close>

definition sample_run :: "int \<Rightarrow> yield_run" where
  "sample_run clock = \<lparr>
     yr_calendar = \<lparr>xc_is_session = \<lambda>d. True, xc_next = \<lambda>d. Some (d + 1), xc_previous = \<lambda>d. Some (d - 1), xc_between = \<lambda>a b. [a..b]\<rparr>,
     yr_experiment = Some \<lparr>xp_id = ''r2d2'', xp_start = ordinal 2026 7 1, xp_status = ''running''\<rparr>,
     yr_closes = [(ordinal 2026 7 1, Fin 1000)], yr_clock = (\<lambda>s. clock),
     yr_feed = (\<lambda>y. Feed [[(''INDEX_DATE'', ''2026-07-01T00:00:00''), (''ROUND_B1_YIELD_13WK_2'', ''3.65'')]]),
     yr_package_sha = (\<lambda>p. []), yr_entry_sha = (\<lambda>e. if ac_fetched e = sample_clock then ''a'' else ''b'')\<rparr>"

lemma advance_job_of [simp]:
  "yj_run (fst (advance_job j db)) = yj_run j" "yj_target (fst (advance_job j db)) = yj_target j"
  by (auto simp: advance_job_def finish_run_def job_returns_def job_raises_def note_session_def split: option.split list.split prod.split sum.split session_result.split)

lemma begin_through_of [simp]:
  "yj_run (fst (begin_through run target db)) = run" "yj_target (fst (begin_through run target db)) = target"
  by (auto simp: begin_through_def Let_def new_job_def job_returns_def job_raises_def split: option.split list.split)

lemma begun_jobs:
  "map (\<lambda>j. (yj_run j, yj_target j)) (yw_jobs (yield_step (Begin_Through run target) w)) = map (\<lambda>j. (yj_run j, yj_target j)) (yw_jobs w) @ [(run, target)]"
  "map (\<lambda>j. (yj_run j, yj_target j)) (yw_jobs (yield_step (Advance i) w)) = map (\<lambda>j. (yj_run j, yj_target j)) (yw_jobs w)"
proof -
  show "map (\<lambda>j. (yj_run j, yj_target j)) (yw_jobs (yield_step (Begin_Through run target) w)) = map (\<lambda>j. (yj_run j, yj_target j)) (yw_jobs w) @ [(run, target)]"
    using begin_through_of [of run target "yw_db w"] by (simp add: yield_step_def case_prod_beta)
  show "map (\<lambda>j. (yj_run j, yj_target j)) (yw_jobs (yield_step (Advance i) w)) = map (\<lambda>j. (yj_run j, yj_target j)) (yw_jobs w)"
    by (auto simp: yield_step_def case_prod_beta nth_list_update intro!: nth_equalityI)
qed

definition sample_events :: "yield_event list" where
  "sample_events = [Begin_Through (sample_run sample_clock) (ordinal 2026 7 2), Advance 0, Advance 0]"

definition sample_db :: yield_db where
  "sample_db = yw_db (run_ops yield_step sample_events new_yield_world)"

lemma sample_world:
  "map (\<lambda>j. case yj_answer j of Some (Inr (Posted_Run d i sha days)) \<Rightarrow> Some (d, days) | _ \<Rightarrow> None)
     (yw_jobs (run_ops yield_step sample_events new_yield_world))
   = [Some (ordinal 2026 7 2, [ordinal 2026 7 2])]"
  "map (\<lambda>e. (ac_experiment e, ac_session e, ac_fetched e, ac_sha e)) (yd_ledger sample_db) = [(''r2d2'', ordinal 2026 7 2, sample_clock, ''a'')]"
  by code_simp+

lemma sample_job:
  obtains j d i sha posted where "yw_jobs (run_ops yield_step sample_events new_yield_world) = [j]"
    "yj_run j = sample_run sample_clock" "yj_target j = ordinal 2026 7 2" "yj_answer j = Some (Inr (Posted_Run d i sha posted))"
proof -
  have "map (\<lambda>j. (yj_run j, yj_target j)) (yw_jobs (run_ops yield_step sample_events new_yield_world)) = [(sample_run sample_clock, ordinal 2026 7 2)]"
    by (simp add: sample_events_def begun_jobs new_yield_world_def)
  then obtain j where j: "yw_jobs (run_ops yield_step sample_events new_yield_world) = [j]" "yj_run j = sample_run sample_clock" "yj_target j = ordinal 2026 7 2"
    by (cases "yw_jobs (run_ops yield_step sample_events new_yield_world)") auto
  then show ?thesis
    using sample_world(1) that by (auto split: option.splits sum.splits yield_status.splits)
qed

lemma sample_range:
  "session_range (sample_run sample_clock) \<lparr>xp_id = ''r2d2'', xp_start = ordinal 2026 7 1, xp_status = ''running''\<rparr> (ordinal 2026 7 2)
   = Some [ordinal 2026 7 2]"
  by code_simp

theorem completed_run_covers_range_witness:
  "list_all (\<lambda>s. accrual_of (yd_ledger sample_db) ''r2d2'' s \<noteq> None) [ordinal 2026 7 2]"
proof -
  obtain j d i sha posted where j: "yw_jobs (run_ops yield_step sample_events new_yield_world) = [j]"
      "yj_run j = sample_run sample_clock" "yj_target j = ordinal 2026 7 2"
    and a: "yj_answer j = Some (Inr (Posted_Run d i sha posted))"
    by (rule sample_job)
  have x: "yr_experiment (sample_run sample_clock) = Some \<lparr>xp_id = ''r2d2'', xp_start = ordinal 2026 7 1, xp_status = ''running''\<rparr>"
    by (simp add: sample_run_def)
  from completed_run_covers_range [of sample_events] show ?thesis
    by (simp add: j a x sample_range complete_answer_def sample_db_def)
qed


section \<open>The run that comes second\<close>

text \<open>
  C38: The second of two runs over a session fails.  A session another run posted in the meantime is
  refused, not recognised: its canonical entry carries the fetch instant, so with a digest that separates
  the two instants the entries differ, the run raises in the middle and no result of it is recorded.
\<close>

theorem late_run_fails:
  assumes "xc_previous (yr_calendar run) s = Some p" "map_of (eligible_closes run x target) p = Some cash"
    and rate: "parse_treasury_bill_xml (yr_feed run (year_of p)) p (yr_clock run s) = Inr rate"
    and e: "make_entry run (xp_id x) s p cash rate = Inr e"
    and old: "accrual_of (yd_ledger db) (xp_id x) s = Some old" "ac_sha old = yr_entry_sha run (old\<lparr>ac_sha := []\<rparr>)"
    and digest: "\<And>a b. ac_fetched a = ac_fetched old \<Longrightarrow> ac_fetched b = yr_clock run s \<Longrightarrow> yr_entry_sha run a \<noteq> yr_entry_sha run b"
  shows "post_session run x target s db =
    (Inl (Data_Fault ''Existing cash-yield entry does not match the canonical entry''), db\<lparr>yd_rates := yd_rates db @ [rate]\<rparr>)"
proof -
  have "rp_fetched rate = yr_clock run s" using parse_Inr [OF rate] by auto
  moreover obtain e0 where "e = e0\<lparr>ac_sha := yr_entry_sha run e0\<rparr>" "ac_fetched e0 = rp_fetched rate" "ac_experiment e0 = xp_id x" "ac_session e0 = s"
    using e unfolding make_entry_Inr Let_def by (elim exE conjE, intro that) (assumption | simp)+
  ultimately have "ac_sha old \<noteq> ac_sha e" "ac_experiment e = xp_id x" "ac_session e = s" using old(2) digest [of "old\<lparr>ac_sha := []\<rparr>" e0] by auto
  then show ?thesis using assms(1,2) rate e old(1) by (simp add: post_session_def insert_entry_def Let_def)
qed


lemma sample_late:
  "(case parse_treasury_bill_xml (yr_feed (sample_run (sample_clock + 5)) (year_of (ordinal 2026 7 1))) (ordinal 2026 7 1) (sample_clock + 5) of
      Inl _ \<Rightarrow> None
    | Inr rate \<Rightarrow>
        (case make_entry (sample_run (sample_clock + 5)) ''r2d2'' (ordinal 2026 7 2) (ordinal 2026 7 1) (Fin 1000) rate of
           Inl _ \<Rightarrow> None | Inr e \<Rightarrow> Some (ac_sha e))) = Some ''b''"
  by code_simp

theorem late_run_fails_witness:
  "fst (post_session (sample_run (sample_clock + 5)) \<lparr>xp_id = ''r2d2'', xp_start = ordinal 2026 7 1, xp_status = ''running''\<rparr>
      (ordinal 2026 7 2) (ordinal 2026 7 2) sample_db)
   = Inl (Data_Fault ''Existing cash-yield entry does not match the canonical entry'')"
proof -
  let ?run = "sample_run (sample_clock + 5)" and ?x = "\<lparr>xp_id = ''r2d2'', xp_start = ordinal 2026 7 1, xp_status = ''running''\<rparr> :: yield_experiment"
  obtain old where old: "yd_ledger sample_db = [old]" "ac_experiment old = ''r2d2''" "ac_session old = ordinal 2026 7 2" "ac_fetched old = sample_clock" "ac_sha old = ''a''"
    using sample_world(2) by (cases "yd_ledger sample_db") auto
  obtain rate e where rate: "parse_treasury_bill_xml (yr_feed ?run (year_of (ordinal 2026 7 1))) (ordinal 2026 7 1) (yr_clock ?run (ordinal 2026 7 2)) = Inr rate"
    and e: "make_entry ?run (xp_id ?x) (ordinal 2026 7 2) (ordinal 2026 7 1) (Fin 1000) rate = Inr e"
    using sample_late by (auto simp: sample_run_def split: sum.splits)
  have days: "ordinal 2026 7 1 + 1 = ordinal 2026 7 2" by code_simp
  show ?thesis
    by (subst late_run_fails [where run = ?run, OF _ _ rate e])
      (use days old in \<open>auto simp: sample_run_def eligible_closes_def accrual_of_def\<close>)
qed

section \<open>The close it accrues on\<close>

text \<open>
  Only a proved close accrues.  A session has a closing cash in the live book only if a book stored for
  it was as of the close or later, with that cash, or if it follows the newest such session, the engine's
  checkpoint names that session as its last, has none open, and its cash agrees with the book's to five
  cents; a newest book the checkpoint contradicts gives its own session no close.
\<close>

theorem closing_cash_proved:
  "list_all (\<lambda>(d, c). (\<exists>b. lab d = Some b \<and> close d \<le> lb_as_of b \<and> c = lb_cash b \<and> BOOK_FIRST_SESSION \<le> d \<and> d < today)
      \<or> (\<exists>ck n b. checkpoint = Some ck \<and> \<not> ck_session_open ck \<and> ck_last_session ck = Some n \<and> lab n = Some b \<and> close n \<le> lb_as_of b
           \<and> c = lb_cash b \<and> d \<in> set (xc_between cal n (today - 1))
           \<and> \<not> flt (flit 5 100) (fabs (fsub (fsub (ck_nav_realized ck) (py_sum (ck_costs ck))) c))))
     (closing_cash cal close today lab checkpoint)"
proof -
  define stored where "stored = proved_closes close today lab"
  have own: "\<exists>b. lab d = Some b \<and> close d \<le> lb_as_of b \<and> c = lb_cash b \<and> BOOK_FIRST_SESSION \<le> d \<and> d < today" if "(d, c) \<in> set stored" for d c
    using that by (auto simp: stored_def proved_closes_def List.map_filter_def split: option.splits if_splits)
  have carried: "(d, c) \<in> set (fold (\<lambda>d m. AList.update d cash m) ds m) \<Longrightarrow> (d, c) \<in> set m \<or> d \<in> set ds \<and> c = cash" for d c cash ds and m :: closes
  proof (induction ds arbitrary: m)
    case (Cons a ds)
    have "(d, c) \<in> set (AList.update a cash m) \<Longrightarrow> (d, c) \<in> set m \<or> d = a \<and> c = cash" by (induction m) (auto split: if_splits)
    then show ?case using Cons by auto
  qed simp
  show ?thesis
  proof (cases "stored = []")
    case True
    then show ?thesis by (simp add: closing_cash_def stored_def)
  next
    case False
    obtain n cash where n: "last stored = (n, cash)" by (cases "last stored")
    then have newest: "(n, cash) \<in> set stored" using False last_in_set by fastforce
    show ?thesis
      using own own [OF newest] carried False n
      by (cases checkpoint) (fastforce simp: closing_cash_def Let_def list_all_iff stored_def [symmetric] checkpoint_cash_def CASH_TOLERANCE_USD_def)+
  qed
qed

end
