(* ===== verification/Contracts.thy ===== *)
theory Contracts
  imports Prelude
begin

text \<open>
  The contracts components rely on, as locales: a fallible step over a keyed dictionary that
  touches its own key only, a check of an event log that looks at the order of the events and
  not at their numbers, and a barrier that excludes work while it is held.  Each is interpreted in the theory of the component that keeps it.
\<close>

section \<open>A step that works on one key\<close>

locale keyed_step =
  fixes key :: "'e \<Rightarrow> 'k" and step :: "'e \<Rightarrow> ('k \<times> 'p) list \<Rightarrow> 'err + ('k \<times> 'p) list"
  assumes others: "step e m = Inr m' \<Longrightarrow> k \<noteq> key e \<Longrightarrow> map_of m' k = map_of m k"
    and focus: "step e m = Inr m' \<Longrightarrow> map_of n (key e) = map_of m (key e) \<Longrightarrow>
      \<exists>n'. step e n = Inr n' \<and> map_of n' (key e) = map_of m' (key e)"
begin

lemma fold_by_key:
  "efold step es m = Inr m' \<Longrightarrow> map_of n k = map_of m k \<Longrightarrow>
   \<exists>n'. efold step (filter (\<lambda>e. key e = k) es) n = Inr n' \<and> map_of n' k = map_of m' k"
proof (induction es arbitrary: m n)
  case (Cons e es)
  from Cons.prems(1) obtain u where u: "step e m = Inr u" "efold step es u = Inr m'"
    by (auto elim: ebind_Inr)
  show ?case
  proof (cases "key e = k")
    case True
    with focus [OF u(1), of n] Cons.prems(2) obtain v
      where "step e n = Inr v" "map_of v k = map_of u k" by auto
    with Cons.IH [OF u(2)] True show ?thesis by auto
  next
    case False
    with others [OF u(1), of k] Cons.prems(2) have "map_of n k = map_of u k" by simp
    with Cons.IH [OF u(2)] False show ?thesis by auto
  qed
qed auto

lemma fold_untouched: "efold step es m = Inr m' \<Longrightarrow> \<forall>e\<in>set es. key e \<noteq> k \<Longrightarrow> map_of m' k = map_of m k"
  using fold_by_key [of es m m' m k] by (auto simp: filter_empty_conv [THEN iffD2])

end

section \<open>A check of a log that does not depend on the numbers given to new entries\<close>

locale log_check =
  fixes num :: "'e \<Rightarrow> int" and stamp :: "int \<Rightarrow> 'e \<Rightarrow> 'e" and ok :: "'e list \<Rightarrow> bool"
  assumes ok_nil: "ok []"
    and restamp: "ok (es @ [stamp i e]) \<Longrightarrow> \<forall>x\<in>set es. num x < i \<Longrightarrow> \<forall>x\<in>set es. num x < j \<Longrightarrow> ok (es @ [stamp j e])"
begin

text \<open>An entry checked under one fresh number may be stored under another fresh number.\<close>

lemma store_checked:
  assumes "ok (es @ [stamp ((if es = [] then 0 else Max (num ` set es)) + 1) e])"
    and "\<forall>x\<in>set es. num x \<le> int n"
  shows "ok (es @ [stamp (int n + 1) e])"
proof (rule restamp [OF assms(1)])
  show "\<forall>x\<in>set es. num x < (if es = [] then 0 else Max (num ` set es)) + 1"
    by (auto simp: less_add_one le_imp_less_Suc intro!: zle_add1_eq_le [THEN iffD2] Max_ge)
  show "\<forall>x\<in>set es. num x < int n + 1" using assms(2) by fastforce
qed

end

section \<open>A barrier that excludes work while it is held\<close>

locale exclusion =
  fixes inv :: "'s \<Rightarrow> bool" and step :: "'op \<Rightarrow> 's \<Rightarrow> 's" and held :: "'d \<Rightarrow> 's \<Rightarrow> bool"
    and live :: "'s \<Rightarrow> 'w set" and ends :: "'d \<Rightarrow> 'op \<Rightarrow> bool"
  assumes keeps_inv: "inv s \<Longrightarrow> inv (step x s)"
    and excludes: "inv s \<Longrightarrow> held d s \<Longrightarrow> live s = {}"
    and keeps_held: "inv s \<Longrightarrow> held d s \<Longrightarrow> \<not> ends d x \<Longrightarrow> held d (step x s)"
begin

lemma inv_run: "inv s \<Longrightarrow> inv (run_ops step xs s)"
  by (rule run_ops_invariant [of inv]) (rule keeps_inv)

lemma quiet_while_held:
  "inv s \<Longrightarrow> held d s \<Longrightarrow> \<forall>x\<in>set xs. \<not> ends d x \<Longrightarrow>
   held d (run_ops step xs s) \<and> live (run_ops step xs s) = {}"
proof (induction xs arbitrary: s)
  case (Cons x xs)
  have "held d (step x s)" by (rule keeps_held [OF Cons.prems(1,2)]) (use Cons.prems(3) in simp)
  from Cons.IH [OF keeps_inv [OF Cons.prems(1)] this] Cons.prems(3) show ?case by simp
qed (simp add: excludes)

end

end
