(* ===== verification/MaintenanceGate.thy ===== *)
theory MaintenanceGate
  imports Contracts PyVal
begin

text \<open>
  \<open>c3po/backend/app/maintenance_gate.py\<close>: the admission barrier between the application's jobs and a
  maintenance drain.  An open file description is named by the call that opened it, so no two calls
  share one; the two lock files are lists of the descriptions that hold a lock.  A call of \<open>admit\<close> is a
  program counter that other processes may interleave with; opening a description and locking it is
  one step, since nobody else can see the description in between.  What the file system and the
  kernel show a call (the lock files' metadata, the reboot marker, the boot id) is its \<open>gate_env\<close>.
  A forked child, which would share its parent's descriptions, is not modelled beyond the test of
  the process number that every lease operation makes.
\<close>

section \<open>flock\<close>

datatype lock_mode = LOCK_SH | LOCK_EX

datatype gate_error = MaintenanceBusy | RuntimeError | ValueError | OSError | BlockingIOError

datatype fd = Admit_Gate nat | Admit_Work nat | Drain_Gate nat | Drain_Work nat

type_synonym lock_table = "(fd \<times> lock_mode) list"

text \<open>
  \<open>fcntl.flock(fd, mode | LOCK_NB)\<close>: a lock the same description already holds is replaced, every other
  one must be compatible.
\<close>

definition close_lock :: "fd \<Rightarrow> lock_table \<Rightarrow> lock_table" where
  "close_lock f tab = filter (\<lambda>x. fst x \<noteq> f) tab"

definition flock :: "fd \<Rightarrow> lock_mode \<Rightarrow> lock_table \<Rightarrow> gate_error + lock_table" where
  "flock f m tab =
     (if list_all (\<lambda>x. m = LOCK_SH \<and> snd x = LOCK_SH) (close_lock f tab)
      then Inr ((f, m) # close_lock f tab) else Inl BlockingIOError)"

section \<open>What a call sees of the file system\<close>

record file_stat =
  st_regular :: bool
  st_nlink :: nat
  st_mode :: nat
  st_dev :: nat
  st_ino :: nat

text \<open>A lock file of the directory: whether it opens without following a link, its description's
  metadata and the metadata now under its path.\<close>

record lock_path =
  lp_opens :: bool
  lp_value :: file_stat
  lp_current :: file_stat

datatype marker = Missing | Unreadable | Marker string

record gate_env =
  ge_symlink :: bool
  ge_admission :: lock_path
  ge_work :: lock_path
  ge_marker :: marker
  ge_boot :: string

definition open_lock :: "gate_env \<Rightarrow> lock_path \<Rightarrow> gate_error option" where
  "open_lock env p =
     (if ge_symlink env then Some ValueError
      else if \<not> lp_opens p then Some OSError
      else if \<not> st_regular (lp_value p) \<or> st_nlink (lp_value p) \<noteq> 1
           \<or> and (st_mode (lp_value p)) 18 \<noteq> 0
           \<or> (st_dev (lp_value p), st_ino (lp_value p)) \<noteq> (st_dev (lp_current p), st_ino (lp_current p))
      then Some ValueError
      else None)"

text \<open>
  \<open>uuid.UUID(text)\<close>: after dropping \<open>urn:\<close>, \<open>uuid:\<close>, outer braces and hyphens, 32 characters that
  \<open>int(_, 16)\<close> reads (blanks around it, a plus sign, a \<open>0x\<close> prefix and single underscores included).
\<close>

fun remove_sub :: "string \<Rightarrow> string \<Rightarrow> string" where
  "remove_sub p [] = []"
| "remove_sub p (c # cs) =
     (if p \<noteq> [] \<and> take (length p) (c # cs) = p then remove_sub p (drop (length p - 1) cs)
      else c # remove_sub p cs)"

definition strip_braces :: "string \<Rightarrow> string" where
  "strip_braces s = (let brace = (\<lambda>c. c = CHR ''{'' \<or> c = CHR ''}'') in rev (dropWhile brace (rev (dropWhile brace s))))"

definition is_hex :: "char \<Rightarrow> bool" where
  "is_hex c = (let n = of_char (lower_char c) :: nat in (48 \<le> n \<and> n \<le> 57) \<or> (97 \<le> n \<and> n \<le> 102))"

fun hex_run :: "bool \<Rightarrow> string \<Rightarrow> bool" where
  "hex_run after_digit [] = after_digit"
| "hex_run after_digit (c # cs) =
     (if is_hex c then hex_run True cs else c = CHR ''_'' \<and> after_digit \<and> hex_run False cs)"

definition reads_as_hex :: "string \<Rightarrow> bool" where
  "reads_as_hex s =
     (case sign_of (strip_text s) of (neg, t) \<Rightarrow>
      if map lower_char (take 2 t) = ''0x''
      then (let u = drop 2 t in hex_run False (if take 1 u = ''_'' then tl u else u))
      else hex_run False t)"

definition uuid_valid :: "string \<Rightarrow> bool" where
  "uuid_valid s =
     (let h = remove_sub ''-'' (strip_braces (remove_sub ''uuid:'' (remove_sub ''urn:'' s)))
      in length h = 32 \<and> reads_as_hex h)"

text \<open>The reboot marker of \<open>admit\<close>: the error it raises, if any.\<close>

definition marker_check :: "gate_env \<Rightarrow> gate_error option" where
  "marker_check env =
     (case ge_marker env of
        Missing \<Rightarrow> None
      | Unreadable \<Rightarrow> Some OSError
      | Marker text \<Rightarrow>
          (let value = strip_text text in
           if \<not> uuid_valid value then Some MaintenanceBusy
           else if value = strip_text (ge_boot env) then Some MaintenanceBusy
           else None))"

section \<open>The barrier's state\<close>

text \<open>\<open>_Work\<close> is keyed by the call of \<open>admit\<close> that made it: its description is \<open>Admit_Work i\<close>.\<close>

record work =
  wk_references :: nat
  wk_pid :: nat

record lease =
  ls_work :: nat
  ls_closed :: bool

record drain =
  dr_work :: bool
  dr_closed :: bool

datatype admit_pc =
    Entering
  | Sharing
  | Unmarked
  | Failing gate_error
  | Leaving nat
  | Admitted nat
  | Refused gate_error

record gate =
  admission_locks :: lock_table
  work_locks :: lock_table
  works :: "nat \<Rightarrow> work option"
  leases :: "lease list"
  admits :: "(nat \<times> admit_pc) list"
  drains :: "drain list"

definition gate_start :: gate where
  "gate_start = \<lparr>admission_locks = [], work_locks = [], works = (\<lambda>i. None), leases = [], admits = [], drains = []\<rparr>"

section \<open>admit\<close>

text \<open>
  One step of a call of \<open>admit\<close>: open and lock \<open>admission.lock\<close>; read the marker; open and lock
  \<open>work.lock\<close> and build the lease; close \<open>admission.lock\<close> (the \<open>finally\<close> clause) and return or raise.
\<close>

definition admit_next :: "gate_env \<Rightarrow> nat \<Rightarrow> nat \<Rightarrow> admit_pc \<Rightarrow> gate \<Rightarrow> admit_pc \<times> gate" where
  "admit_next env i pid pc g =
     (case pc of
        Entering \<Rightarrow>
          (case open_lock env (ge_admission env) of
             Some e \<Rightarrow> (Refused e, g)
           | None \<Rightarrow>
               (case flock (Admit_Gate i) LOCK_SH (admission_locks g) of
                  Inl e \<Rightarrow> (Refused MaintenanceBusy, g)
                | Inr tab \<Rightarrow> (Sharing, g\<lparr>admission_locks := tab\<rparr>)))
      | Sharing \<Rightarrow>
          (case marker_check env of Some e \<Rightarrow> (Failing e, g) | None \<Rightarrow> (Unmarked, g))
      | Unmarked \<Rightarrow>
          (case open_lock env (ge_work env) of
             Some e \<Rightarrow> (Failing e, g)
           | None \<Rightarrow>
               (case flock (Admit_Work i) LOCK_SH (work_locks g) of
                  Inl e \<Rightarrow> (Failing e, g)
                | Inr tab \<Rightarrow>
                    (Leaving (length (leases g)),
                     g\<lparr>work_locks := tab, works := (works g)(i \<mapsto> \<lparr>wk_references = 1, wk_pid = pid\<rparr>),
                       leases := leases g @ [\<lparr>ls_work = i, ls_closed = False\<rparr>]\<rparr>)))
      | Failing e \<Rightarrow> (Refused e, g\<lparr>admission_locks := close_lock (Admit_Gate i) (admission_locks g)\<rparr>)
      | Leaving l \<Rightarrow> (Admitted l, g\<lparr>admission_locks := close_lock (Admit_Gate i) (admission_locks g)\<rparr>)
      | Admitted l \<Rightarrow> (pc, g)
      | Refused e \<Rightarrow> (pc, g))"

definition admit_step :: "nat \<Rightarrow> gate_env \<Rightarrow> gate \<Rightarrow> gate" where
  "admit_step i env g =
     (if i < length (admits g)
      then (case admits g ! i of (pid, pc) \<Rightarrow>
            case admit_next env i pid pc g of (pc', g') \<Rightarrow> g'\<lparr>admits := (admits g)[i := (pid, pc')]\<rparr>)
      else g)"

definition admit_begin :: "nat \<Rightarrow> gate \<Rightarrow> gate" where
  "admit_begin pid g = g\<lparr>admits := admits g @ [(pid, Entering)]\<rparr>"

section \<open>Work leases\<close>

text \<open>The \<open>_Work\<close> behind a lease.\<close>

definition work_of :: "gate \<Rightarrow> nat \<Rightarrow> work option" where
  "work_of g l = (if l < length (leases g) then works g (ls_work (leases g ! l)) else None)"

definition lease_active :: "nat \<Rightarrow> nat \<Rightarrow> gate \<Rightarrow> bool" where
  "lease_active pid l g =
     (case work_of g l of None \<Rightarrow> False | Some w \<Rightarrow> \<not> ls_closed (leases g ! l) \<and> wk_pid w = pid)"

definition lease_retain :: "nat \<Rightarrow> nat \<Rightarrow> gate \<Rightarrow> gate_error + nat \<times> gate" where
  "lease_retain pid l g =
     (case work_of g l of
        None \<Rightarrow> Inl RuntimeError
      | Some w \<Rightarrow>
          if ls_closed (leases g ! l) \<or> wk_pid w \<noteq> pid then Inl RuntimeError
          else (let i = ls_work (leases g ! l) in
                Inr (length (leases g),
                     g\<lparr>works := (works g)(i \<mapsto> w\<lparr>wk_references := wk_references w + 1\<rparr>),
                       leases := leases g @ [\<lparr>ls_work = i, ls_closed = False\<rparr>]\<rparr>)))"

definition lease_close :: "nat \<Rightarrow> nat \<Rightarrow> gate \<Rightarrow> gate_error + gate" where
  "lease_close pid l g =
     (case work_of g l of
        None \<Rightarrow> Inl RuntimeError
      | Some w \<Rightarrow>
          if ls_closed (leases g ! l) then Inr g
          else if wk_pid w \<noteq> pid then Inl RuntimeError
          else (let i = ls_work (leases g ! l); n = wk_references w - 1 in
                Inr (g\<lparr>leases := (leases g)[l := (leases g ! l)\<lparr>ls_closed := True\<rparr>],
                       works := (works g)(i \<mapsto> w\<lparr>wk_references := n\<rparr>),
                       work_locks := (if n = 0 then close_lock (Admit_Work i) (work_locks g) else work_locks g)\<rparr>)))"

section \<open>Drain\<close>

text \<open>The constructor in its two steps: \<open>admission.lock\<close> exclusively, then \<open>work.lock\<close> opened.\<close>

definition drain_begin :: "gate_env \<Rightarrow> gate \<Rightarrow> gate_error + gate" where
  "drain_begin env g =
     (case open_lock env (ge_admission env) of
        Some e \<Rightarrow> Inl e
      | None \<Rightarrow>
          (case flock (Drain_Gate (length (drains g))) LOCK_EX (admission_locks g) of
             Inl e \<Rightarrow> Inl MaintenanceBusy
           | Inr tab \<Rightarrow> Inr (g\<lparr>admission_locks := tab, drains := drains g @ [\<lparr>dr_work = False, dr_closed = False\<rparr>]\<rparr>)))"

definition drain_open_work :: "nat \<Rightarrow> gate_env \<Rightarrow> gate \<Rightarrow> gate" where
  "drain_open_work d env g =
     (if d < length (drains g) \<and> \<not> dr_work (drains g ! d) \<and> \<not> dr_closed (drains g ! d)
      then (case open_lock env (ge_work env) of
              Some e \<Rightarrow> g\<lparr>admission_locks := close_lock (Drain_Gate d) (admission_locks g),
                          drains := (drains g)[d := \<lparr>dr_work = False, dr_closed = True\<rparr>]\<rparr>
            | None \<Rightarrow> g\<lparr>drains := (drains g)[d := \<lparr>dr_work = True, dr_closed = False\<rparr>]\<rparr>)
      else g)"

definition try_drained :: "nat \<Rightarrow> gate \<Rightarrow> gate_error + bool \<times> gate" where
  "try_drained d g =
     (if d \<ge> length (drains g) \<or> dr_closed (drains g ! d) \<or> \<not> dr_work (drains g ! d) then Inl RuntimeError
      else (case flock (Drain_Work d) LOCK_EX (work_locks g) of
              Inl e \<Rightarrow> Inr (False, g)
            | Inr tab \<Rightarrow> Inr (True, g\<lparr>work_locks := tab\<rparr>)))"

definition drain_close :: "nat \<Rightarrow> gate \<Rightarrow> gate" where
  "drain_close d g =
     (if d < length (drains g) \<and> \<not> dr_closed (drains g ! d)
      then g\<lparr>drains := (drains g)[d := (drains g ! d)\<lparr>dr_closed := True\<rparr>],
             work_locks := close_lock (Drain_Work d) (work_locks g),
             admission_locks := close_lock (Drain_Gate d) (admission_locks g)\<rparr>
      else g)"

section \<open>Interleavings\<close>

datatype gate_event =
    Admit_Begin nat
  | Admit_Step nat gate_env
  | Retain nat nat
  | Close nat nat
  | Drain_Begin gate_env
  | Drain_Open nat gate_env
  | Drain_Try nat
  | Drain_Close nat

text \<open>An operation that raises leaves the state the code leaves.\<close>

definition or_stay :: "gate \<Rightarrow> gate_error + gate \<Rightarrow> gate" where
  "or_stay g r = (case r of Inl e \<Rightarrow> g | Inr g' \<Rightarrow> g')"

fun gate_apply :: "gate_event \<Rightarrow> gate \<Rightarrow> gate" where
  "gate_apply (Admit_Begin pid) g = admit_begin pid g"
| "gate_apply (Admit_Step i env) g = admit_step i env g"
| "gate_apply (Retain pid l) g = or_stay g (map_sum id snd (lease_retain pid l g))"
| "gate_apply (Close pid l) g = or_stay g (lease_close pid l g)"
| "gate_apply (Drain_Begin env) g = or_stay g (drain_begin env g)"
| "gate_apply (Drain_Open d env) g = drain_open_work d env g"
| "gate_apply (Drain_Try d) g = or_stay g (map_sum id snd (try_drained d g))"
| "gate_apply (Drain_Close d) g = drain_close d g"

text \<open>The leases not yet closed, and the drains that hold \<open>work.lock\<close>.\<close>

definition live_leases :: "gate \<Rightarrow> nat set" where
  "live_leases g = {l. l < length (leases g) \<and> \<not> ls_closed (leases g ! l)}"

definition drained :: "nat \<Rightarrow> gate \<Rightarrow> bool" where
  "drained d g \<longleftrightarrow> (Drain_Work d, LOCK_EX) \<in> set (work_locks g)"

section \<open>The callers of the barrier\<close>

definition configured_directory :: "string option \<Rightarrow> string option \<Rightarrow> gate_error + string option" where
  "configured_directory dir environment =
     (case dir of
        Some v \<Rightarrow> if v \<noteq> [] then Inr (Some v)
                  else if environment = Some ''production'' then Inl RuntimeError else Inr None
      | None \<Rightarrow> if environment = Some ''production'' then Inl RuntimeError else Inr None)"

text \<open>A call of \<open>admit\<close> that nothing interleaves with: its result and the state after it.\<close>

definition admit_call :: "nat \<Rightarrow> gate_env \<Rightarrow> gate \<Rightarrow> (gate_error + nat) \<times> gate" where
  "admit_call pid env g =
     (let i = length (admits g);
          g' = run_ops gate_apply (Admit_Begin pid # replicate 4 (Admit_Step i env)) g
      in (case snd (admits g' ! i) of Admitted l \<Rightarrow> Inr l | Refused e \<Rightarrow> Inl e | _ \<Rightarrow> Inl RuntimeError, g'))"

text \<open>
  \<open>retain_work\<close>: a live parent lease is retained, an expired one is ignored, and without a parent the
  operation is admitted when a directory is configured.
\<close>

definition retain_work ::
    "nat \<Rightarrow> nat option \<Rightarrow> gate_error + string option \<Rightarrow> gate_env \<Rightarrow> gate \<Rightarrow> (gate_error + nat option) \<times> gate" where
  "retain_work pid parent directory env g =
     (case directory of
        Inl e \<Rightarrow> (Inl e, g)
      | Inr dir \<Rightarrow>
          let fresh = (if dir = None then (Inr None, g)
                       else (case admit_call pid env g of (r, g') \<Rightarrow> (map_sum id Some r, g')))
          in (case parent of
                None \<Rightarrow> fresh
              | Some l \<Rightarrow>
                  (case lease_retain pid l g of
                     Inl e \<Rightarrow> fresh
                   | Inr (l', g') \<Rightarrow> (Inr (Some l'), g'))))"

text \<open>The gate of \<open>job()\<close>: \<open>None\<close> for \<open>yield False\<close>, otherwise the lease the job runs under.\<close>

definition job_enter ::
    "nat \<Rightarrow> nat option \<Rightarrow> gate_error + string option \<Rightarrow> gate_env \<Rightarrow> gate \<Rightarrow> (gate_error + nat option option) \<times> gate" where
  "job_enter pid parent directory env g =
     (case retain_work pid parent directory env g of
        (Inl MaintenanceBusy, g') \<Rightarrow> (Inr None, g')
      | (Inl e, g') \<Rightarrow> (Inl e, g')
      | (Inr l, g') \<Rightarrow> (Inr (Some l), g'))"

text \<open>
  \<open>MaintenanceExecutor.submit\<close>: the lease the future keeps until it is done; a pool that refuses the
  task (\<open>accepts = False\<close>) gives the lease back.
\<close>

definition executor_submit ::
    "nat \<Rightarrow> nat option \<Rightarrow> gate_error + string option \<Rightarrow> gate_env \<Rightarrow> bool \<Rightarrow> gate \<Rightarrow> (gate_error + nat option) \<times> gate" where
  "executor_submit pid parent directory env accepts g =
     (case retain_work pid parent directory env g of
        (Inl e, g') \<Rightarrow> (Inl e, g')
      | (Inr l, g') \<Rightarrow>
          if accepts then (Inr l, g')
          else (Inl RuntimeError,
                case l of None \<Rightarrow> g' | Some n \<Rightarrow> or_stay g' (lease_close pid n g')))"

text \<open>What \<open>MaintenanceMiddleware\<close> answers: the application runs, a websocket is closed with 1013, a
  request is refused with 503 and a retry after 30 seconds.\<close>

datatype scope_type = Http | Websocket | Other_scope

datatype gate_answer = Serve | Close_1013 | Reply_503

definition middleware :: "scope_type \<Rightarrow> bool \<Rightarrow> gate_answer" where
  "middleware scope admitted =
     (if scope \<notin> {Http, Websocket} then Serve
      else if admitted then Serve
      else if scope = Websocket then Close_1013
      else Reply_503)"

section \<open>The lock files\<close>

definition exclusive :: "lock_table \<Rightarrow> bool" where
  "exclusive tab \<longleftrightarrow> (\<forall>x\<in>set tab. \<forall>y\<in>set tab. snd x = LOCK_EX \<longrightarrow> fst y = fst x)"

lemma set_close_lock [simp]: "x \<in> set (close_lock f tab) \<longleftrightarrow> x \<in> set tab \<and> fst x \<noteq> f"
  by (simp add: close_lock_def)

lemma exclusive_close [intro]: "exclusive tab \<Longrightarrow> exclusive (close_lock f tab)"
  by (auto simp: exclusive_def)

lemma not_shared [simp]: "m \<noteq> LOCK_SH \<longleftrightarrow> m = LOCK_EX"
  by (cases m) simp_all

lemma flock_if:
  "flock f m tab = (if \<forall>x\<in>set tab. fst x = f \<or> m = LOCK_SH \<and> snd x = LOCK_SH
     then Inr ((f, m) # close_lock f tab) else Inl BlockingIOError)"
proof -
  have "list_all (\<lambda>x. m = LOCK_SH \<and> snd x = LOCK_SH) (close_lock f tab)
      = (\<forall>x\<in>set tab. fst x = f \<or> m = LOCK_SH \<and> snd x = LOCK_SH)"
    by (auto simp only: list_all_iff Ball_def set_close_lock)
  then show ?thesis by (simp add: flock_def)
qed

lemma flock_Inr:
  "flock f m tab = Inr tab' \<longleftrightarrow>
     (\<forall>x\<in>set tab. fst x = f \<or> m = LOCK_SH \<and> snd x = LOCK_SH) \<and> tab' = (f, m) # close_lock f tab"
  unfolding flock_if by (simp split: if_split) blast

lemma flock_Inl:
  "flock f m tab = Inl e \<longleftrightarrow>
     \<not> (\<forall>x\<in>set tab. fst x = f \<or> m = LOCK_SH \<and> snd x = LOCK_SH) \<and> e = BlockingIOError"
  unfolding flock_if by (simp split: if_split del: not_shared) blast

lemma flock_exclusive: "flock f m tab = Inr tab' \<Longrightarrow> exclusive tab \<Longrightarrow> exclusive tab'"
  by (auto simp: flock_Inr exclusive_def)

section \<open>The invariant\<close>

text \<open>The program counters between the shared lock on \<open>admission.lock\<close> and the close of it.\<close>

fun holds_gate :: "admit_pc \<Rightarrow> bool" where
  "holds_gate Sharing = True"
| "holds_gate Unmarked = True"
| "holds_gate (Failing e) = True"
| "holds_gate (Leaving l) = True"
| "holds_gate pc = False"

fun has_work :: "admit_pc \<Rightarrow> bool" where
  "has_work (Leaving l) = True"
| "has_work (Admitted l) = True"
| "has_work pc = False"

definition pc_of :: "gate \<Rightarrow> nat \<Rightarrow> admit_pc" where
  "pc_of g i = (if i < length (admits g) then snd (admits g ! i) else Entering)"

definition open_drain :: "gate \<Rightarrow> nat \<Rightarrow> bool" where
  "open_drain g d \<longleftrightarrow> d < length (drains g) \<and> \<not> dr_closed (drains g ! d)"

text \<open>The locks of \<open>admission.lock\<close> are those of the admissions under way and of the open drains.\<close>

definition admission_inv :: "gate \<Rightarrow> bool" where
  "admission_inv g \<longleftrightarrow> exclusive (admission_locks g)
     \<and> (\<forall>i m. (Admit_Gate i, m) \<in> set (admission_locks g) \<longleftrightarrow> m = LOCK_SH \<and> holds_gate (pc_of g i))
     \<and> (\<forall>d m. (Drain_Gate d, m) \<in> set (admission_locks g) \<longleftrightarrow> m = LOCK_EX \<and> open_drain g d)
     \<and> (\<forall>i m. (Admit_Work i, m) \<notin> set (admission_locks g) \<and> (Drain_Work i, m) \<notin> set (admission_locks g))"

text \<open>The locks of \<open>work.lock\<close> are those of the works still referenced and of drains that are open.\<close>

definition work_inv :: "gate \<Rightarrow> bool" where
  "work_inv g \<longleftrightarrow> exclusive (work_locks g)
     \<and> (\<forall>i m. (Admit_Work i, m) \<in> set (work_locks g) \<longleftrightarrow>
          m = LOCK_SH \<and> (\<exists>w. works g i = Some w \<and> 0 < wk_references w))
     \<and> (\<forall>d m. (Drain_Work d, m) \<in> set (work_locks g) \<longrightarrow> m = LOCK_EX \<and> open_drain g d \<and> dr_work (drains g ! d))
     \<and> (\<forall>i m. (Admit_Gate i, m) \<notin> set (work_locks g) \<and> (Drain_Gate i, m) \<notin> set (work_locks g))"

definition live_on :: "gate \<Rightarrow> nat \<Rightarrow> nat" where
  "live_on g i = length (filter (\<lambda>x. ls_work x = i \<and> \<not> ls_closed x) (leases g))"

text \<open>A work's count is the number of its open leases.\<close>

definition lease_inv :: "gate \<Rightarrow> bool" where
  "lease_inv g \<longleftrightarrow>
     (\<forall>i. (works g i \<noteq> None) = has_work (pc_of g i))
     \<and> (\<forall>i w. works g i = Some w \<longrightarrow> wk_references w = live_on g i)
     \<and> (\<forall>x\<in>set (leases g). has_work (pc_of g (ls_work x)))"

definition gate_inv :: "gate \<Rightarrow> bool" where
  "gate_inv g \<longleftrightarrow> admission_inv g \<and> work_inv g \<and> lease_inv g"

lemma gate_inv_start: "gate_inv gate_start"
  by (simp add: gate_inv_def admission_inv_def work_inv_def lease_inv_def gate_start_def exclusive_def
      pc_of_def open_drain_def)

lemma pc_of_upd [simp]:
  "pc_of (g\<lparr>admission_locks := t\<rparr>) i = pc_of g i" "pc_of (g\<lparr>work_locks := t\<rparr>) i = pc_of g i"
  "pc_of (g\<lparr>works := ws\<rparr>) i = pc_of g i" "pc_of (g\<lparr>leases := ls\<rparr>) i = pc_of g i"
  "pc_of (g\<lparr>drains := ds\<rparr>) i = pc_of g i"
  "pc_of (h\<lparr>admits := (admits g)[j := (pid, pc)]\<rparr>) i = (if i = j \<and> j < length (admits g) then pc else pc_of g i)"
  "pc_of (h\<lparr>admits := admits g @ [(pid, Entering)]\<rparr>) i = pc_of g i"
  by (auto simp: pc_of_def nth_append less_Suc_eq)

lemma open_drain_upd [simp]:
  "open_drain (g\<lparr>admission_locks := t\<rparr>) d = open_drain g d" "open_drain (g\<lparr>work_locks := t\<rparr>) d = open_drain g d"
  "open_drain (g\<lparr>works := ws\<rparr>) d = open_drain g d" "open_drain (g\<lparr>leases := ls\<rparr>) d = open_drain g d"
  "open_drain (g\<lparr>admits := a\<rparr>) d = open_drain g d"
  "open_drain (h\<lparr>drains := drains g @ [x]\<rparr>) d = (if d = length (drains g) then \<not> dr_closed x else open_drain g d)"
  "open_drain (h\<lparr>drains := (drains g)[e := x]\<rparr>) d
     = (if d = e \<and> e < length (drains g) then \<not> dr_closed x else open_drain g d)"
  by (auto simp: open_drain_def nth_append less_Suc_eq)

lemma live_on_upd [simp]:
  "live_on (g\<lparr>admission_locks := t\<rparr>) i = live_on g i" "live_on (g\<lparr>work_locks := t\<rparr>) i = live_on g i"
  "live_on (g\<lparr>works := ws\<rparr>) i = live_on g i" "live_on (g\<lparr>admits := a\<rparr>) i = live_on g i"
  "live_on (g\<lparr>drains := ds\<rparr>) i = live_on g i"
  "live_on (h\<lparr>leases := leases g @ [x]\<rparr>) i = live_on g i + (if ls_work x = i \<and> \<not> ls_closed x then 1 else 0)"
  by (simp_all add: live_on_def)

lemma live_on_close:
  "l < length (leases g) \<Longrightarrow> \<not> ls_closed (leases g ! l) \<Longrightarrow>
   live_on (h\<lparr>leases := (leases g)[l := (leases g ! l)\<lparr>ls_closed := True\<rparr>]\<rparr>) i
     = live_on g i - (if ls_work (leases g ! l) = i then 1 else 0)"
  by (cases "ls_work (leases g ! l) = i")
    (auto simp: live_on_def length_filter_upd_same
      dest: length_filter_upd [of l "leases g" "\<lambda>x. ls_work x = i \<and> \<not> ls_closed x" "(leases g ! l)\<lparr>ls_closed := True\<rparr>"])

lemma live_on_0: "live_on g i = 0 \<Longrightarrow> l < length (leases g) \<Longrightarrow> ls_work (leases g ! l) = i \<Longrightarrow> ls_closed (leases g ! l)"
  by (auto simp: live_on_def filter_empty_conv)

text \<open>While a drain holds \<open>work.lock\<close> nothing is live, and it holds \<open>admission.lock\<close> as well.\<close>

lemma drained_excludes:
  assumes "gate_inv g" and "drained d g"
  shows "live_leases g = {}"
proof (rule ccontr)
  assume "live_leases g \<noteq> {}"
  then obtain l where l: "l < length (leases g)" "\<not> ls_closed (leases g ! l)" by (auto simp: live_leases_def)
  let ?i = "ls_work (leases g ! l)"
  obtain w where w: "works g ?i = Some w" "wk_references w = live_on g ?i"
    using assms(1) l(1) unfolding gate_inv_def lease_inv_def by (metis nth_mem option.exhaust)
  have "0 < wk_references w" using live_on_0 [OF _ l(1), of ?i] l(2) w(2) by auto
  then have "(Admit_Work ?i, LOCK_SH) \<in> set (work_locks g)"
    using assms(1) w(1) by (auto simp: gate_inv_def work_inv_def)
  moreover have "exclusive (work_locks g)" using assms(1) by (simp add: gate_inv_def work_inv_def)
  ultimately have "Admit_Work ?i = Drain_Work d"
    using assms(2) unfolding exclusive_def drained_def by fastforce
  then show False by simp
qed

text \<open>An admission past the shared lock on \<open>admission.lock\<close> leaves no open drain.\<close>

lemma sharing_excludes_drain:
  assumes "gate_inv g" and "holds_gate (pc_of g i)"
  shows "\<not> open_drain g d"
proof
  assume "open_drain g d"
  with assms have "(Drain_Gate d, LOCK_EX) \<in> set (admission_locks g)" "(Admit_Gate i, LOCK_SH) \<in> set (admission_locks g)"
    "exclusive (admission_locks g)" by (auto simp: gate_inv_def admission_inv_def)
  then have "Admit_Gate i = Drain_Gate d" unfolding exclusive_def by fastforce
  then show False by simp
qed

section \<open>Every operation keeps it\<close>

lemma gate_inv_begin [keeps]: "gate_inv g \<Longrightarrow> gate_inv (admit_begin pid g)"
  by (simp add: gate_inv_def admission_inv_def work_inv_def lease_inv_def admit_begin_def)

lemma gate_inv_share:
  assumes "gate_inv g" and "pc_of g i = Entering" and "i < length (admits g)"
    and "flock (Admit_Gate i) LOCK_SH (admission_locks g) = Inr tab"
  shows "gate_inv (g\<lparr>admission_locks := tab, admits := (admits g)[i := (pid, Sharing)]\<rparr>)"
  using assms flock_exclusive [OF assms(4)]
  by (auto simp: gate_inv_def admission_inv_def work_inv_def lease_inv_def flock_Inr)

lemma gate_inv_move:
  assumes "gate_inv g" and "pc_of g i = pc" and "i < length (admits g)"
    and "holds_gate pc' = holds_gate pc" and "has_work pc' = has_work pc"
  shows "gate_inv (g\<lparr>admits := (admits g)[i := (pid, pc')]\<rparr>)"
  using assms by (auto simp: gate_inv_def admission_inv_def work_inv_def lease_inv_def)

lemma gate_inv_release:
  assumes "gate_inv g" and "pc_of g i = pc" and "i < length (admits g)"
    and "\<not> holds_gate pc'" and "has_work pc' = has_work pc"
  shows "gate_inv (g\<lparr>admission_locks := close_lock (Admit_Gate i) (admission_locks g),
                     admits := (admits g)[i := (pid, pc')]\<rparr>)"
  using assms by (auto simp: gate_inv_def admission_inv_def work_inv_def lease_inv_def)

lemma live_on_fresh: "lease_inv g \<Longrightarrow> \<not> has_work (pc_of g i) \<Longrightarrow> live_on g i = 0"
  by (auto simp: lease_inv_def live_on_def filter_empty_conv)

lemma gate_inv_lease:
  assumes "gate_inv g" and "pc_of g i = Unmarked" and "i < length (admits g)"
    and "flock (Admit_Work i) LOCK_SH (work_locks g) = Inr tab"
  shows "gate_inv (g\<lparr>work_locks := tab, works := (works g)(i \<mapsto> \<lparr>wk_references = 1, wk_pid = p\<rparr>),
     leases := leases g @ [\<lparr>ls_work = i, ls_closed = False\<rparr>], admits := (admits g)[i := (pid, Leaving l)]\<rparr>)"
proof -
  have "(works g i \<noteq> None) = has_work (pc_of g i)" using assms(1) by (simp only: gate_inv_def lease_inv_def)
  then have "works g i = None" using assms(2) by simp
  with assms flock_exclusive [OF assms(4)] live_on_fresh [of g i] show ?thesis
    by (auto simp: gate_inv_def admission_inv_def work_inv_def lease_inv_def flock_Inr)
qed

lemma gate_inv_step [keeps]:
  assumes "gate_inv g"
  shows "gate_inv (admit_step i env g)"
proof (cases "i < length (admits g)")
  case True
  obtain pid pc where a: "admits g ! i = (pid, pc)" by (cases "admits g ! i")
  then have pc: "pc_of g i = pc" using True by (simp add: pc_of_def)
  have move: "gate_inv (g\<lparr>admits := (admits g)[i := (pid, pc')]\<rparr>)"
    if "holds_gate pc' = holds_gate pc" "has_work pc' = has_work pc" for pc'
    by (rule gate_inv_move [OF assms pc True that])
  show ?thesis
    using True a pc move gate_inv_share [OF assms _ True, of _ pid] gate_inv_lease [OF assms _ True, of _ pid]
      gate_inv_release [OF assms pc True]
    by (cases pc) (auto simp: admit_step_def admit_next_def split: option.split sum.split)
qed (simp add: admit_step_def assms)

lemma live_on_pos: "l < length (leases g) \<Longrightarrow> \<not> ls_closed (leases g ! l) \<Longrightarrow> 0 < live_on g (ls_work (leases g ! l))"
  using live_on_0 by blast

lemma work_of_Some: "work_of g l = Some w \<longleftrightarrow> l < length (leases g) \<and> works g (ls_work (leases g ! l)) = Some w"
  by (simp add: work_of_def)

lemma gate_inv_retain [keeps]: "gate_inv g \<Longrightarrow> lease_retain pid l g = Inr (l', g') \<Longrightarrow> gate_inv g'"
  by (auto simp: lease_retain_def Let_def work_of_Some live_on_pos gate_inv_def admission_inv_def work_inv_def lease_inv_def
      split: option.splits if_splits)

lemma set_close_lease:
  "x \<in> set (ls[l := (ls ! l)\<lparr>ls_closed := True\<rparr>]) \<Longrightarrow> l < length ls \<Longrightarrow> \<exists>y\<in>set ls. ls_work x = ls_work y"
  by (auto simp: in_set_conv_nth nth_list_update split: if_splits intro: bexI [OF refl nth_mem])

lemma gate_inv_close [keeps]: "gate_inv g \<Longrightarrow> lease_close pid l g = Inr g' \<Longrightarrow> gate_inv g'"
  by (auto simp: lease_close_def Let_def work_of_Some live_on_close gate_inv_def admission_inv_def work_inv_def lease_inv_def
      dest!: set_close_lease split: option.splits if_splits)

lemma open_drain_fresh [simp]: "\<not> open_drain g (length (drains g))"
  by (simp add: open_drain_def)

lemma open_drain_append [simp]: "open_drain g d \<Longrightarrow> (drains g @ xs) ! d = drains g ! d"
  by (simp add: open_drain_def nth_append)

lemma exclusive_alone [simp]: "\<forall>x\<in>set tab. fst x = f \<Longrightarrow> exclusive ((f, m) # close_lock f tab)"
  by (auto simp: exclusive_def)

lemma gate_inv_drain_begin [keeps]: "gate_inv g \<Longrightarrow> drain_begin env g = Inr g' \<Longrightarrow> gate_inv g'"
  by (auto simp: drain_begin_def gate_inv_def admission_inv_def work_inv_def lease_inv_def flock_Inr
      split: option.splits sum.splits)

lemma gate_inv_drain_open [keeps]:
  assumes "gate_inv g"
  shows "gate_inv (drain_open_work d env g)"
proof (cases "open_drain g d \<and> \<not> dr_work (drains g ! d)")
  case True
  then have "d < length (drains g)" "\<not> dr_closed (drains g ! d)" by (simp_all add: open_drain_def)
  moreover have "(Drain_Work d, m) \<notin> set (work_locks g)" for m
    using assms True by (auto simp: gate_inv_def work_inv_def)
  ultimately show ?thesis using assms True
    by (auto simp: drain_open_work_def gate_inv_def admission_inv_def work_inv_def lease_inv_def split: option.splits)
next
  case False
  then show ?thesis using assms by (auto simp: drain_open_work_def open_drain_def)
qed

lemma gate_inv_try [keeps]: "gate_inv g \<Longrightarrow> try_drained d g = Inr (b, g') \<Longrightarrow> gate_inv g'"
  by (auto simp: try_drained_def gate_inv_def admission_inv_def work_inv_def lease_inv_def flock_Inr open_drain_def
      split: if_splits sum.splits)

lemma gate_inv_drain_close [keeps]: "gate_inv g \<Longrightarrow> gate_inv (drain_close d g)"
  by (auto simp: drain_close_def gate_inv_def admission_inv_def work_inv_def lease_inv_def)

lemma gate_inv_stay: "gate_inv g \<Longrightarrow> (\<And>g'. r = Inr g' \<Longrightarrow> gate_inv g') \<Longrightarrow> gate_inv (or_stay g r)"
  by (cases r) (simp_all add: or_stay_def)

lemma map_snd_Inr: "map_sum id snd r = Inr y \<longleftrightarrow> (\<exists>x. r = Inr (x, y))"
  by (cases r) auto

lemma gate_inv_apply [keeps]:
  assumes "gate_inv g"
  shows "gate_inv (gate_apply e g)"
proof (cases e)
  case (Retain pid l)
  then show ?thesis by (auto simp: map_snd_Inr intro!: gate_inv_stay [OF assms] dest: gate_inv_retain [OF assms])
next
  case (Close pid l)
  then show ?thesis by (auto intro!: gate_inv_stay [OF assms] dest: gate_inv_close [OF assms])
next
  case (Drain_Begin env)
  then show ?thesis by (auto intro!: gate_inv_stay [OF assms] dest: gate_inv_drain_begin [OF assms])
next
  case (Drain_Try d)
  then show ?thesis by (auto simp: map_snd_Inr intro!: gate_inv_stay [OF assms] dest: gate_inv_try [OF assms])
qed (simp_all add: assms gate_inv_begin gate_inv_step gate_inv_drain_open gate_inv_drain_close)

section \<open>The barrier\<close>

lemma drained_other_lock:
  "gate_inv g \<Longrightarrow> drained d g \<Longrightarrow> flock f m (work_locks g) = Inr tab \<Longrightarrow> f = Drain_Work d"
  by (auto simp: drained_def flock_Inr)

lemma drained_open: "gate_inv g \<Longrightarrow> drained d g \<Longrightarrow> open_drain g d"
  by (auto simp: drained_def gate_inv_def work_inv_def)

lemma one_drain:
  assumes "gate_inv g" and "open_drain g d" and "open_drain g e"
  shows "d = e"
proof -
  have "(Drain_Gate d, LOCK_EX) \<in> set (admission_locks g)" "(Drain_Gate e, LOCK_EX) \<in> set (admission_locks g)"
    "exclusive (admission_locks g)" using assms by (auto simp: gate_inv_def admission_inv_def)
  then show ?thesis unfolding exclusive_def by fastforce
qed

lemma drained_keeps:
  assumes "gate_inv g" and "drained d g" and "e \<noteq> Drain_Close d"
  shows "drained d (gate_apply e g)"
proof -
  note other = drained_other_lock [OF assms(1,2)]
  have work: "(Drain_Work d, LOCK_EX) \<in> set (work_locks g)" using assms(2) by (simp add: drained_def)
  show ?thesis
  proof (cases e)
    case (Admit_Step i env)
    then show ?thesis using work
      by (auto simp: admit_step_def admit_next_def drained_def dest: other split: option.splits sum.splits prod.splits admit_pc.splits)
  next
    case (Drain_Try c)
    then show ?thesis using work
      by (auto simp: drained_def or_stay_def try_drained_def flock_Inr split: sum.splits if_splits)
  next
    case (Drain_Close c)
    then show ?thesis using work assms(3) by (auto simp: drained_def drain_close_def)
  qed (use work in \<open>auto simp: drained_def or_stay_def admit_begin_def lease_retain_def lease_close_def drain_begin_def
         drain_open_work_def Let_def split: option.splits sum.splits if_splits\<close>)
qed

interpretation gb: exclusion gate_inv gate_apply drained live_leases "\<lambda>d e. e = Drain_Close d"
  by unfold_locales (fact gate_inv_apply drained_excludes drained_keeps)+

lemma gate_inv_run: "gate_inv (run_ops gate_apply es gate_start)"
  by (rule gb.inv_run [OF gate_inv_start])

end
