(* ===== verification/MaintenanceBarrier.thy ===== *)
theory MaintenanceBarrier
  imports MaintenanceGate
begin

text \<open>
  What the admission barrier promises: an abstract barrier (who is working, who has shut the gate, who
  has seen it empty) that every interleaving of the model refines, the silence between a successful
  \<open>try_drained\<close> and the drain's \<open>close\<close>, and the exact outcome of \<open>admit\<close>.
\<close>

section \<open>The abstract barrier\<close>

record barrier =
  ba_live :: "nat set"
  ba_shut :: "nat set"
  ba_drained :: "nat set"

inductive barrier_step :: "barrier \<Rightarrow> barrier \<Rightarrow> bool" where
  enter: "ba_shut b = {} \<Longrightarrow> l \<notin> ba_live b \<Longrightarrow> barrier_step b (b\<lparr>ba_live := insert l (ba_live b)\<rparr>)"
| child: "p \<in> ba_live b \<Longrightarrow> l \<notin> ba_live b \<Longrightarrow> barrier_step b (b\<lparr>ba_live := insert l (ba_live b)\<rparr>)"
| leave: "l \<in> ba_live b \<Longrightarrow> barrier_step b (b\<lparr>ba_live := ba_live b - {l}\<rparr>)"
| shut: "ba_shut b = {} \<Longrightarrow> barrier_step b (b\<lparr>ba_shut := {d}\<rparr>)"
| drain: "ba_shut b = {d} \<Longrightarrow> ba_live b = {} \<Longrightarrow> barrier_step b (b\<lparr>ba_drained := {d}\<rparr>)"
| reopen: "ba_shut b = {d} \<Longrightarrow> barrier_step b (b\<lparr>ba_shut := {}, ba_drained := {}\<rparr>)"
| stutter: "barrier_step b b"

definition barrier_of :: "gate \<Rightarrow> barrier" where
  "barrier_of g = \<lparr>ba_live = live_leases g, ba_shut = {d. open_drain g d}, ba_drained = {d. drained d g}\<rparr>"

lemma live_leases_upd [simp]:
  "live_leases (h\<lparr>leases := leases g @ [\<lparr>ls_work = i, ls_closed = False\<rparr>]\<rparr>) = insert (length (leases g)) (live_leases g)"
  "l < length (leases g) \<Longrightarrow>
     live_leases (h\<lparr>leases := (leases g)[l := (leases g ! l)\<lparr>ls_closed := True\<rparr>]\<rparr>) = live_leases g - {l}"
  "live_leases (g\<lparr>admission_locks := t\<rparr>) = live_leases g" "live_leases (g\<lparr>work_locks := t\<rparr>) = live_leases g"
  "live_leases (g\<lparr>works := w\<rparr>) = live_leases g" "live_leases (g\<lparr>admits := a\<rparr>) = live_leases g"
  "live_leases (g\<lparr>drains := ds\<rparr>) = live_leases g"
  by (auto simp: live_leases_def nth_append nth_list_update less_Suc_eq split: if_splits)

lemma live_leases_fresh [simp]: "length (leases g) \<notin> live_leases g"
  by (simp add: live_leases_def)

lemma drained_upd [simp]:
  "drained d (g\<lparr>admission_locks := t\<rparr>) = drained d g" "drained d (g\<lparr>works := w\<rparr>) = drained d g"
  "drained d (g\<lparr>leases := ls\<rparr>) = drained d g" "drained d (g\<lparr>admits := a\<rparr>) = drained d g"
  "drained d (g\<lparr>drains := ds\<rparr>) = drained d g"
  by (simp_all add: drained_def)

lemma drained_lock:
  "drained d (h\<lparr>work_locks := (f, m) # close_lock f (work_locks g)\<rparr>)
     = ((f = Drain_Work d \<and> m = LOCK_EX) \<or> (drained d g \<and> f \<noteq> Drain_Work d))"
  "drained d (h\<lparr>work_locks := close_lock f (work_locks g)\<rparr>) = (drained d g \<and> f \<noteq> Drain_Work d)"
  by (auto simp: drained_def)

text \<open>Each kind of event, as a step of the abstract barrier.\<close>

lemma admit_step_refines:
  assumes "gate_inv g"
  shows "barrier_step (barrier_of g) (barrier_of (admit_step i env g))"
proof (cases "i < length (admits g)")
  case True
  obtain pid pc where a: "admits g ! i = (pid, pc)" by (cases "admits g ! i")
  have shut: "pc = Unmarked \<Longrightarrow> {d. open_drain g d} = {}"
    using sharing_excludes_drain [OF assms, of i] a True by (simp add: pc_of_def)
  have "barrier_of (admit_step i env g) = barrier_of g
      \<or> pc = Unmarked \<and> barrier_of (admit_step i env g) = (barrier_of g)\<lparr>ba_live := insert (length (leases g)) (live_leases g)\<rparr>"
    using True a
    by (cases pc) (auto simp: admit_step_def admit_next_def barrier_of_def flock_Inr drained_lock
        split: option.split sum.split)
  then show ?thesis
  proof (elim disjE conjE)
    assume "pc = Unmarked"
      and b: "barrier_of (admit_step i env g) = (barrier_of g)\<lparr>ba_live := insert (length (leases g)) (live_leases g)\<rparr>"
    then show ?thesis using shut barrier_step.enter [of "barrier_of g" "length (leases g)"] by (simp add: barrier_of_def)
  qed (simp add: barrier_step.stutter)
qed (simp add: admit_step_def barrier_step.stutter)

lemma retain_refines:
  assumes "lease_retain pid l g = Inr (n, g')"
  shows "barrier_step (barrier_of g) (barrier_of g')"
proof -
  have "l \<in> live_leases g" and "barrier_of g' = (barrier_of g)\<lparr>ba_live := insert (length (leases g)) (live_leases g)\<rparr>"
    using assms by (auto simp: lease_retain_def work_of_Some Let_def barrier_of_def live_leases_def [of g]
        split: option.splits if_splits)
  then show ?thesis using barrier_step.child [of l "barrier_of g" "length (leases g)"] by (simp add: barrier_of_def)
qed

lemma close_refines:
  assumes "lease_close pid l g = Inr g'"
  shows "barrier_step (barrier_of g) (barrier_of g')"
proof (cases "l \<in> live_leases g")
  case True
  then have "barrier_of g' = (barrier_of g)\<lparr>ba_live := live_leases g - {l}\<rparr>"
    using assms by (auto simp: lease_close_def work_of_Some Let_def barrier_of_def drained_lock live_leases_def [of g]
        split: option.splits if_splits)
  then show ?thesis using True barrier_step.leave [of l "barrier_of g"] by (simp add: barrier_of_def)
next
  case False
  then have "g' = g"
    using assms by (auto simp: lease_close_def work_of_Some Let_def live_leases_def split: option.splits if_splits)
  then show ?thesis by (simp add: barrier_step.stutter)
qed

lemma drain_begin_refines:
  assumes "gate_inv g" and "drain_begin env g = Inr g'"
  shows "barrier_step (barrier_of g) (barrier_of g')"
proof -
  have alone: "\<forall>x\<in>set (admission_locks g). fst x = Drain_Gate (length (drains g))"
    and g': "barrier_of g' = (barrier_of g)\<lparr>ba_shut := insert (length (drains g)) {d. open_drain g d}\<rparr>"
    using assms(2) by (auto simp: drain_begin_def flock_Inr barrier_of_def split: option.splits sum.splits)
  have "(Drain_Gate d, LOCK_EX) \<in> set (admission_locks g)" if "open_drain g d" for d
    using assms(1) that by (simp add: gate_inv_def admission_inv_def)
  with alone have none: "{d. open_drain g d} = {}" by fastforce
  show ?thesis unfolding g' none
    using barrier_step.shut [of "barrier_of g" "length (drains g)"] none by (simp add: barrier_of_def)
qed

lemma reopen_refines:
  assumes "gate_inv g" and "open_drain g d"
    and "ba_live (barrier_of g') = live_leases g" and "\<And>c. open_drain g' c = (open_drain g c \<and> c \<noteq> d)"
    and "\<And>c. drained c g' = (drained c g \<and> c \<noteq> d)"
  shows "barrier_step (barrier_of g) (barrier_of g')"
proof -
  have only: "open_drain g c \<longleftrightarrow> c = d" for c using one_drain [OF assms(1,2), of c] assms(2) by blast
  have "drained c g \<Longrightarrow> c = d" for c using drained_open [OF assms(1)] only by blast
  then have "barrier_of g' = (barrier_of g)\<lparr>ba_shut := {}, ba_drained := {}\<rparr>"
    using assms(3-5) only by (auto simp: barrier_of_def)
  then show ?thesis using barrier_step.reopen [of "barrier_of g" d] only by (simp add: barrier_of_def)
qed

lemma drain_open_refines:
  assumes "gate_inv g"
  shows "barrier_step (barrier_of g) (barrier_of (drain_open_work d env g))"
proof (cases "open_drain g d \<and> \<not> dr_work (drains g ! d)")
  case True
  then have d: "d < length (drains g)" "\<not> dr_closed (drains g ! d)" by (simp_all add: open_drain_def)
  show ?thesis
  proof (cases "open_lock env (ge_work env)")
    case None
    with True d have "barrier_of (drain_open_work d env g) = barrier_of g"
      by (auto simp: drain_open_work_def barrier_of_def)
    then show ?thesis by (simp add: barrier_step.stutter)
  next
    case (Some e)
    have "\<not> drained d g" using assms True by (auto simp: gate_inv_def work_inv_def drained_def)
    with True d Some show ?thesis
      by (intro reopen_refines [OF assms, of d]) (auto simp: drain_open_work_def barrier_of_def)
  qed
next
  case False
  then have "drain_open_work d env g = g" by (auto simp: drain_open_work_def open_drain_def)
  then show ?thesis by (simp add: barrier_step.stutter)
qed

lemma try_refines:
  assumes "gate_inv g" and "try_drained d g = Inr (b, g')"
  shows "barrier_step (barrier_of g) (barrier_of g')"
proof (cases b)
  case True
  have o: "open_drain g d" and g': "barrier_of g' = (barrier_of g)\<lparr>ba_drained := insert d {c. drained c g}\<rparr>"
    using assms(2) True by (auto simp: try_drained_def flock_Inr barrier_of_def drained_lock open_drain_def
        split: if_splits sum.splits)
  have "gate_inv g'" using gate_inv_try [OF assms] .
  moreover have "drained d g'" using arg_cong [OF g', of ba_drained] by (auto simp: barrier_of_def)
  ultimately have "live_leases g' = {}" by (rule drained_excludes)
  then have live: "live_leases g = {}" using arg_cong [OF g', of ba_live] by (simp add: barrier_of_def)
  have only: "{c. open_drain g c} = {d}" using o by (auto dest: one_drain [OF assms(1) o])
  have all: "insert d {c. drained c g} = {d}" using drained_open [OF assms(1)] only by auto
  show ?thesis unfolding g' all using barrier_step.drain [of "barrier_of g" d] live only by (simp add: barrier_of_def)
next
  case False
  then have "g' = g" using assms(2) by (auto simp: try_drained_def split: if_splits sum.splits)
  then show ?thesis by (simp add: barrier_step.stutter)
qed

lemma drain_close_refines:
  assumes "gate_inv g"
  shows "barrier_step (barrier_of g) (barrier_of (drain_close d g))"
proof (cases "open_drain g d")
  case True
  then have "d < length (drains g)" "\<not> dr_closed (drains g ! d)" by (simp_all add: open_drain_def)
  then show ?thesis
    by (intro reopen_refines [OF assms True]) (auto simp: drain_close_def barrier_of_def drained_lock)
next
  case False
  then have "drain_close d g = g" by (auto simp: drain_close_def open_drain_def)
  then show ?thesis by (simp add: barrier_step.stutter)
qed

lemma stay_refines:
  "(\<And>g'. r = Inr g' \<Longrightarrow> barrier_step (barrier_of g) (barrier_of g')) \<Longrightarrow>
   barrier_step (barrier_of g) (barrier_of (or_stay g r))"
  by (cases r) (simp_all add: or_stay_def barrier_step.stutter)

lemma apply_refines:
  assumes "gate_inv g"
  shows "barrier_step (barrier_of g) (barrier_of (gate_apply e g))"
proof (cases e)
  case (Admit_Begin pid)
  then have "barrier_of (gate_apply e g) = barrier_of g" by (simp add: admit_begin_def barrier_of_def)
  then show ?thesis by (simp add: barrier_step.stutter)
next
  case (Retain pid l)
  then show ?thesis by (auto simp: map_snd_Inr intro!: stay_refines dest: retain_refines)
next
  case (Close pid l)
  then show ?thesis by (auto intro!: stay_refines dest: close_refines)
next
  case (Drain_Begin env)
  then show ?thesis by (auto intro!: stay_refines dest: drain_begin_refines [OF assms])
next
  case (Drain_Try d)
  then show ?thesis by (auto simp: map_snd_Inr intro!: stay_refines dest: try_refines [OF assms])
qed (simp_all add: admit_step_refines drain_open_refines drain_close_refines assms)

section \<open>The outcome of \<open>admit\<close>\<close>

lemma flock_share:
  assumes "gate_inv g" and "i = length (admits g)"
  shows "flock (Admit_Gate i) LOCK_SH (admission_locks g)
    = (if \<exists>d. open_drain g d then Inl BlockingIOError else Inr ((Admit_Gate i, LOCK_SH) # admission_locks g))"
proof -
  have a: "admission_inv g" using assms(1) by (simp add: gate_inv_def)
  have mine: "fst x \<noteq> Admit_Gate i" if "x \<in> set (admission_locks g)" for x
  proof
    assume "fst x = Admit_Gate i"
    then have "(Admit_Gate i, snd x) \<in> set (admission_locks g)" using that by (metis prod.collapse)
    then show False using a assms(2) by (auto simp: admission_inv_def pc_of_def)
  qed
  have "(\<forall>x\<in>set (admission_locks g). fst x = Admit_Gate i \<or> LOCK_SH = LOCK_SH \<and> snd x = LOCK_SH)
      \<longleftrightarrow> \<not> (\<exists>d. open_drain g d)" (is "?l = ?r")
  proof
    assume l: ?l
    have "(Drain_Gate d, LOCK_EX) \<in> set (admission_locks g)" if "open_drain g d" for d
      using a that by (simp add: admission_inv_def)
    with l show ?r by fastforce
  next
    assume r: ?r
    have "m = LOCK_SH" if "(f, m) \<in> set (admission_locks g)" for f m
      using that a r by (cases f) (simp_all add: admission_inv_def)
    then show ?l by auto
  qed
  moreover have "close_lock (Admit_Gate i) (admission_locks g) = admission_locks g"
    using mine by (simp add: close_lock_def filter_id_conv)
  ultimately show ?thesis by (simp add: flock_if)
qed

lemma flock_work:
  assumes "gate_inv g" and "i = length (admits g)" and "\<not> (\<exists>d. open_drain g d)"
  shows "flock (Admit_Work i) LOCK_SH (work_locks g) = Inr ((Admit_Work i, LOCK_SH) # close_lock (Admit_Work i) (work_locks g))"
proof -
  have "m = LOCK_SH" if "(f, m) \<in> set (work_locks g)" for f m
    using that assms(1,3) by (cases f) (auto simp: gate_inv_def work_inv_def)
  then have "\<forall>x\<in>set (work_locks g). snd x = LOCK_SH" by auto
  then show ?thesis by (simp add: flock_if)
qed

lemma admit_steps:
  assumes "gate_inv g" and "i = length (admits g)"
  shows "snd (admits (run_ops gate_apply (Admit_Begin pid # replicate 4 (Admit_Step i env)) g) ! i)
    = (case open_lock env (ge_admission env) of Some e \<Rightarrow> Refused e
       | None \<Rightarrow> if \<exists>d. open_drain g d then Refused MaintenanceBusy
         else (case marker_check env of Some e \<Rightarrow> Refused e
               | None \<Rightarrow> (case open_lock env (ge_work env) of Some e \<Rightarrow> Refused e
                           | None \<Rightarrow> Admitted (length (leases g)))))"
  using flock_share [OF assms] flock_work [OF assms]
  by (simp add: numeral_eq_Suc admit_begin_def admit_step_def admit_next_def assms(2) nth_append
      split: option.split)

section \<open>Properties\<close>

text \<open>C6: Every event of every interleaving of admissions, leases and drains, from the empty gate, is a
  step of the abstract barrier: a lease appears only while nobody has shut the gate or as the child
  of a live one, a drain shuts it only when no other has, and sees it drained only when nothing lives.\<close>

theorem gate_refines_barrier:
  "barrier_step (barrier_of (run_ops gate_apply es gate_start))
                (barrier_of (gate_apply e (run_ops gate_apply es gate_start)))"
  by (rule apply_refines) (rule gate_inv_run)

text \<open>C10: From the moment \<open>try_drained\<close> answers True until that drain is closed no work lease is live,
  whatever the other processes do in between.\<close>

theorem drained_excludes_work:
  assumes "try_drained d (run_ops gate_apply es gate_start) = Inr (True, g)"
    and "Drain_Close d \<notin> set later"
  shows "live_leases (run_ops gate_apply later g) = {}"
proof -
  have "gate_inv g" by (rule gate_inv_try [OF gate_inv_run assms(1)])
  moreover have "drained d g"
    using assms(1) by (auto simp: try_drained_def drained_def flock_Inr split: if_splits sum.splits)
  ultimately show ?thesis using gb.quiet_while_held [of g d later] assms(2) by auto
qed

text \<open>C29: A call of \<open>admit\<close> that nothing interleaves with returns a fresh lease exactly when the
  lock files are sound, no drain is open and the reboot marker is absent or of an earlier boot; every
  other case is refused with the error of the first test that fails, and the shared lock on the work
  file, whose \<open>BlockingIOError\<close> nobody catches, never blocks.\<close>

theorem admit_exact:
  "fst (admit_call pid env (run_ops gate_apply es gate_start))
    = (case open_lock env (ge_admission env) of Some e \<Rightarrow> Inl e
       | None \<Rightarrow> if \<exists>d. open_drain (run_ops gate_apply es gate_start) d then Inl MaintenanceBusy
         else (case marker_check env of Some e \<Rightarrow> Inl e
               | None \<Rightarrow> (case open_lock env (ge_work env) of Some e \<Rightarrow> Inl e
                           | None \<Rightarrow> Inr (length (leases (run_ops gate_apply es gate_start))))))"
  unfolding admit_call_def Let_def fst_conv admit_steps [OF gate_inv_run refl]
  by (auto split: option.split)

definition sound_file :: lock_path where
  "sound_file = (let st = \<lparr>st_regular = True, st_nlink = 1, st_mode = 416, st_dev = 1, st_ino = 7\<rparr>
     in \<lparr>lp_opens = True, lp_value = st, lp_current = st\<rparr>)"

definition sound_env :: gate_env where
  "sound_env = \<lparr>ge_symlink = False, ge_admission = sound_file, ge_work = sound_file, ge_marker = Missing, ge_boot = ''b''\<rparr>"

theorem drained_excludes_work_witness:
  "live_leases (run_ops gate_apply [Admit_Begin 9, Admit_Step 1 sound_env]
     (case try_drained 0 (run_ops gate_apply
         [Admit_Begin 7, Admit_Step 0 sound_env, Admit_Step 0 sound_env, Admit_Step 0 sound_env, Admit_Step 0 sound_env,
          Close 7 0, Drain_Begin sound_env, Drain_Open 0 sound_env] gate_start) of
       Inr (b, g) \<Rightarrow> g | Inl e \<Rightarrow> gate_start)) = {}"
  by (rule drained_excludes_work [where d = 0 and es = "[Admit_Begin 7, Admit_Step 0 sound_env, Admit_Step 0 sound_env,
        Admit_Step 0 sound_env, Admit_Step 0 sound_env, Close 7 0, Drain_Begin sound_env, Drain_Open 0 sound_env]"])
    (simp_all add: gate_start_def admit_begin_def admit_step_def admit_next_def sound_env_def sound_file_def open_lock_def
      flock_def close_lock_def lease_close_def work_of_def or_stay_def drain_begin_def drain_open_work_def try_drained_def
      marker_check_def Let_def)

end
