(* ===== verification/LeahSync.thy ===== *)
theory LeahSync
  imports Contracts PyFloat
begin

text \<open>
  \<open>c3po/backend/app/leah_sync_guard.py\<close>: the concurrency guard of the device synchronisation.  Every
  call of \<open>run\<close> is a program counter; the critical sections under \<open>state.lock\<close>, \<open>state.result_lock\<close>
  and \<open>_registry_lock\<close> are its steps, and the pool's threads and the futures' done-callbacks are
  events that interleave with them.  A future is its index in the list of all futures made, so
  \<open>state.inflight is future\<close> is equality of indices.  The fingerprint of a payload (SHA-256 of its
  canonical JSON) is an argument of the call.  \<open>_publish\<close> is one step apart from its reading of the
  clock: under the interpreter's lock no thread switch falls between its test of \<open>inflight\<close> and the
  assignment after it.
\<close>

section \<open>The guard's data\<close>

datatype work_error = Work_Timeout | Work_Rejected | Work_Failed string

datatype 'v work_outcome = Ok 'v | Raised work_error

datatype 'v future_state = Pending | Running | Finished "'v work_outcome" | Cancelled

record 'v future =
  ft_identity :: string
  ft_fingerprint :: string
  ft_started :: pyfloat
  ft_state :: "'v future_state"
  ft_done_at :: pyfloat
  ft_deadline_at :: "pyfloat option"
  ft_callback :: bool
  ft_published :: bool
  ft_completed_at :: "pyfloat option"

fun settled :: "'v future_state \<Rightarrow> bool" where
  "settled (Finished r) = True"
| "settled Cancelled = True"
| "settled _ = False"

definition future_done :: "'v future \<Rightarrow> bool" where
  "future_done f = settled (ft_state f)"

record leah_counters =
  lc_executed :: nat
  lc_late_completions :: nat
  lc_deduplicated :: nat
  lc_coalesced :: nat
  lc_queued :: nat
  lc_busy_rejected :: nat
  lc_backoff_rejected :: nat
  lc_timeouts :: nat
  lc_cancelled :: nat
  lc_errors :: nat
  lc_total_ms :: pyfloat
  lc_max_ms :: pyfloat
  lc_last_ms :: pyfloat

definition no_counts :: leah_counters where
  "no_counts = \<lparr>lc_executed = 0, lc_late_completions = 0, lc_deduplicated = 0, lc_coalesced = 0, lc_queued = 0,
     lc_busy_rejected = 0, lc_backoff_rejected = 0, lc_timeouts = 0, lc_cancelled = 0, lc_errors = 0,
     lc_total_ms = Fin 0, lc_max_ms = Fin 0, lc_last_ms = Fin 0\<rparr>"

definition average_ms :: "leah_counters \<Rightarrow> pyfloat" where
  "average_ms c = (if lc_executed c \<noteq> 0 then fdiv (lc_total_ms c) (fint (int (lc_executed c))) else Fin 0)"

text \<open>\<open>LeahSyncCounters.snapshot\<close>: the counts, and the three durations rounded to three decimals.\<close>

definition counters_snapshot :: "leah_counters \<Rightarrow> nat list \<times> pyfloat list" where
  "counters_snapshot c =
     ([lc_executed c, lc_late_completions c, lc_deduplicated c, lc_coalesced c, lc_queued c, lc_busy_rejected c,
       lc_backoff_rejected c, lc_timeouts c, lc_cancelled c, lc_errors c],
      [py_round 3 (average_ms c), py_round 3 (lc_max_ms c), py_round 3 (lc_last_ms c)])"

text \<open>\<open>_IdentityState\<close>; the holder of its \<open>lock\<close> is the thread's number.\<close>

record 'v identity_state =
  is_lock :: "nat option"
  is_inflight :: "nat option"
  is_inflight_fingerprint :: "string option"
  is_last_fingerprint :: "string option"
  is_last_result :: "'v option"
  is_last_completed_at :: "pyfloat option"
  is_cooldown_fingerprint :: "string option"
  is_cooldown_until :: "pyfloat option"

definition new_identity :: "'v identity_state" where
  "new_identity = \<lparr>is_lock = None, is_inflight = None, is_inflight_fingerprint = None, is_last_fingerprint = None,
     is_last_result = None, is_last_completed_at = None, is_cooldown_fingerprint = None, is_cooldown_until = None\<rparr>"

record leah_config =
  lg_dedupe_window :: pyfloat
  lg_deadline :: pyfloat
  lg_cooldown :: pyfloat

text \<open>The defaults of \<open>__init__\<close>.\<close>

definition default_config :: leah_config where
  "default_config = \<lparr>lg_dedupe_window = Fin 30, lg_deadline = Fin 10, lg_cooldown = Fin 30\<rparr>"

text \<open>\<open>max(1, int(retry_after))\<close> of a finite wait.\<close>

definition retry_after :: "pyfloat \<Rightarrow> int" where
  "retry_after x = (case x of Fin r \<Rightarrow> max 1 (if r < 0 then - floor (- r) else floor r) | _ \<Rightarrow> 1)"

datatype 'v sync_answer =
    Delivered 'v
  | Deduplicated "'v option"
  | Busy int
  | Backoff int
  | Timeout int
  | Propagated work_error
  | Not_submitted

text \<open>What a call of \<open>run\<close> keeps throughout.\<close>

record call =
  cl_identity :: string
  cl_fingerprint :: string
  cl_deadline_at :: pyfloat

datatype 'v leah_pc =
    Outside
  | Trying call
  | Blocked call pyfloat
  | Locked call bool pyfloat
  | Checked call bool pyfloat
  | Starting call
  | Submitting call pyfloat
  | Registering call pyfloat nat
  | Awaiting call nat pyfloat
  | Publishing call nat 'v
  | Failing call nat work_error
  | Timed_out call nat
  | Settled call nat
  | Counting call nat
  | Cancelling call nat
  | Releasing call "'v sync_answer"
  | Answered "'v sync_answer"

record 'v leah =
  lh_now :: pyfloat
  lh_states :: "string \<Rightarrow> 'v identity_state option"
  lh_futures :: "'v future list"
  lh_counters :: leah_counters
  lh_pcs :: "nat \<Rightarrow> 'v leah_pc"

definition leah_start :: "pyfloat \<Rightarrow> 'v leah" where
  "leah_start now = \<lparr>lh_now = now, lh_states = (\<lambda>i. None), lh_futures = [], lh_counters = no_counts,
     lh_pcs = (\<lambda>t. Outside)\<rparr>"

text \<open>\<open>_state(identity)\<close>: the identity's state, made on first use.\<close>

definition state_of :: "'v leah \<Rightarrow> string \<Rightarrow> 'v identity_state" where
  "state_of s i = (case lh_states s i of None \<Rightarrow> new_identity | Some x \<Rightarrow> x)"

definition set_state :: "string \<Rightarrow> 'v identity_state \<Rightarrow> 'v leah \<Rightarrow> 'v leah" where
  "set_state i x s = s\<lparr>lh_states := (lh_states s)(i \<mapsto> x)\<rparr>"

definition set_future :: "nat \<Rightarrow> 'v future \<Rightarrow> 'v leah \<Rightarrow> 'v leah" where
  "set_future f x s = s\<lparr>lh_futures := (lh_futures s)[f := x]\<rparr>"

definition count :: "(leah_counters \<Rightarrow> leah_counters) \<Rightarrow> 'v leah \<Rightarrow> 'v leah" where
  "count h s = s\<lparr>lh_counters := h (lh_counters s)\<rparr>"

definition count_busy :: "leah_counters \<Rightarrow> leah_counters" where
  "count_busy c = c\<lparr>lc_busy_rejected := lc_busy_rejected c + 1\<rparr>"

section \<open>Publication\<close>

definition clear_inflight :: "nat \<Rightarrow> 'v identity_state \<Rightarrow> 'v identity_state" where
  "clear_inflight f x =
     (if is_inflight x = Some f then x\<lparr>is_inflight := None, is_inflight_fingerprint := None\<rparr> else x)"

text \<open>The outcome of a flight, written into its identity's state and into the counters.\<close>

definition record_outcome :: "leah_config \<Rightarrow> pyfloat \<Rightarrow> 'v future \<Rightarrow> 'v identity_state \<Rightarrow> 'v identity_state" where
  "record_outcome cfg completed u x =
     (case ft_state u of
        Finished (Ok v) \<Rightarrow>
          x\<lparr>is_last_fingerprint := Some (ft_fingerprint u), is_last_result := Some v, is_last_completed_at := Some completed,
            is_cooldown_fingerprint := None, is_cooldown_until := None\<rparr>
      | Finished (Raised e) \<Rightarrow>
          x\<lparr>is_cooldown_fingerprint := Some (ft_fingerprint u),
            is_cooldown_until := Some (fadd completed (lg_cooldown cfg))\<rparr>
      | _ \<Rightarrow> x)"

definition count_outcome :: "pyfloat \<Rightarrow> 'v future \<Rightarrow> leah_counters \<Rightarrow> leah_counters" where
  "count_outcome completed u c =
     (let duration = py_max (Fin 0) (fmul (fsub completed (ft_started u)) (Fin 1000));
          late = (case ft_deadline_at u of None \<Rightarrow> False | Some d \<Rightarrow> flt d completed)
      in case ft_state u of
           Finished (Ok v) \<Rightarrow>
             c\<lparr>lc_executed := lc_executed c + 1,
               lc_late_completions := (if late then lc_late_completions c + 1 else lc_late_completions c),
               lc_total_ms := fadd (lc_total_ms c) duration, lc_max_ms := py_max (lc_max_ms c) duration,
               lc_last_ms := duration\<rparr>
         | Finished (Raised e) \<Rightarrow> c\<lparr>lc_errors := lc_errors c + 1\<rparr>
         | _ \<Rightarrow> c)"

text \<open>\<open>_publish\<close> at clock reading \<open>completed\<close>.\<close>

definition leah_publish :: "leah_config \<Rightarrow> nat \<Rightarrow> pyfloat \<Rightarrow> 'v leah \<Rightarrow> 'v leah" where
  "leah_publish cfg f completed s =
     (let u = lh_futures s ! f; i = ft_identity u in
      if f \<ge> length (lh_futures s) \<or> \<not> future_done u \<or> ft_published u then s
      else count (count_outcome completed u)
             (set_state i (record_outcome cfg completed u (clear_inflight f (state_of s i)))
               (set_future f (u\<lparr>ft_published := True, ft_completed_at := Some completed\<rparr>) s)))"

section \<open>A call of \<open>run\<close>\<close>

text \<open>The decision under \<open>result_lock\<close>.\<close>

datatype 'v decision = Reuse "'v option" | Back_off pyfloat | Proceed

definition same_recent :: "leah_config \<Rightarrow> pyfloat \<Rightarrow> string \<Rightarrow> 'v identity_state \<Rightarrow> bool" where
  "same_recent cfg now fp x =
     (is_last_fingerprint x = Some fp
      \<and> (case is_last_completed_at x of None \<Rightarrow> False | Some c \<Rightarrow> fle (fsub now c) (lg_dedupe_window cfg)))"

definition in_cooldown :: "pyfloat \<Rightarrow> string \<Rightarrow> 'v identity_state \<Rightarrow> bool" where
  "in_cooldown now fp x =
     (is_cooldown_fingerprint x = Some fp \<and> (case is_cooldown_until x of None \<Rightarrow> False | Some d \<Rightarrow> flt now d))"

definition sync_decide :: "leah_config \<Rightarrow> pyfloat \<Rightarrow> string \<Rightarrow> 'v identity_state \<Rightarrow> 'v decision" where
  "sync_decide cfg now fp x =
     (if same_recent cfg now fp x then Reuse (is_last_result x)
      else if in_cooldown now fp x
      then Back_off (case is_cooldown_until x of None \<Rightarrow> now | Some d \<Rightarrow> if d = Fin 0 then now else d)
      else Proceed)"

definition busy :: "leah_config \<Rightarrow> 'v sync_answer" where
  "busy cfg = Busy (retry_after (lg_cooldown cfg))"

text \<open>The counters of the decision: a caller that waited is coalesced or queued.\<close>

definition count_decision :: "bool \<Rightarrow> 'v decision \<Rightarrow> leah_counters \<Rightarrow> leah_counters" where
  "count_decision waited d c =
     (let c1 = (if \<not> waited then c
                else case d of Reuse r \<Rightarrow> c\<lparr>lc_coalesced := lc_coalesced c + 1\<rparr>
                             | _ \<Rightarrow> c\<lparr>lc_queued := lc_queued c + 1\<rparr>)
      in case d of Reuse r \<Rightarrow> c1\<lparr>lc_deduplicated := lc_deduplicated c1 + 1\<rparr>
                 | Back_off u \<Rightarrow> c1\<lparr>lc_backoff_rejected := lc_backoff_rejected c1 + 1\<rparr>
                 | Proceed \<Rightarrow> c1)"

text \<open>The timed-out caller's section under \<open>result_lock\<close>: has the flight settled with a result?\<close>

definition settled_ok :: "'v future \<Rightarrow> bool" where
  "settled_ok u = (case ft_state u of Finished (Ok v) \<Rightarrow> True | _ \<Rightarrow> False)"

definition install_cooldown :: "leah_config \<Rightarrow> pyfloat \<Rightarrow> string \<Rightarrow> 'v identity_state \<Rightarrow> 'v identity_state" where
  "install_cooldown cfg now fp x =
     x\<lparr>is_cooldown_fingerprint := Some fp, is_cooldown_until := Some (fadd now (lg_cooldown cfg))\<rparr>"

text \<open>
  One step of the caller \<open>t\<close>.  \<open>accepted\<close> tells whether the executor takes the work (the admission
  barrier or a stopped pool may refuse it), \<open>gives_up\<close> whether a wait whose limit has passed ends
  without the lock.  A program counter that cannot move is returned unchanged.
\<close>

definition take_lock :: "nat \<Rightarrow> string \<Rightarrow> 'v leah \<Rightarrow> 'v leah" where
  "take_lock t i s = set_state i ((state_of s i)\<lparr>is_lock := Some t\<rparr>) s"

definition release_lock :: "string \<Rightarrow> 'v leah \<Rightarrow> 'v leah" where
  "release_lock i s = set_state i ((state_of s i)\<lparr>is_lock := None\<rparr>) s"

definition timed_out_answer :: "leah_config \<Rightarrow> 'v sync_answer" where
  "timed_out_answer cfg = Timeout (retry_after (lg_cooldown cfg))"

definition acquire :: "leah_config \<Rightarrow> nat \<Rightarrow> call \<Rightarrow> 'v leah \<Rightarrow> 'v leah_pc \<times> 'v leah" where
  "acquire cfg t c s =
     (if is_lock (state_of s (cl_identity c)) = None
      then (Locked c False (lh_now s), take_lock t (cl_identity c) s)
      else (let remaining = fsub (cl_deadline_at c) (lh_now s) in
            if fle remaining (Fin 0) then (Answered (busy cfg), count count_busy s)
            else (Blocked c (fadd (lh_now s) remaining), s)))"

definition acquire_blocked :: "leah_config \<Rightarrow> bool \<Rightarrow> nat \<Rightarrow> call \<Rightarrow> pyfloat \<Rightarrow> 'v leah \<Rightarrow> 'v leah_pc \<times> 'v leah" where
  "acquire_blocked cfg gives_up t c until s =
     (if is_lock (state_of s (cl_identity c)) = None \<and> \<not> (gives_up \<and> fle until (lh_now s))
      then (Locked c True (lh_now s), take_lock t (cl_identity c) s)
      else if fle until (lh_now s) then (Answered (busy cfg), count count_busy s)
      else (Blocked c until, s))"

definition check_inflight :: "leah_config \<Rightarrow> call \<Rightarrow> bool \<Rightarrow> pyfloat \<Rightarrow> 'v leah \<Rightarrow> 'v leah_pc \<times> 'v leah" where
  "check_inflight cfg c waited now s =
     (case is_inflight (state_of s (cl_identity c)) of
        Some f \<Rightarrow> if future_done (lh_futures s ! f) then (Checked c waited now, s)
                  else (Releasing c (busy cfg), count count_busy s)
      | None \<Rightarrow> (Checked c waited now, s))"

definition decide_step :: "leah_config \<Rightarrow> call \<Rightarrow> bool \<Rightarrow> pyfloat \<Rightarrow> 'v leah \<Rightarrow> 'v leah_pc \<times> 'v leah" where
  "decide_step cfg c waited now s =
     (let d = sync_decide cfg now (cl_fingerprint c) (state_of s (cl_identity c)); s' = count (count_decision waited d) s
      in case d of
           Reuse r \<Rightarrow> (Releasing c (Deduplicated r), s')
         | Back_off u \<Rightarrow> (Releasing c (Backoff (retry_after (fsub u now))), s')
         | Proceed \<Rightarrow> (Starting c, s'))"

definition start_step :: "leah_config \<Rightarrow> call \<Rightarrow> 'v leah \<Rightarrow> 'v leah_pc \<times> 'v leah" where
  "start_step cfg c s =
     (let remaining = fsub (cl_deadline_at c) (lh_now s) in
      if fle remaining (Fin 0) then (Releasing c (busy cfg), count count_busy s)
      else (Submitting c remaining, s))"

definition submit_step :: "bool \<Rightarrow> call \<Rightarrow> pyfloat \<Rightarrow> 'v leah \<Rightarrow> 'v leah_pc \<times> 'v leah" where
  "submit_step accepted c remaining s =
     (if accepted
      then (Registering c remaining (length (lh_futures s)),
            s\<lparr>lh_futures := lh_futures s @
               [\<lparr>ft_identity = cl_identity c, ft_fingerprint = cl_fingerprint c, ft_started = lh_now s, ft_state = Pending,
                 ft_done_at = lh_now s, ft_deadline_at = None, ft_callback = False, ft_published = False,
                 ft_completed_at = None\<rparr>]\<rparr>)
      else (Releasing c Not_submitted, s))"

definition register_step :: "call \<Rightarrow> pyfloat \<Rightarrow> nat \<Rightarrow> 'v leah \<Rightarrow> 'v leah_pc \<times> 'v leah" where
  "register_step c remaining f s =
     (Awaiting c f (fadd (lh_now s) remaining),
      set_state (cl_identity c)
        ((state_of s (cl_identity c))\<lparr>is_inflight := Some f, is_inflight_fingerprint := Some (cl_fingerprint c)\<rparr>)
        (set_future f ((lh_futures s ! f)\<lparr>ft_deadline_at := Some (cl_deadline_at c), ft_callback := True\<rparr>) s))"

text \<open>\<open>future.result(timeout=remaining)\<close>; an exception of the work that is a \<open>TimeoutError\<close> is caught by
  the same clause as the wait's own timeout.\<close>

definition await_step :: "call \<Rightarrow> nat \<Rightarrow> pyfloat \<Rightarrow> 'v leah \<Rightarrow> 'v leah_pc" where
  "await_step c f until s =
     (case ft_state (lh_futures s ! f) of
        Finished (Ok v) \<Rightarrow> Publishing c f v
      | Finished (Raised Work_Timeout) \<Rightarrow> Timed_out c f
      | Finished (Raised Work_Rejected) \<Rightarrow> Releasing c (Propagated Work_Rejected)
      | Finished (Raised e) \<Rightarrow> Failing c f e
      | Cancelled \<Rightarrow> Failing c f (Work_Failed ''CancelledError'')
      | _ \<Rightarrow> if fle until (lh_now s) then Timed_out c f else Awaiting c f until)"

definition timeout_step :: "leah_config \<Rightarrow> call \<Rightarrow> nat \<Rightarrow> 'v leah \<Rightarrow> 'v leah_pc \<times> 'v leah" where
  "timeout_step cfg c f s =
     (let i = cl_identity c in
      if settled_ok (lh_futures s ! f) then (Settled c f, s)
      else (Counting c f, set_state i (install_cooldown cfg (lh_now s) (cl_fingerprint c) (state_of s i)) s))"

text \<open>\<open>completed_at <= deadline_at\<close>, a missing mark counting as infinity.\<close>

definition in_time :: "call \<Rightarrow> 'v future \<Rightarrow> bool" where
  "in_time c u = fle (case ft_completed_at u of None \<Rightarrow> PInf | Some d \<Rightarrow> d) (cl_deadline_at c)"

definition settled_step :: "leah_config \<Rightarrow> call \<Rightarrow> nat \<Rightarrow> 'v leah \<Rightarrow> 'v leah_pc \<times> 'v leah" where
  "settled_step cfg c f s =
     (let s' = leah_publish cfg f (lh_now s) s; u = lh_futures s' ! f in
      (case ft_state u of
         Finished (Ok v) \<Rightarrow> if in_time c u then Releasing c (Delivered v) else Counting c f
       | _ \<Rightarrow> Counting c f, s'))"

definition count_step :: "leah_config \<Rightarrow> call \<Rightarrow> nat \<Rightarrow> 'v leah \<Rightarrow> 'v leah_pc \<times> 'v leah" where
  "count_step cfg c f s =
     (let s' = count (\<lambda>k. k\<lparr>lc_timeouts := lc_timeouts k + 1\<rparr>) s; u = lh_futures s ! f in
      if ft_state u = Pending
      then (Cancelling c f, set_future f (u\<lparr>ft_state := Cancelled, ft_done_at := lh_now s\<rparr>) s')
      else if ft_state u = Cancelled then (Cancelling c f, s')
      else (Releasing c (timed_out_answer cfg), s'))"

definition cancel_step :: "leah_config \<Rightarrow> call \<Rightarrow> nat \<Rightarrow> 'v leah \<Rightarrow> 'v leah_pc \<times> 'v leah" where
  "cancel_step cfg c f s =
     (let s1 = leah_publish cfg f (lh_now s) s; i = cl_identity c;
          s2 = set_state i (clear_inflight f (state_of s1 i)) s1
      in (Releasing c (timed_out_answer cfg), count (\<lambda>k. k\<lparr>lc_cancelled := lc_cancelled k + 1\<rparr>) s2))"

definition caller_next ::
    "leah_config \<Rightarrow> bool \<Rightarrow> bool \<Rightarrow> nat \<Rightarrow> 'v leah_pc \<Rightarrow> 'v leah \<Rightarrow> 'v leah_pc \<times> 'v leah" where
  "caller_next cfg accepted gives_up t pc s =
     (case pc of
        Outside \<Rightarrow> (pc, s)
      | Trying c \<Rightarrow> acquire cfg t c s
      | Blocked c until \<Rightarrow> acquire_blocked cfg gives_up t c until s
      | Locked c waited now \<Rightarrow> check_inflight cfg c waited now s
      | Checked c waited now \<Rightarrow> decide_step cfg c waited now s
      | Starting c \<Rightarrow> start_step cfg c s
      | Submitting c remaining \<Rightarrow> submit_step accepted c remaining s
      | Registering c remaining f \<Rightarrow> register_step c remaining f s
      | Awaiting c f until \<Rightarrow> (await_step c f until s, s)
      | Publishing c f v \<Rightarrow> (Releasing c (Delivered v), leah_publish cfg f (lh_now s) s)
      | Failing c f e \<Rightarrow> (Releasing c (Propagated e), leah_publish cfg f (lh_now s) s)
      | Timed_out c f \<Rightarrow> timeout_step cfg c f s
      | Settled c f \<Rightarrow> settled_step cfg c f s
      | Counting c f \<Rightarrow> count_step cfg c f s
      | Cancelling c f \<Rightarrow> cancel_step cfg c f s
      | Releasing c a \<Rightarrow> (Answered a, release_lock (cl_identity c) s)
      | Answered a \<Rightarrow> (pc, s))"

section \<open>Interleavings\<close>

datatype 'v leah_event =
    Tick pyfloat
  | Enter nat string string
  | Caller nat bool bool
  | Run nat
  | Finish nat "'v work_outcome"
  | Callback nat pyfloat

definition enter_run :: "leah_config \<Rightarrow> nat \<Rightarrow> string \<Rightarrow> string \<Rightarrow> 'v leah \<Rightarrow> 'v leah" where
  "enter_run cfg t i fp s =
     (case lh_pcs s t of
        Outside \<Rightarrow> (set_state i (state_of s i) s)\<lparr>lh_pcs := (lh_pcs s)(t :=
            Trying \<lparr>cl_identity = i, cl_fingerprint = fp, cl_deadline_at = fadd (lh_now s) (lg_deadline cfg)\<rparr>)\<rparr>
      | _ \<Rightarrow> s)"

definition caller_step :: "leah_config \<Rightarrow> nat \<Rightarrow> bool \<Rightarrow> bool \<Rightarrow> 'v leah \<Rightarrow> 'v leah" where
  "caller_step cfg t accepted gives_up s =
     (case caller_next cfg accepted gives_up t (lh_pcs s t) s of
        (pc, s') \<Rightarrow> s'\<lparr>lh_pcs := (lh_pcs s)(t := pc)\<rparr>)"

text \<open>A pool thread takes a future that is still queued, and ends one it runs.\<close>

definition run_future :: "nat \<Rightarrow> 'v leah \<Rightarrow> 'v leah" where
  "run_future f s =
     (if f < length (lh_futures s) \<and> ft_state (lh_futures s ! f) = Pending
      then set_future f ((lh_futures s ! f)\<lparr>ft_state := Running\<rparr>) s else s)"

definition finish_future :: "nat \<Rightarrow> 'v work_outcome \<Rightarrow> 'v leah \<Rightarrow> 'v leah" where
  "finish_future f r s =
     (if f < length (lh_futures s) \<and> ft_state (lh_futures s ! f) = Running
      then set_future f ((lh_futures s ! f)\<lparr>ft_state := Finished r, ft_done_at := lh_now s\<rparr>) s else s)"

text \<open>The done-callback publishes at a reading of the clock between the completion and now.\<close>

definition callback :: "leah_config \<Rightarrow> nat \<Rightarrow> pyfloat \<Rightarrow> 'v leah \<Rightarrow> 'v leah" where
  "callback cfg f completed s =
     (if f < length (lh_futures s) \<and> ft_callback (lh_futures s ! f)
         \<and> fle (ft_done_at (lh_futures s ! f)) completed \<and> fle completed (lh_now s)
      then leah_publish cfg f completed s else s)"

fun leah_apply :: "leah_config \<Rightarrow> 'v leah_event \<Rightarrow> 'v leah \<Rightarrow> 'v leah" where
  "leah_apply cfg (Tick now) s = (if fle (lh_now s) now then s\<lparr>lh_now := now\<rparr> else s)"
| "leah_apply cfg (Enter t i fp) s = enter_run cfg t i fp s"
| "leah_apply cfg (Caller t accepted gives_up) s = caller_step cfg t accepted gives_up s"
| "leah_apply cfg (Run f) s = run_future f s"
| "leah_apply cfg (Finish f r) s = finish_future f r s"
| "leah_apply cfg (Callback f completed) s = callback cfg f completed s"

end
