(* ===== verification/LeahInvariants.thy ===== *)
theory LeahInvariants
  imports LeahSync
begin

text \<open>
  What every interleaving of the synchronisation guard keeps: the identity lock has one holder; the
  flight that has not settled is the identity's \<open>inflight\<close> or is being registered by the holder; the
  reusable result is that of a published flight; and the counters count the published flights.
\<close>

section \<open>The phases of a call\<close>

text \<open>The call that holds its identity's lock.\<close>

fun holder :: "'v leah_pc \<Rightarrow> call option" where
  "holder Outside = None"
| "holder (Trying c) = None"
| "holder (Blocked c u) = None"
| "holder (Answered a) = None"
| "holder (Locked c w n) = Some c"
| "holder (Checked c w n) = Some c"
| "holder (Starting c) = Some c"
| "holder (Submitting c r) = Some c"
| "holder (Registering c r f) = Some c"
| "holder (Awaiting c f u) = Some c"
| "holder (Publishing c f v) = Some c"
| "holder (Failing c f e) = Some c"
| "holder (Timed_out c f) = Some c"
| "holder (Settled c f) = Some c"
| "holder (Counting c f) = Some c"
| "holder (Cancelling c f) = Some c"
| "holder (Releasing c a) = Some c"

text \<open>Past the test of \<open>inflight\<close>, before the submission.\<close>

fun ready :: "'v leah_pc \<Rightarrow> call option" where
  "ready (Checked c w n) = Some c"
| "ready (Starting c) = Some c"
| "ready (Submitting c r) = Some c"
| "ready _ = None"

text \<open>The flight of a call, once registered.\<close>

fun flown :: "'v leah_pc \<Rightarrow> (call \<times> nat) option" where
  "flown (Awaiting c f u) = Some (c, f)"
| "flown (Publishing c f v) = Some (c, f)"
| "flown (Failing c f e) = Some (c, f)"
| "flown (Timed_out c f) = Some (c, f)"
| "flown (Settled c f) = Some (c, f)"
| "flown (Counting c f) = Some (c, f)"
| "flown (Cancelling c f) = Some (c, f)"
| "flown _ = None"

fun registering :: "'v leah_pc \<Rightarrow> (call \<times> nat) option" where
  "registering (Registering c r f) = Some (c, f)"
| "registering _ = None"

lemma ready_holder: "ready pc = Some c \<Longrightarrow> holder pc = Some c"
  by (cases pc) simp_all

lemma flown_holder: "flown pc = Some (c, f) \<Longrightarrow> holder pc = Some c"
  by (cases pc) simp_all

lemma registering_holder: "registering pc = Some (c, f) \<Longrightarrow> holder pc = Some c"
  by (cases pc) simp_all

section \<open>Flights\<close>

type_synonym 'v pcs = "nat \<Rightarrow> 'v leah_pc"

text \<open>All flights of the identity but one have settled.\<close>

definition quiet_but :: "'v future list \<Rightarrow> string \<Rightarrow> nat option \<Rightarrow> bool" where
  "quiet_but futs i f \<longleftrightarrow>
     (\<forall>g<length futs. f \<noteq> Some g \<longrightarrow> ft_identity (futs ! g) = i \<longrightarrow> future_done (futs ! g))"

definition flight_of :: "'v future list \<Rightarrow> call \<Rightarrow> nat \<Rightarrow> bool" where
  "flight_of futs c f \<longleftrightarrow> f < length futs \<and> ft_identity (futs ! f) = cl_identity c \<and> ft_fingerprint (futs ! f) = cl_fingerprint c"

text \<open>An unsettled flight is the identity's \<open>inflight\<close>, or its submitter is registering it.\<close>

definition flights_ok :: "'v pcs \<Rightarrow> (string \<Rightarrow> nat option) \<Rightarrow> (string \<Rightarrow> nat option) \<Rightarrow> 'v future list \<Rightarrow> bool" where
  "flights_ok pcs lock infl futs \<longleftrightarrow>
     (\<forall>t c. holder (pcs t) = Some c \<longrightarrow> lock (cl_identity c) = Some t)
     \<and> (\<forall>f<length futs. \<not> future_done (futs ! f) \<longrightarrow>
          infl (ft_identity (futs ! f)) = Some f
          \<or> (\<exists>t c. registering (pcs t) = Some (c, f) \<and> cl_identity c = ft_identity (futs ! f)))
     \<and> (\<forall>t c. ready (pcs t) = Some c \<longrightarrow> quiet_but futs (cl_identity c) None)
     \<and> (\<forall>t c f. registering (pcs t) = Some (c, f) \<longrightarrow> flight_of futs c f \<and> quiet_but futs (cl_identity c) (Some f))
     \<and> (\<forall>t c f. flown (pcs t) = Some (c, f) \<longrightarrow> flight_of futs c f)
     \<and> (\<forall>i g. infl i = Some g \<longrightarrow> g < length futs \<and> ft_identity (futs ! g) = i)"

lemma flights_okI:
  assumes "\<And>t c. holder (pcs t) = Some c \<Longrightarrow> lock (cl_identity c) = Some t"
    and "\<And>f. f < length futs \<Longrightarrow> \<not> future_done (futs ! f) \<Longrightarrow> infl (ft_identity (futs ! f)) = Some f
          \<or> (\<exists>t c. registering (pcs t) = Some (c, f) \<and> cl_identity c = ft_identity (futs ! f))"
    and "\<And>t c. ready (pcs t) = Some c \<Longrightarrow> quiet_but futs (cl_identity c) None"
    and "\<And>t c f. registering (pcs t) = Some (c, f) \<Longrightarrow> flight_of futs c f \<and> quiet_but futs (cl_identity c) (Some f)"
    and "\<And>t c f. flown (pcs t) = Some (c, f) \<Longrightarrow> flight_of futs c f"
    and "\<And>i g. infl i = Some g \<Longrightarrow> g < length futs \<and> ft_identity (futs ! g) = i"
  shows "flights_ok pcs lock infl futs"
  unfolding flights_ok_def using assms by blast

lemma flights_okD:
  assumes "flights_ok pcs lock infl futs"
  shows "holder (pcs t) = Some c \<Longrightarrow> lock (cl_identity c) = Some t"
    and "f < length futs \<Longrightarrow> \<not> future_done (futs ! f) \<Longrightarrow> infl (ft_identity (futs ! f)) = Some f
          \<or> (\<exists>t c. registering (pcs t) = Some (c, f) \<and> cl_identity c = ft_identity (futs ! f))"
    and "ready (pcs t) = Some c \<Longrightarrow> quiet_but futs (cl_identity c) None"
    and "registering (pcs t) = Some (c, f) \<Longrightarrow> flight_of futs c f \<and> quiet_but futs (cl_identity c) (Some f)"
    and "flown (pcs t) = Some (c, f) \<Longrightarrow> flight_of futs c f"
    and "infl i = Some g \<Longrightarrow> g < length futs \<and> ft_identity (futs ! g) = i"
  using assms unfolding flights_ok_def by blast+

lemma holder_unique:
  assumes "flights_ok pcs lock infl futs" and "holder (pcs t) = Some c" and "holder (pcs t') = Some c'"
    and "cl_identity c = cl_identity c'"
  shows "t = t'"
  using flights_okD(1) [OF assms(1,2)] flights_okD(1) [OF assms(1,3)] assms(4) by simp

text \<open>Two unsettled flights of one identity are the same flight.\<close>

lemma flights_unique:
  assumes ok: "flights_ok pcs lock infl futs" and f: "f < length futs" "\<not> future_done (futs ! f)"
    and g: "g < length futs" "\<not> future_done (futs ! g)" and same: "ft_identity (futs ! f) = ft_identity (futs ! g)"
  shows "f = g"
proof (rule ccontr)
  assume neq: "f \<noteq> g"
  have quiet: False if r: "registering (pcs t) = Some (c, h)" and i: "cl_identity c = ft_identity (futs ! f)" for t c h
  proof -
    have "quiet_but futs (ft_identity (futs ! f)) (Some h)" using flights_okD(4) [OF ok r] i by simp
    then show False using f g same neq unfolding quiet_but_def by (metis option.inject)
  qed
  have "infl (ft_identity (futs ! f)) = Some f" using flights_okD(2) [OF ok f] quiet by blast
  moreover have "infl (ft_identity (futs ! g)) = Some g" using flights_okD(2) [OF ok g] quiet same by metis
  ultimately show False using neq same by simp
qed

text \<open>A move of the caller \<open>t\<close> that does not register, and the locks it may take or give back.\<close>

lemma flights_move:
  assumes ok: "flights_ok pcs lock infl futs" and "registering (pcs t) = None" and "registering pc = None"
    and "\<And>c. ready pc = Some c \<Longrightarrow> quiet_but futs (cl_identity c) None"
    and "\<And>c f. flown pc = Some (c, f) \<Longrightarrow> flight_of futs c f"
    and "\<And>c. holder pc = Some c \<Longrightarrow> lock' (cl_identity c) = Some t"
    and "\<And>t' c. t' \<noteq> t \<Longrightarrow> holder (pcs t') = Some c \<Longrightarrow> lock' (cl_identity c) = lock (cl_identity c)"
  shows "flights_ok (pcs(t := pc)) lock' infl futs"
proof (rule flights_okI)
  fix t' c assume "holder ((pcs(t := pc)) t') = Some c"
  then show "lock' (cl_identity c) = Some t'"
    using flights_okD(1) [OF ok, of t' c] assms(6,7) by (cases "t' = t") auto
next
  fix f assume f: "f < length futs" "\<not> future_done (futs ! f)"
  then show "infl (ft_identity (futs ! f)) = Some f
      \<or> (\<exists>t' c. registering ((pcs(t := pc)) t') = Some (c, f) \<and> cl_identity c = ft_identity (futs ! f))"
    using flights_okD(2) [OF ok f] assms(2) by (metis fun_upd_other option.distinct(1))
next
  fix t' c assume "ready ((pcs(t := pc)) t') = Some c"
  then show "quiet_but futs (cl_identity c) None" using flights_okD(3) [OF ok] assms(4) by (cases "t' = t") auto
next
  fix t' c f assume "registering ((pcs(t := pc)) t') = Some (c, f)"
  then show "flight_of futs c f \<and> quiet_but futs (cl_identity c) (Some f)"
    using flights_okD(4) [OF ok] assms(3) by (cases "t' = t") auto
next
  fix t' c f assume "flown ((pcs(t := pc)) t') = Some (c, f)"
  then show "flight_of futs c f" using flights_okD(5) [OF ok] assms(5) by (cases "t' = t") auto
next
  fix i g assume "infl i = Some g"
  then show "g < length futs \<and> ft_identity (futs ! g) = i" by (rule flights_okD(6) [OF ok])
qed

text \<open>Past the test of \<open>inflight\<close> every flight of the identity has settled.\<close>

lemma flights_ready:
  assumes ok: "flights_ok pcs lock infl futs" and h: "holder (pcs t) = Some c" and r: "registering (pcs t) = None"
    and landed: "\<And>f. infl (cl_identity c) = Some f \<Longrightarrow> future_done (futs ! f)"
  shows "quiet_but futs (cl_identity c) None"
  unfolding quiet_but_def
proof (intro allI impI)
  fix g assume g: "g < length futs" "ft_identity (futs ! g) = cl_identity c"
  show "future_done (futs ! g)"
  proof (rule ccontr)
    assume nd: "\<not> future_done (futs ! g)"
    then have "infl (cl_identity c) \<noteq> Some g" using landed by blast
    then obtain t' c' where c': "registering (pcs t') = Some (c', g)" "cl_identity c' = cl_identity c"
      using flights_okD(2) [OF ok g(1) nd] g(2) by auto
    have "t' = t" by (rule holder_unique [OF ok registering_holder [OF c'(1)] h c'(2)])
    then show False using c'(1) r by simp
  qed
qed

text \<open>The pool and the publications change a future without moving it.\<close>

definition same_flight :: "'v future \<Rightarrow> 'v future \<Rightarrow> bool" where
  "same_flight u v \<longleftrightarrow> ft_identity v = ft_identity u \<and> ft_fingerprint v = ft_fingerprint u
     \<and> (future_done u \<longrightarrow> future_done v)"

lemma flights_future:
  assumes ok: "flights_ok pcs lock infl futs" and f: "f < length futs" and u: "same_flight (futs ! f) u"
  shows "flights_ok pcs lock infl (futs[f := u])"
proof -
  have same: "same_flight (futs ! g) (futs[f := u] ! g)" if "g < length futs" for g
    using that u by (cases "g = f") (auto simp: same_flight_def)
  have quiet: "quiet_but futs i h \<Longrightarrow> quiet_but (futs[f := u]) i h" for i h
    using same by (auto simp: quiet_but_def same_flight_def)
  have of: "flight_of futs c g \<Longrightarrow> flight_of (futs[f := u]) c g" for c g
    using same by (auto simp: flight_of_def same_flight_def)
  show ?thesis
  proof (rule flights_okI)
    fix g assume g: "g < length (futs[f := u])" "\<not> future_done (futs[f := u] ! g)"
    then have "\<not> future_done (futs ! g)" "ft_identity (futs[f := u] ! g) = ft_identity (futs ! g)"
      using same [of g] by (auto simp: same_flight_def)
    then show "infl (ft_identity (futs[f := u] ! g)) = Some g
        \<or> (\<exists>t c. registering (pcs t) = Some (c, g) \<and> cl_identity c = ft_identity (futs[f := u] ! g))"
      using flights_okD(2) [OF ok, of g] g(1) by simp
  next
    fix i g assume "infl i = Some g"
    then show "g < length (futs[f := u]) \<and> ft_identity (futs[f := u] ! g) = i"
      using flights_okD(6) [OF ok] same [of g] by (auto simp: same_flight_def)
  qed (use flights_okD(1,3-5) [OF ok] quiet of in blast)+
qed

text \<open>A settled flight may leave \<open>inflight\<close>.\<close>

lemma flights_clear:
  assumes ok: "flights_ok pcs lock infl futs"
    and "\<And>i. infl' i = infl i \<or> infl' i = None \<and> (\<forall>g. infl i = Some g \<longrightarrow> future_done (futs ! g))"
  shows "flights_ok pcs lock infl' futs"
proof (rule flights_okI)
  fix f assume f: "f < length futs" "\<not> future_done (futs ! f)"
  show "infl' (ft_identity (futs ! f)) = Some f
      \<or> (\<exists>t c. registering (pcs t) = Some (c, f) \<and> cl_identity c = ft_identity (futs ! f))"
    using flights_okD(2) [OF ok f] assms(2) [of "ft_identity (futs ! f)"] f(2) by auto
next
  fix i g assume "infl' i = Some g"
  then show "g < length futs \<and> ft_identity (futs ! g) = i"
    using flights_okD(6) [OF ok, of i g] assms(2) [of i] by auto
qed (use flights_okD(1,3-5) [OF ok] in blast)+

lemma flights_submit:
  assumes ok: "flights_ok pcs lock infl futs" and pc: "pcs t = Submitting c r"
    and u: "ft_identity u = cl_identity c" "ft_fingerprint u = cl_fingerprint c"
  shows "flights_ok (pcs(t := Registering c r (length futs))) lock infl (futs @ [u])"
proof -
  have quiet: "quiet_but futs (cl_identity c) None" using flights_okD(3) [OF ok, of t] pc by simp
  have alone: "cl_identity c' \<noteq> cl_identity c" if "holder (pcs t') = Some c'" "t' \<noteq> t" for t' c'
    using holder_unique [OF ok that(1), of t c] pc that(2) by auto
  have more: "quiet_but futs i h \<Longrightarrow> i \<noteq> cl_identity c \<Longrightarrow> quiet_but (futs @ [u]) i h" for i h
    using u by (auto simp: quiet_but_def nth_append less_Suc_eq)
  have of: "flight_of futs c' g \<Longrightarrow> flight_of (futs @ [u]) c' g" for c' g
    by (auto simp: flight_of_def nth_append)
  show ?thesis
  proof (rule flights_okI)
    fix t' c' assume "holder ((pcs(t := Registering c r (length futs))) t') = Some c'"
    then show "lock (cl_identity c') = Some t'"
      using flights_okD(1) [OF ok, of t' c'] pc by (cases "t' = t") auto
  next
    fix f assume f: "f < length (futs @ [u])" "\<not> future_done ((futs @ [u]) ! f)"
    show "infl (ft_identity ((futs @ [u]) ! f)) = Some f
      \<or> (\<exists>t' c'. registering ((pcs(t := Registering c r (length futs))) t') = Some (c', f)
           \<and> cl_identity c' = ft_identity ((futs @ [u]) ! f))"
    proof (cases "f = length futs")
      case True
      then show ?thesis using u by (intro disjI2 exI [of _ t] exI [of _ c]) simp
    next
      case False
      then have f': "f < length futs" "\<not> future_done (futs ! f)" using f by (auto simp: nth_append)
      have "registering (pcs t) = None" using pc by simp
      then show ?thesis using flights_okD(2) [OF ok f'] f'(1)
        unfolding nth_append_left [OF f'(1)] by (metis fun_upd_other option.distinct(1))
    qed
  next
    fix t' c' assume r: "ready ((pcs(t := Registering c r (length futs))) t') = Some c'"
    then have "t' \<noteq> t" "ready (pcs t') = Some c'" by (auto split: if_splits)
    then show "quiet_but (futs @ [u]) (cl_identity c') None"
      using more flights_okD(3) [OF ok] alone ready_holder by blast
  next
    fix t' c' f assume "registering ((pcs(t := Registering c r (length futs))) t') = Some (c', f)"
    then consider "t' = t" "c' = c" "f = length futs" | "t' \<noteq> t" "registering (pcs t') = Some (c', f)"
      by (auto split: if_splits)
    then show "flight_of (futs @ [u]) c' f \<and> quiet_but (futs @ [u]) (cl_identity c') (Some f)"
    proof cases
      case 1
      then show ?thesis using u quiet by (auto simp: flight_of_def quiet_but_def nth_append less_Suc_eq)
    next
      case 2
      then show ?thesis using of more flights_okD(4) [OF ok] alone registering_holder by blast
    qed
  next
    fix t' c' f assume "flown ((pcs(t := Registering c r (length futs))) t') = Some (c', f)"
    then show "flight_of (futs @ [u]) c' f" using of flights_okD(5) [OF ok] by (auto split: if_splits)
  next
    fix i g assume "infl i = Some g"
    then show "g < length (futs @ [u]) \<and> ft_identity ((futs @ [u]) ! g) = i"
      using flights_okD(6) [OF ok, of i g] by (auto simp: nth_append)
  qed
qed

lemma flights_register:
  assumes ok: "flights_ok pcs lock infl futs" and pc: "pcs t = Registering c r f"
  shows "flights_ok (pcs(t := Awaiting c f u)) lock (infl(cl_identity c \<mapsto> f)) futs"
proof -
  have f: "flight_of futs c f" "quiet_but futs (cl_identity c) (Some f)"
    using flights_okD(4) [OF ok, of t c f] pc by simp_all
  show ?thesis
  proof (rule flights_okI)
    fix t' c' assume "holder ((pcs(t := Awaiting c f u)) t') = Some c'"
    then show "lock (cl_identity c') = Some t'"
      using flights_okD(1) [OF ok, of t' c'] pc by (cases "t' = t") auto
  next
    fix g assume g: "g < length futs" "\<not> future_done (futs ! g)"
    show "(infl(cl_identity c \<mapsto> f)) (ft_identity (futs ! g)) = Some g
      \<or> (\<exists>t' c'. registering ((pcs(t := Awaiting c f u)) t') = Some (c', g) \<and> cl_identity c' = ft_identity (futs ! g))"
    proof (cases "ft_identity (futs ! g) = cl_identity c")
      case True
      then have "f = g" using f(2) g unfolding quiet_but_def by blast
      then show ?thesis using True by simp
    next
      case False
      then show ?thesis using flights_okD(2) [OF ok g] pc f(1)
        by (auto simp: flight_of_def) (metis fun_upd_other registering.simps(1) option.inject prod.inject)
    qed
  next
    fix t' c' assume "ready ((pcs(t := Awaiting c f u)) t') = Some c'"
    then show "quiet_but futs (cl_identity c') None" using flights_okD(3) [OF ok] by (auto split: if_splits)
  next
    fix t' c' g assume "registering ((pcs(t := Awaiting c f u)) t') = Some (c', g)"
    then show "flight_of futs c' g \<and> quiet_but futs (cl_identity c') (Some g)"
      using flights_okD(4) [OF ok] by (auto split: if_splits)
  next
    fix t' c' g assume "flown ((pcs(t := Awaiting c f u)) t') = Some (c', g)"
    then show "flight_of futs c' g" using flights_okD(5) [OF ok] f(1) by (auto split: if_splits)
  next
    fix i g assume "(infl(cl_identity c \<mapsto> f)) i = Some g"
    then show "g < length futs \<and> ft_identity (futs ! g) = i"
      using flights_okD(6) [OF ok, of i g] f(1) by (auto simp: flight_of_def split: if_splits)
  qed
qed

section \<open>The whole guard\<close>

definition lock_map :: "'v leah \<Rightarrow> string \<Rightarrow> nat option" where
  "lock_map s i = is_lock (state_of s i)"

definition infl_map :: "'v leah \<Rightarrow> string \<Rightarrow> nat option" where
  "infl_map s i = is_inflight (state_of s i)"

definition flights_inv :: "'v leah \<Rightarrow> bool" where
  "flights_inv s \<longleftrightarrow> flights_ok (lh_pcs s) (lock_map s) (infl_map s) (lh_futures s)"

lemma state_of_set [simp]: "state_of (set_state i x s) j = (if j = i then x else state_of s j)"
  by (simp add: state_of_def set_state_def)

lemma state_of_frame [simp]:
  "state_of (set_future f u s) i = state_of s i" "state_of (count h s) i = state_of s i"
  "state_of (s\<lparr>lh_pcs := p\<rparr>) i = state_of s i" "state_of (s\<lparr>lh_futures := fs\<rparr>) i = state_of s i"
  "state_of (s\<lparr>lh_now := n\<rparr>) i = state_of s i"
  by (simp_all add: state_of_def set_future_def count_def)

lemma guard_frame [simp]:
  "lh_futures (set_state i x s) = lh_futures s" "lh_futures (count h s) = lh_futures s"
  "lh_futures (set_future f u s) = (lh_futures s)[f := u]"
  "lh_pcs (set_state i x s) = lh_pcs s" "lh_pcs (count h s) = lh_pcs s" "lh_pcs (set_future f u s) = lh_pcs s"
  "lh_now (set_state i x s) = lh_now s" "lh_now (count h s) = lh_now s" "lh_now (set_future f u s) = lh_now s"
  "lh_counters (set_state i x s) = lh_counters s" "lh_counters (set_future f u s) = lh_counters s"
  "lh_counters (count h s) = h (lh_counters s)"
  by (simp_all add: set_state_def set_future_def count_def)

lemma maps_frame [simp]:
  "lock_map (set_state i x s) = (lock_map s)(i := is_lock x)" "infl_map (set_state i x s) = (infl_map s)(i := is_inflight x)"
  "lock_map (set_future f u s) = lock_map s" "infl_map (set_future f u s) = infl_map s"
  "lock_map (count h s) = lock_map s" "infl_map (count h s) = infl_map s"
  "lock_map (s\<lparr>lh_pcs := p\<rparr>) = lock_map s" "infl_map (s\<lparr>lh_pcs := p\<rparr>) = infl_map s"
  "lock_map (s\<lparr>lh_futures := fs\<rparr>) = lock_map s" "infl_map (s\<lparr>lh_futures := fs\<rparr>) = infl_map s"
  "lock_map (s\<lparr>lh_now := n\<rparr>) = lock_map s" "infl_map (s\<lparr>lh_now := n\<rparr>) = infl_map s"
  by (auto simp: lock_map_def infl_map_def)

lemma maps_same [simp]: "(lock_map s)(i := is_lock (state_of s i)) = lock_map s"
  "(infl_map s)(i := is_inflight (state_of s i)) = infl_map s"
  by (auto simp: lock_map_def infl_map_def)

lemma state_frame [simp]:
  "is_lock (record_outcome cfg c u x) = is_lock x" "is_inflight (record_outcome cfg c u x) = is_inflight x"
  "is_lock (clear_inflight f x) = is_lock x"
  "is_inflight (clear_inflight f x) = (if is_inflight x = Some f then None else is_inflight x)"
  "is_lock (install_cooldown cfg now fp x) = is_lock x" "is_inflight (install_cooldown cfg now fp x) = is_inflight x"
  by (auto simp: record_outcome_def clear_inflight_def install_cooldown_def split: future_state.split work_outcome.split)

lemma publish_frame [simp]: "lh_now (leah_publish cfg f c s) = lh_now s" "lh_pcs (leah_publish cfg f c s) = lh_pcs s"
  "length (lh_futures (leah_publish cfg f c s)) = length (lh_futures s)"
  "lock_map (leah_publish cfg f c s) = lock_map s"
  by (auto simp: leah_publish_def Let_def)

text \<open>Publishing and clearing keep the flights in order, whatever the program counters are.\<close>

lemma clear_flights:
  assumes ok: "flights_ok pcs (lock_map s) (infl_map s) (lh_futures s)" and d: "future_done (lh_futures s ! f)"
    and x: "is_lock x = is_lock (state_of s i)" "is_inflight x = is_inflight (clear_inflight f (state_of s i))"
  shows "flights_ok pcs (lock_map (set_state i x s)) (infl_map (set_state i x s)) (lh_futures (set_state i x s))"
proof -
  have "flights_ok pcs (lock_map s) ((infl_map s)(i := is_inflight x)) (lh_futures s)"
    by (rule flights_clear [OF ok]) (use d x in \<open>auto simp: infl_map_def split: if_splits\<close>)
  then show ?thesis by (simp add: x(1))
qed

lemma publish_flights:
  assumes ok: "flights_ok pcs (lock_map s) (infl_map s) (lh_futures s)"
  shows "flights_ok pcs (lock_map (leah_publish cfg f c s)) (infl_map (leah_publish cfg f c s)) (lh_futures (leah_publish cfg f c s))"
proof (cases "f \<ge> length (lh_futures s) \<or> \<not> future_done (lh_futures s ! f) \<or> ft_published (lh_futures s ! f)")
  case False
  let ?u = "lh_futures s ! f" let ?v = "?u\<lparr>ft_published := True, ft_completed_at := Some c\<rparr>"
  let ?x = "record_outcome cfg c ?u (clear_inflight f (state_of s (ft_identity ?u)))"
  have "flights_ok pcs (lock_map (set_future f ?v s)) (infl_map (set_future f ?v s)) (lh_futures (set_future f ?v s))"
    using flights_future [OF ok, of f ?v] False by (simp add: same_flight_def future_done_def)
  from clear_flights [OF this, of f ?x "ft_identity ?u"] False
  have "flights_ok pcs (lock_map (set_state (ft_identity ?u) ?x (set_future f ?v s)))
     (infl_map (set_state (ft_identity ?u) ?x (set_future f ?v s))) (lh_futures (set_state (ft_identity ?u) ?x (set_future f ?v s)))"
    by (simp add: future_done_def)
  with False show ?thesis unfolding leah_publish_def Let_def by simp
next
  case True
  then show ?thesis using ok by (auto simp: leah_publish_def Let_def)
qed

text \<open>The moves of a caller.\<close>

lemma flights_moves:
  assumes ok: "flights_inv s" and r: "registering (lh_pcs s t) = None" "registering pc = None"
    and "ready pc = None \<or> ready pc = ready (lh_pcs s t)"
    and "flown pc = None \<or> flown pc = flown (lh_pcs s t)"
    and "holder pc = None \<or> holder pc = holder (lh_pcs s t)"
  shows "flights_ok ((lh_pcs s)(t := pc)) (lock_map s) (infl_map s) (lh_futures s)"
proof -
  note ok = ok [unfolded flights_inv_def]
  show ?thesis
    by (rule flights_move [OF ok r])
      (use assms(4-6) flights_okD(1,3,5) [OF ok, of t] in \<open>auto split: if_splits\<close>)
qed

definition moved :: "nat \<Rightarrow> 'v leah \<Rightarrow> 'v leah_pc \<times> 'v leah \<Rightarrow> bool" where
  "moved t s r \<longleftrightarrow> (case r of (pc, s') \<Rightarrow>
     flights_ok ((lh_pcs s)(t := pc)) (lock_map s') (infl_map s') (lh_futures s'))"

lemma moved_same:
  assumes "flights_inv s" and "registering (lh_pcs s t) = None" and "registering pc = None"
    and "ready pc = None \<or> ready pc = ready (lh_pcs s t)" and "flown pc = None \<or> flown pc = flown (lh_pcs s t)"
    and "holder pc = None \<or> holder pc = holder (lh_pcs s t)"
    and "lock_map s' = lock_map s" and "infl_map s' = infl_map s" and "lh_futures s' = lh_futures s"
  shows "moved t s (pc, s')"
  using flights_moves [OF assms(1-6)] assms(7-9) by (simp add: moved_def)

lemma moved_publish:
  assumes "flights_inv s" and "registering (lh_pcs s t) = None" and "registering pc = None"
    and "ready pc = None \<or> ready pc = ready (lh_pcs s t)" and "flown pc = None \<or> flown pc = flown (lh_pcs s t)"
    and "holder pc = None \<or> holder pc = holder (lh_pcs s t)"
  shows "moved t s (pc, leah_publish cfg f c s)"
  using publish_flights [OF flights_moves [OF assms]] by (simp add: moved_def)

lemma moved_take:
  assumes ok: "flights_inv s" and "lh_pcs s t = Trying c \<or> lh_pcs s t = Blocked c u"
    and free: "is_lock (state_of s (cl_identity c)) = None"
  shows "moved t s (Locked c w n, take_lock t (cl_identity c) s)"
proof -
  note ok = ok [unfolded flights_inv_def]
  have "flights_ok ((lh_pcs s)(t := Locked c w n)) ((lock_map s)(cl_identity c \<mapsto> t)) (infl_map s) (lh_futures s)"
  proof (rule flights_move [OF ok])
    fix t' c' assume "t' \<noteq> t" "holder (lh_pcs s t') = Some c'"
    then have "lock_map s (cl_identity c') = Some t'" using flights_okD(1) [OF ok] by blast
    then have "cl_identity c' \<noteq> cl_identity c" using free by (auto simp: lock_map_def)
    then show "((lock_map s)(cl_identity c \<mapsto> t)) (cl_identity c') = lock_map s (cl_identity c')" by simp
  qed (use assms(2) in auto)
  then show ?thesis by (simp add: moved_def take_lock_def maps_same [of s, symmetric] infl_map_def)
qed

lemma moved_release:
  assumes ok: "flights_inv s" and pc: "lh_pcs s t = Releasing c a"
  shows "moved t s (Answered a, release_lock (cl_identity c) s)"
proof -
  note ok = ok [unfolded flights_inv_def]
  have "flights_ok ((lh_pcs s)(t := Answered a)) ((lock_map s)(cl_identity c := None)) (infl_map s) (lh_futures s)"
  proof (rule flights_move [OF ok])
    fix t' c' assume t': "t' \<noteq> t" "holder (lh_pcs s t') = Some c'"
    have "cl_identity c' \<noteq> cl_identity c" using holder_unique [OF ok t'(2), of t c] t'(1) pc by auto
    then show "((lock_map s)(cl_identity c := None)) (cl_identity c') = lock_map s (cl_identity c')" by simp
  qed (use pc in auto)
  then show ?thesis by (simp add: moved_def release_lock_def)
qed

lemma moved_check:
  assumes ok: "flights_inv s" and pc: "lh_pcs s t = Locked c w n"
  shows "moved t s (check_inflight cfg c w n s)"
proof -
  note ok' = ok [unfolded flights_inv_def]
  have ready: "moved t s (Checked c w n, s)"
    if "\<And>f. infl_map s (cl_identity c) = Some f \<Longrightarrow> future_done (lh_futures s ! f)"
  proof -
    have "quiet_but (lh_futures s) (cl_identity c) None"
      by (rule flights_ready [OF ok', of t]) (use pc that in auto)
    then have "flights_ok ((lh_pcs s)(t := Checked c w n)) (lock_map s) (infl_map s) (lh_futures s)"
      by (intro flights_move [OF ok']) (use pc flights_okD(1) [OF ok', of t] in auto)
    then show ?thesis by (simp add: moved_def)
  qed
  have busy: "moved t s (Releasing c a, count h s)" for a h
    by (rule moved_same [OF ok]) (use pc in auto)
  show ?thesis using ready busy by (auto simp: check_inflight_def infl_map_def split: option.split)
qed

lemma moved_submit:
  assumes ok: "flights_inv s" and pc: "lh_pcs s t = Submitting c r"
  shows "moved t s (submit_step acc c r s)"
proof (cases acc)
  case True
  show ?thesis using flights_submit [where pcs = "lh_pcs s", OF ok [unfolded flights_inv_def] pc] True
    by (simp add: moved_def submit_step_def)
next
  case False
  show ?thesis unfolding submit_step_def using False by (simp, intro moved_same [OF ok]) (use pc in auto)
qed

lemma moved_register:
  assumes ok: "flights_inv s" and pc: "lh_pcs s t = Registering c r f"
  shows "moved t s (register_step c r f s)"
proof -
  let ?u = "(lh_futures s ! f)\<lparr>ft_deadline_at := Some (cl_deadline_at c), ft_callback := True\<rparr>"
  have f: "f < length (lh_futures s)"
    using flights_okD(4) [OF ok [unfolded flights_inv_def], of t c f] pc by (simp add: flight_of_def)
  have "flights_ok (lh_pcs s) (lock_map s) (infl_map s) ((lh_futures s)[f := ?u])"
    by (rule flights_future [OF ok [unfolded flights_inv_def] f]) (simp add: same_flight_def future_done_def)
  from flights_register [OF this pc] show ?thesis
    by (simp add: moved_def register_step_def lock_map_def)
qed

lemma moved_timeout:
  assumes ok: "flights_inv s" and pc: "lh_pcs s t = Timed_out c f"
  shows "moved t s (timeout_step cfg c f s)"
proof -
  have "moved t s (Settled c f, s)" by (rule moved_same [OF ok]) (use pc in auto)
  moreover have "moved t s (Counting c f, set_state (cl_identity c)
      (install_cooldown cfg (lh_now s) (cl_fingerprint c) (state_of s (cl_identity c))) s)"
    by (rule moved_same [OF ok]) (use pc in auto)
  ultimately show ?thesis by (simp add: timeout_step_def Let_def)
qed

lemma moved_count:
  assumes ok: "flights_inv s" and pc: "lh_pcs s t = Counting c f"
  shows "moved t s (count_step cfg c f s)"
proof -
  have f: "f < length (lh_futures s)"
    using flights_okD(5) [OF ok [unfolded flights_inv_def], of t c f] pc by (simp add: flight_of_def)
  have "flights_ok ((lh_pcs s)(t := Cancelling c f)) (lock_map s) (infl_map s) (lh_futures s)"
    by (rule flights_moves [OF ok]) (use pc in auto)
  from flights_future [OF this f, of "(lh_futures s ! f)\<lparr>ft_state := Cancelled, ft_done_at := lh_now s\<rparr>"]
  have "moved t s (Cancelling c f, set_future f ((lh_futures s ! f)\<lparr>ft_state := Cancelled, ft_done_at := lh_now s\<rparr>) (count h s))" for h
    by (simp add: moved_def same_flight_def future_done_def)
  moreover have "moved t s (Cancelling c f, count h s)" for h by (rule moved_same [OF ok]) (use pc in auto)
  moreover have "moved t s (Releasing c a, count h s)" for a h by (rule moved_same [OF ok]) (use pc in auto)
  ultimately show ?thesis by (simp add: count_step_def Let_def)
qed

text \<open>Futures are only added, and settle for good.\<close>

definition futures_grow :: "'v leah \<Rightarrow> 'v leah \<Rightarrow> bool" where
  "futures_grow s s' \<longleftrightarrow> length (lh_futures s) \<le> length (lh_futures s')
     \<and> (\<forall>f<length (lh_futures s). same_flight (lh_futures s ! f) (lh_futures s' ! f))"

lemma futures_grow_same [intro]: "lh_futures s' = lh_futures s \<Longrightarrow> futures_grow s s'"
  by (simp add: futures_grow_def same_flight_def)

lemma futures_grow_upd: "lh_futures s' = (lh_futures s)[f := u] \<Longrightarrow> same_flight (lh_futures s ! f) u \<Longrightarrow> futures_grow s s'"
  by (cases "f < length (lh_futures s)") (auto simp: futures_grow_def nth_list_update same_flight_def)

lemma futures_grow_publish [intro]: "futures_grow s (leah_publish cfg f c s)"
  unfolding leah_publish_def Let_def
  by (auto intro!: futures_grow_upd simp: same_flight_def future_done_def)

lemma futures_grow_caller: "futures_grow s (snd (caller_next cfg acc gu t pc s))"
proof (cases pc)
  case (Submitting c r)
  then show ?thesis by (simp add: caller_next_def submit_step_def futures_grow_def same_flight_def nth_append)
next
  case (Registering c r f)
  then show ?thesis
    by (simp add: caller_next_def register_step_def)
      (rule futures_grow_upd, simp, simp add: same_flight_def future_done_def)
next
  case (Counting c f)
  then show ?thesis
    by (auto simp: caller_next_def count_step_def Let_def)
      (rule futures_grow_upd, simp, simp add: same_flight_def future_done_def)
next
  case (Cancelling c f)
  then have "lh_futures (snd (caller_next cfg acc gu t pc s)) = lh_futures (leah_publish cfg f (lh_now s) s)"
    by (simp add: caller_next_def cancel_step_def Let_def)
  then show ?thesis using futures_grow_publish [of s cfg f "lh_now s"] by (simp add: futures_grow_def)
qed (auto simp: caller_next_def acquire_def acquire_blocked_def take_lock_def release_lock_def check_inflight_def decide_step_def
      start_step_def timeout_step_def settled_step_def Let_def split: option.split decision.split)

lemma futures_grow_step: "futures_grow s (leah_apply cfg e s)"
proof (cases e)
  case (Enter t i fp)
  then show ?thesis by (auto simp: enter_run_def split: leah_pc.split)
next
  case (Caller t acc gu)
  have "lh_futures (caller_step cfg t acc gu s) = lh_futures (snd (caller_next cfg acc gu t (lh_pcs s t) s))"
    by (simp add: caller_step_def split: prod.split)
  then show ?thesis using Caller futures_grow_caller [of s cfg acc gu t "lh_pcs s t"] by (simp add: futures_grow_def)
next
  case (Run f)
  then show ?thesis by (auto simp: run_future_def intro!: futures_grow_upd simp: same_flight_def future_done_def)
next
  case (Finish f r)
  then show ?thesis by (auto simp: finish_future_def intro!: futures_grow_upd simp: same_flight_def future_done_def)
next
  case (Callback f c)
  then show ?thesis by (auto simp: callback_def)
qed auto

definition cancels_inv :: "'v leah \<Rightarrow> bool" where
  "cancels_inv s \<longleftrightarrow> (\<forall>t c f. lh_pcs s t = Cancelling c f \<longrightarrow> f < length (lh_futures s) \<and> future_done (lh_futures s ! f))"

lemma cancels_grow:
  assumes "cancels_inv s" and "futures_grow s s'" and "\<And>t c f. lh_pcs s' t = Cancelling c f \<Longrightarrow> lh_pcs s t = Cancelling c f
     \<or> f < length (lh_futures s') \<and> future_done (lh_futures s' ! f)"
  shows "cancels_inv s'"
  unfolding cancels_inv_def
proof (intro allI impI)
  fix t c f assume "lh_pcs s' t = Cancelling c f"
  then consider "lh_pcs s t = Cancelling c f" | "f < length (lh_futures s') \<and> future_done (lh_futures s' ! f)"
    using assms(3) by blast
  then show "f < length (lh_futures s') \<and> future_done (lh_futures s' ! f)"
  proof cases
    case 1
    then have "f < length (lh_futures s)" "future_done (lh_futures s ! f)" using assms(1) by (auto simp: cancels_inv_def)
    then show ?thesis using assms(2) by (auto simp: futures_grow_def same_flight_def)
  qed
qed

lemma moved_cancel:
  assumes ok: "flights_inv s" and "cancels_inv s" and pc: "lh_pcs s t = Cancelling c f"
  shows "moved t s (cancel_step cfg c f s)"
proof -
  have d: "f < length (lh_futures s)" "future_done (lh_futures s ! f)" using assms(2) pc by (auto simp: cancels_inv_def)
  let ?s = "leah_publish cfg f (lh_now s) s"
  have "flights_ok ((lh_pcs s)(t := Releasing c (timed_out_answer cfg))) (lock_map ?s) (infl_map ?s) (lh_futures ?s)"
    by (rule publish_flights, rule flights_moves [OF ok]) (use pc in auto)
  moreover have "future_done (lh_futures ?s ! f)"
    using d futures_grow_publish [of s cfg f "lh_now s"] by (auto simp: futures_grow_def same_flight_def)
  ultimately have "flights_ok ((lh_pcs s)(t := Releasing c (timed_out_answer cfg)))
      (lock_map (set_state i (clear_inflight f (state_of ?s i)) ?s)) (infl_map (set_state i (clear_inflight f (state_of ?s i)) ?s))
      (lh_futures (set_state i (clear_inflight f (state_of ?s i)) ?s))" for i
    by (rule clear_flights) simp_all
  then show ?thesis by (simp add: moved_def cancel_step_def Let_def)
qed

lemma moved_caller:
  assumes ok: "flights_inv s" and "cancels_inv s"
  shows "moved t s (caller_next cfg acc gu t (lh_pcs s t) s)"
proof (cases "lh_pcs s t")
  case (Trying c)
  have "moved t s (Answered a, count h s)" "moved t s (Blocked c u, s)" for a h u
    using Trying by (auto intro!: moved_same [OF ok])
  then show ?thesis using Trying moved_take [OF ok] by (simp add: caller_next_def acquire_def Let_def)
next
  case (Blocked c u)
  have "moved t s (Answered a, count h s)" "moved t s (Blocked c u, s)" for a h
    using Blocked by (auto intro!: moved_same [OF ok])
  then show ?thesis using Blocked moved_take [OF ok] by (simp add: caller_next_def acquire_blocked_def Let_def)
next
  case (Checked c w n)
  have "moved t s (Releasing c a, count h s)" "moved t s (Starting c, count h s)" for a h
    using Checked by (auto intro!: moved_same [OF ok])
  then show ?thesis using Checked by (simp add: caller_next_def decide_step_def Let_def split: decision.split)
next
  case (Starting c)
  have "moved t s (Releasing c a, count h s)" "moved t s (Submitting c r, s)" for a h r
    using Starting by (auto intro!: moved_same [OF ok])
  then show ?thesis using Starting by (simp add: caller_next_def start_step_def Let_def)
next
  case (Awaiting c f u)
  have m: "moved t s (pc, s)" if "registering pc = None" "ready pc = None" "flown pc = None \<or> flown pc = Some (c, f)"
    "holder pc = Some c" for pc
    by (rule moved_same [OF ok]) (use Awaiting that in auto)
  show ?thesis using Awaiting
    by (auto simp: caller_next_def await_step_def intro!: m split: future_state.split work_outcome.split work_error.split)
next
  case (Settled c f)
  have "moved t s (Releasing c a, leah_publish cfg f k s)" "moved t s (Counting c f, leah_publish cfg f k s)" for a k
    using Settled by (auto intro!: moved_publish [OF ok])
  then show ?thesis using Settled by (simp add: caller_next_def settled_step_def Let_def split: future_state.split work_outcome.split)
next
  case (Releasing c a)
  then show ?thesis using moved_release [OF ok] by (simp add: caller_next_def)
qed (auto simp: caller_next_def assms moved_check moved_submit moved_register moved_timeout moved_count moved_cancel
      intro!: moved_publish [OF ok] moved_same [OF ok])

end
