(* ===== verification/LeahSafety.thy ===== *)
theory LeahSafety
  imports LeahInvariants
begin

text \<open>
  The synchronisation guard's guarantees over every interleaving of callers, pool threads and
  callbacks: one flight at a time for each identity, each flight accounted once, a reused result is a
  recent result of the same payload, no caller is stuck; and the two corners where the code does not
  do what its documentation says.
\<close>

section \<open>Every event keeps the flights in order\<close>

lemma flights_inv_caller:
  assumes "flights_inv s" and "cancels_inv s"
  shows "flights_inv (caller_step cfg t acc gu s)"
  using moved_caller [OF assms, of t cfg acc gu]
  by (auto simp: flights_inv_def caller_step_def moved_def split: prod.splits)

lemma flights_inv_future:
  assumes "flights_inv s" and "f < length (lh_futures s)" and "same_flight (lh_futures s ! f) u"
  shows "flights_inv (set_future f u s)"
  using flights_future [OF assms(1) [unfolded flights_inv_def] assms(2,3)] by (simp add: flights_inv_def)

lemma flights_inv_enter: "flights_inv s \<Longrightarrow> flights_inv (enter_run cfg t i fp s)"
proof (cases "lh_pcs s t = Outside")
  case True
  assume ok: "flights_inv s"
  show ?thesis using flights_moves [OF ok, of t "Trying c" for c] True
    by (simp add: flights_inv_def enter_run_def)
next
  case False
  assume "flights_inv s"
  then show ?thesis using False by (auto simp: enter_run_def split: leah_pc.split)
qed

lemma flights_inv_apply:
  assumes "flights_inv s" and "cancels_inv s"
  shows "flights_inv (leah_apply cfg e s)"
proof (cases e)
  case (Tick n)
  then show ?thesis using assms by (simp add: flights_inv_def)
next
  case (Callback f c)
  then show ?thesis using assms publish_flights [of "lh_pcs s" s] by (simp add: flights_inv_def callback_def)
qed (use assms in \<open>auto simp: run_future_def finish_future_def same_flight_def future_done_def
      flights_inv_caller flights_inv_enter intro!: flights_inv_future\<close>)

lemma caller_cancelling: "fst (caller_next cfg acc gu t pc s) = Cancelling c f \<Longrightarrow> pc = Counting c f \<or> pc = Cancelling c f"
  by (cases pc) (auto simp: caller_next_def acquire_def acquire_blocked_def check_inflight_def decide_step_def start_step_def
      submit_step_def register_step_def await_step_def timeout_step_def settled_step_def count_step_def cancel_step_def Let_def
      split: if_splits option.splits decision.splits future_state.splits work_outcome.splits work_error.splits)

lemma cancels_inv_apply:
  assumes ok: "flights_inv s" and "cancels_inv s"
  shows "cancels_inv (leah_apply cfg e s)"
proof (rule cancels_grow [OF assms(2) futures_grow_step])
  fix t c f assume c: "lh_pcs (leah_apply cfg e s) t = Cancelling c f"
  show "lh_pcs s t = Cancelling c f
    \<or> f < length (lh_futures (leah_apply cfg e s)) \<and> future_done (lh_futures (leah_apply cfg e s) ! f)"
  proof (cases "\<exists>acc gu. e = Caller t acc gu")
    case False
    have "lh_pcs (leah_apply cfg e s) t = lh_pcs s t \<or> \<not> (\<exists>c f. lh_pcs (leah_apply cfg e s) t = Cancelling c f)"
      using False by (cases e) (auto simp: enter_run_def caller_step_def run_future_def finish_future_def callback_def
          split: leah_pc.split prod.split)
    then show ?thesis using c by auto
  next
    case True
    then obtain acc gu where e: "e = Caller t acc gu" by blast
    let ?r = "caller_next cfg acc gu t (lh_pcs s t) s"
    have r: "fst ?r = Cancelling c f" and fs: "lh_futures (leah_apply cfg e s) = lh_futures (snd ?r)"
      using c e by (auto simp: caller_step_def split: prod.splits)
    from caller_cancelling [OF r] show ?thesis
    proof
      assume pc: "lh_pcs s t = Counting c f"
      have "f < length (lh_futures s)"
        using flights_okD(5) [OF ok [unfolded flights_inv_def], of t c f] pc by (simp add: flight_of_def)
      then show ?thesis using r unfolding fs pc
        by (auto simp: caller_next_def count_step_def Let_def future_done_def split: if_splits)
    qed simp
  qed
qed

section \<open>Accounts\<close>

definition counted_ok :: "'v future \<Rightarrow> bool" where
  "counted_ok u \<longleftrightarrow> ft_published u \<and> settled_ok u"

definition counted_error :: "'v future \<Rightarrow> bool" where
  "counted_error u \<longleftrightarrow> ft_published u \<and> (\<exists>e. ft_state u = Finished (Raised e))"

text \<open>The flight behind an identity's reusable result.\<close>

definition result_of :: "'v future list \<Rightarrow> string \<Rightarrow> 'v identity_state \<Rightarrow> pyfloat \<Rightarrow> nat \<Rightarrow> bool" where
  "result_of futs i x c f \<longleftrightarrow> f < length futs \<and> ft_identity (futs ! f) = i \<and> ft_published (futs ! f)
     \<and> ft_completed_at (futs ! f) = Some c \<and> is_last_fingerprint x = Some (ft_fingerprint (futs ! f))
     \<and> (\<exists>v. ft_state (futs ! f) = Finished (Ok v) \<and> is_last_result x = Some v)"

definition accounts_inv :: "'v leah \<Rightarrow> bool" where
  "accounts_inv s \<longleftrightarrow>
     lc_executed (lh_counters s) = length (filter counted_ok (lh_futures s))
     \<and> lc_errors (lh_counters s) = length (filter counted_error (lh_futures s))
     \<and> (\<forall>f<length (lh_futures s). ft_published (lh_futures s ! f) \<longrightarrow> future_done (lh_futures s ! f))
     \<and> (\<forall>i c. is_last_completed_at (state_of s i) = Some c \<longrightarrow> (\<exists>f. result_of (lh_futures s) i (state_of s i) c f))"

lemma accounts_invD:
  assumes "accounts_inv s"
  shows "lc_executed (lh_counters s) = length (filter counted_ok (lh_futures s))"
    and "lc_errors (lh_counters s) = length (filter counted_error (lh_futures s))"
    and "f < length (lh_futures s) \<Longrightarrow> ft_published (lh_futures s ! f) \<Longrightarrow> future_done (lh_futures s ! f)"
    and "is_last_completed_at (state_of s i) = Some c \<Longrightarrow> \<exists>f. result_of (lh_futures s) i (state_of s i) c f"
  using assms by (auto simp: accounts_inv_def)

text \<open>What leaves the accounts alone: a step that changes neither the last results nor the two counts.\<close>

definition same_last :: "'v identity_state \<Rightarrow> 'v identity_state \<Rightarrow> bool" where
  "same_last x y \<longleftrightarrow> is_last_fingerprint y = is_last_fingerprint x \<and> is_last_result y = is_last_result x
     \<and> is_last_completed_at y = is_last_completed_at x"

lemma accounts_frame:
  assumes "accounts_inv s" and "lh_futures s' = lh_futures s" and "\<And>i. same_last (state_of s i) (state_of s' i)"
    and "lc_executed (lh_counters s') = lc_executed (lh_counters s)" and "lc_errors (lh_counters s') = lc_errors (lh_counters s)"
  shows "accounts_inv s'"
proof -
  have r: "result_of (lh_futures s) i (state_of s' i) c f = result_of (lh_futures s) i (state_of s i) c f" for i c f
    using assms(3) [of i] by (simp add: result_of_def same_last_def)
  have "is_last_completed_at (state_of s' i) = is_last_completed_at (state_of s i)" for i
    using assms(3) [of i] by (simp add: same_last_def)
  then show ?thesis using assms(1,2,4,5) r by (simp add: accounts_inv_def)
qed

text \<open>A future that is changed without being published.\<close>

definition kept_future :: "'v future \<Rightarrow> 'v future \<Rightarrow> bool" where
  "kept_future u v \<longleftrightarrow> ft_published v = ft_published u \<and> ft_identity v = ft_identity u \<and> ft_fingerprint v = ft_fingerprint u
     \<and> (ft_published u \<longrightarrow> ft_state v = ft_state u \<and> ft_completed_at v = ft_completed_at u)"

lemma accounts_future:
  assumes ok: "accounts_inv s" and k: "kept_future (lh_futures s ! f) u"
  shows "accounts_inv (set_future f u s)"
proof (cases "f < length (lh_futures s)")
  case True
  have c: "length (filter counted_ok ((lh_futures s)[f := u])) = length (filter counted_ok (lh_futures s))"
    "length (filter counted_error ((lh_futures s)[f := u])) = length (filter counted_error (lh_futures s))"
    using k by (intro length_filter_upd_same [OF True], auto simp: counted_ok_def counted_error_def settled_ok_def kept_future_def)+
  have "result_of (lh_futures s) i x d g \<Longrightarrow> result_of ((lh_futures s)[f := u]) i x d g" for i x d g
    using k True by (cases "g = f") (auto simp: result_of_def kept_future_def)
  then show ?thesis using ok c k True unfolding accounts_inv_def
    by (auto simp: nth_list_update kept_future_def future_done_def) blast+
next
  case False
  then show ?thesis using ok by (simp add: accounts_inv_def list_update_beyond)
qed

lemma accounts_append:
  assumes ok: "accounts_inv s" and "\<not> ft_published u"
  shows "accounts_inv (s\<lparr>lh_futures := lh_futures s @ [u]\<rparr>)"
proof -
  have "result_of (lh_futures s) i x d g \<Longrightarrow> result_of (lh_futures s @ [u]) i x d g" for i x d g
    by (auto simp: result_of_def nth_append)
  then show ?thesis using assms unfolding accounts_inv_def
    by (auto simp: counted_ok_def counted_error_def nth_append less_Suc_eq) blast
qed

lemma same_last_frame [simp]: "same_last x x" "same_last x (clear_inflight f x)" "same_last x (install_cooldown cfg n fp x)"
  "same_last x (x\<lparr>is_lock := l\<rparr>)" "same_last x (x\<lparr>is_inflight := g, is_inflight_fingerprint := h\<rparr>)"
  by (simp_all add: same_last_def clear_inflight_def install_cooldown_def)

lemma count_outcome_simps [simp]:
  "ft_state u = Finished (Ok v) \<Longrightarrow> lc_executed (count_outcome c u k) = Suc (lc_executed k)"
  "ft_state u = Finished (Ok v) \<Longrightarrow> lc_errors (count_outcome c u k) = lc_errors k"
  "ft_state u = Finished (Raised e) \<Longrightarrow> lc_executed (count_outcome c u k) = lc_executed k"
  "ft_state u = Finished (Raised e) \<Longrightarrow> lc_errors (count_outcome c u k) = Suc (lc_errors k)"
  "ft_state u = Cancelled \<Longrightarrow> count_outcome c u k = k"
  by (simp_all add: count_outcome_def Let_def)

lemma accounts_publish:
  assumes ok: "accounts_inv s"
  shows "accounts_inv (leah_publish cfg f c s)"
proof (cases "f \<ge> length (lh_futures s) \<or> \<not> future_done (lh_futures s ! f) \<or> ft_published (lh_futures s ! f)")
  case True
  then show ?thesis using ok by (auto simp: leah_publish_def Let_def)
next
  case False
  let ?u = "lh_futures s ! f" let ?v = "?u\<lparr>ft_published := True, ft_completed_at := Some c\<rparr>"
  let ?fs = "(lh_futures s)[f := ?v]"
  have f: "f < length (lh_futures s)" and d: "future_done ?u" and np: "\<not> ft_published ?u" using False by auto
  have other: "result_of (lh_futures s) i x t g \<Longrightarrow> same_last x y \<Longrightarrow> result_of ?fs i y t g" for i x y t g
    using np by (cases "g = f") (auto simp: result_of_def same_last_def)
  show ?thesis
  proof (cases "ft_state ?u")
    case (Finished r)
    show ?thesis
    proof (cases r)
      case (Ok v)
      have "length (filter counted_ok ?fs) = Suc (length (filter counted_ok (lh_futures s)))"
        by (rule length_filter_upd_in [OF f]) (use np Finished Ok in \<open>auto simp: counted_ok_def settled_ok_def\<close>)
      moreover have "length (filter counted_error ?fs) = length (filter counted_error (lh_futures s))"
        by (rule length_filter_upd_same [OF f]) (use np Finished Ok in \<open>auto simp: counted_error_def\<close>)
      moreover have "result_of ?fs (ft_identity ?u)
          (record_outcome cfg c ?u (clear_inflight f (state_of s (ft_identity ?u)))) c f"
        using f Finished Ok by (simp add: result_of_def record_outcome_def)
      ultimately show ?thesis using False ok Finished Ok other [OF _ same_last_frame(1)] unfolding accounts_inv_def
        by (auto simp: leah_publish_def Let_def nth_list_update future_done_def record_outcome_def clear_inflight_def
            split: if_splits) blast+
    next
      case (Raised e)
      have "length (filter counted_ok ?fs) = length (filter counted_ok (lh_futures s))"
        by (rule length_filter_upd_same [OF f]) (use np Finished Raised in \<open>auto simp: counted_ok_def settled_ok_def\<close>)
      moreover have "length (filter counted_error ?fs) = Suc (length (filter counted_error (lh_futures s)))"
        by (rule length_filter_upd_in [OF f]) (use np Finished Raised in \<open>auto simp: counted_error_def\<close>)
      moreover have "same_last (state_of s i) (record_outcome cfg c ?u (clear_inflight f (state_of s i)))" for i
        using Finished Raised by (simp add: record_outcome_def same_last_def clear_inflight_def)
      ultimately show ?thesis using False ok Finished Raised other unfolding accounts_inv_def
        by (auto simp: leah_publish_def Let_def nth_list_update future_done_def same_last_def) blast+
    qed
  next
    case Cancelled
    have "length (filter counted_ok ?fs) = length (filter counted_ok (lh_futures s))"
      by (rule length_filter_upd_same [OF f]) (use np Cancelled in \<open>auto simp: counted_ok_def settled_ok_def\<close>)
    moreover have "length (filter counted_error ?fs) = length (filter counted_error (lh_futures s))"
      by (rule length_filter_upd_same [OF f]) (use np Cancelled in \<open>auto simp: counted_error_def\<close>)
    moreover have "same_last (state_of s i) (record_outcome cfg c ?u (clear_inflight f (state_of s i)))" for i
      using Cancelled by (simp add: record_outcome_def)
    ultimately show ?thesis using False ok Cancelled other unfolding accounts_inv_def
      by (auto simp: leah_publish_def Let_def nth_list_update future_done_def same_last_def) blast+
  qed (use d in \<open>simp_all add: future_done_def\<close>)
qed

lemma count_frame [simp]:
  "lc_executed (count_busy k) = lc_executed k" "lc_errors (count_busy k) = lc_errors k"
  "lc_executed (count_decision w d k) = lc_executed k" "lc_errors (count_decision w d k) = lc_errors k"
  by (auto simp: count_busy_def count_decision_def Let_def split: decision.split)

lemma accounts_caller:
  assumes ok: "accounts_inv s" and "flights_inv s"
  shows "accounts_inv (snd (caller_next cfg acc gu t (lh_pcs s t) s))"
proof (cases "lh_pcs s t")
  case (Submitting c r)
  then show ?thesis using ok accounts_append [OF ok] by (simp add: caller_next_def submit_step_def)
next
  case (Registering c r f)
  have "accounts_inv (set_future f ((lh_futures s ! f)\<lparr>ft_deadline_at := Some (cl_deadline_at c), ft_callback := True\<rparr>) s)"
    by (rule accounts_future [OF ok]) (simp add: kept_future_def)
  from accounts_frame [OF this] Registering show ?thesis
    by (auto simp: caller_next_def register_step_def)
next
  case (Counting c f)
  let ?u = "(lh_futures s ! f)\<lparr>ft_state := Cancelled, ft_done_at := lh_now s\<rparr>"
  let ?h = "\<lambda>k. k\<lparr>lc_timeouts := lc_timeouts k + 1\<rparr>"
  have counted: "accounts_inv (count ?h s)" by (rule accounts_frame [OF ok]) simp_all
  have "accounts_inv (set_future f ?u (count ?h s))" if "ft_state (lh_futures s ! f) = Pending"
  proof -
    have "f < length (lh_futures s)"
      using flights_okD(5) [OF assms(2) [unfolded flights_inv_def], of t c f] Counting by (simp add: flight_of_def)
    then have "\<not> ft_published (lh_futures s ! f)" using accounts_invD(3) [OF ok, of f] that by (auto simp: future_done_def)
    then show ?thesis by (intro accounts_future [OF counted]) (simp add: kept_future_def)
  qed
  then show ?thesis using Counting counted by (simp add: caller_next_def count_step_def Let_def)
next
  case (Cancelling c f)
  show ?thesis using Cancelling accounts_frame [OF accounts_publish [OF ok, of cfg f "lh_now s"]]
    by (simp add: caller_next_def cancel_step_def Let_def)
next
  case (Settled c f)
  then show ?thesis using accounts_publish [OF ok] by (simp add: caller_next_def settled_step_def Let_def)
qed (auto simp: caller_next_def acquire_def acquire_blocked_def take_lock_def release_lock_def check_inflight_def decide_step_def
      start_step_def timeout_step_def Let_def ok accounts_publish [OF ok] intro!: accounts_frame [OF ok]
      split: option.split decision.split)

lemma accounts_inv_apply:
  assumes ok: "accounts_inv s" and "flights_inv s"
  shows "accounts_inv (leah_apply cfg e s)"
proof (cases e)
  case (Enter t i fp)
  then show ?thesis by (auto simp: enter_run_def intro!: accounts_frame [OF ok] split: leah_pc.split)
next
  case (Caller t acc gu)
  show ?thesis using accounts_frame [OF accounts_caller [OF assms, of cfg acc gu t]] Caller
    by (auto simp: caller_step_def split: prod.split)
next
  case (Run f)
  have "kept_future (lh_futures s ! f) ((lh_futures s ! f)\<lparr>ft_state := Running\<rparr>)"
    if "f < length (lh_futures s)" "ft_state (lh_futures s ! f) = Pending"
    using accounts_invD(3) [OF ok that(1)] that(2) by (auto simp: kept_future_def future_done_def)
  then show ?thesis using Run ok by (auto simp: run_future_def intro!: accounts_future)
next
  case (Finish f r)
  have "kept_future (lh_futures s ! f) ((lh_futures s ! f)\<lparr>ft_state := Finished r, ft_done_at := lh_now s\<rparr>)"
    if "f < length (lh_futures s)" "ft_state (lh_futures s ! f) = Running"
    using accounts_invD(3) [OF ok that(1)] that(2) by (auto simp: kept_future_def future_done_def)
  then show ?thesis using Finish ok by (auto simp: finish_future_def intro!: accounts_future)
qed (auto simp: callback_def ok accounts_publish intro!: accounts_frame [OF ok])

definition leah_inv :: "'v leah \<Rightarrow> bool" where
  "leah_inv s \<longleftrightarrow> flights_inv s \<and> cancels_inv s \<and> accounts_inv s"

lemma leah_inv_run: "leah_inv (run_ops (leah_apply cfg) es (leah_start now))"
proof (rule run_ops_invariant [of leah_inv])
  show "leah_inv (leah_apply cfg e s)" if "leah_inv s" for e and s :: "'a leah"
    using that flights_inv_apply cancels_inv_apply accounts_inv_apply unfolding leah_inv_def by blast
  show "leah_inv (leah_start now)"
    by (simp add: leah_inv_def flights_inv_def flights_ok_def cancels_inv_def accounts_inv_def leah_start_def
        no_counts_def state_of_def new_identity_def infl_map_def)
qed

section \<open>Progress of a caller\<close>

fun rank :: "'v leah_pc \<Rightarrow> nat" where
  "rank Outside = 0"
| "rank (Answered a) = 0"
| "rank (Releasing c a) = 1"
| "rank (Publishing c f v) = 2"
| "rank (Failing c f e) = 2"
| "rank (Cancelling c f) = 2"
| "rank (Counting c f) = 3"
| "rank (Settled c f) = 4"
| "rank (Timed_out c f) = 5"
| "rank (Awaiting c f u) = 6"
| "rank (Registering c r f) = 7"
| "rank (Submitting c r) = 8"
| "rank (Starting c) = 9"
| "rank (Checked c w n) = 10"
| "rank (Locked c w n) = 11"
| "rank (Blocked c u) = 12"
| "rank (Trying c) = 13"

text \<open>Waiting for the identity's lock or for the flight, before the wait's own limit.\<close>

fun waits :: "'v leah \<Rightarrow> 'v leah_pc \<Rightarrow> bool" where
  "waits s (Blocked c u) = (is_lock (state_of s (cl_identity c)) \<noteq> None \<and> \<not> fle u (lh_now s))"
| "waits s (Awaiting c f u) = (\<not> future_done (lh_futures s ! f) \<and> \<not> fle u (lh_now s))"
| "waits s pc = False"

lemma rank_caller:
  "0 < rank pc \<Longrightarrow> rank (fst (caller_next cfg acc gu t pc s)) < rank pc
     \<or> waits s pc \<and> caller_next cfg acc gu t pc s = (pc, s)"
  by (cases pc) (auto simp: caller_next_def acquire_def acquire_blocked_def check_inflight_def decide_step_def start_step_def
      submit_step_def register_step_def await_step_def timeout_step_def settled_step_def count_step_def cancel_step_def Let_def
      future_done_def split: option.split decision.split future_state.split work_outcome.split work_error.split)

lemma other_events: "(\<forall>acc gu. e \<noteq> Caller t acc gu) \<Longrightarrow> lh_pcs s t \<noteq> Outside \<Longrightarrow> lh_pcs (leah_apply cfg e s) t = lh_pcs s t"
  by (cases e) (auto simp: enter_run_def caller_step_def run_future_def finish_future_def callback_def
      split: leah_pc.split prod.split)

section \<open>Properties\<close>

definition leah_run :: "leah_config \<Rightarrow> pyfloat \<Rightarrow> 'v leah_event list \<Rightarrow> 'v leah" where
  "leah_run cfg now es = run_ops (leah_apply cfg) es (leah_start now)"

lemma leah_inv_leah_run: "leah_inv (leah_run cfg now es)"
  by (simp add: leah_run_def leah_inv_run)

text \<open>C5: In every interleaving of callers, pool threads and callbacks at most one flight of an
  identity has not settled: while one has not, every other flight of the identity is done, so a retry
  never piles up a second execution behind a running one.\<close>

theorem one_flight_per_identity:
  assumes "s = leah_run cfg now es" and "f < length (lh_futures s)" and "g < length (lh_futures s)"
    and "ft_identity (lh_futures s ! f) = ft_identity (lh_futures s ! g)"
    and "\<not> future_done (lh_futures s ! f)" and "f \<noteq> g"
  shows "future_done (lh_futures s ! g)"
proof (rule ccontr)
  assume nd: "\<not> future_done (lh_futures s ! g)"
  have "flights_inv s" using leah_inv_leah_run [of cfg now es] assms(1) by (simp add: leah_inv_def)
  then show False using flights_unique [of "lh_pcs s" "lock_map s" "infl_map s" "lh_futures s" f g] assms nd
    by (simp add: flights_inv_def)
qed

text \<open>In every interleaving the counter \<open>executed\<close> is the number of published flights that
  returned, and \<open>errors\<close> the number of published flights that raised: no flight is counted twice,
  whether its caller or its callback publishes it first.\<close>

theorem flights_accounted_once:
  "let s = leah_run cfg now es in
     lc_executed (lh_counters s) = length (filter (\<lambda>u. ft_published u \<and> settled_ok u) (lh_futures s))
     \<and> lc_errors (lh_counters s)
         = length (filter (\<lambda>u. ft_published u \<and> (\<exists>e. ft_state u = Finished (Raised e))) (lh_futures s))"
  using leah_inv_leah_run [of cfg now es] accounts_invD(1,2) [of "leah_run cfg now es"]
  unfolding leah_inv_def counted_ok_def [abs_def] counted_error_def [abs_def] Let_def by blast

text \<open>A caller whose decision is to reuse a result gets the result of a published flight of its own
  identity with the very fingerprint of its payload, completed no longer than the window ago.\<close>

theorem reuse_is_recent_and_same:
  assumes "s = leah_run cfg now es" and "lh_pcs s t = Checked c w n"
    and "lh_pcs (leah_apply cfg (Caller t acc gu) s) t = Releasing c (Deduplicated r)"
  shows "\<exists>f v d. f < length (lh_futures s) \<and> ft_identity (lh_futures s ! f) = cl_identity c
    \<and> ft_fingerprint (lh_futures s ! f) = cl_fingerprint c \<and> ft_state (lh_futures s ! f) = Finished (Ok v) \<and> r = Some v
    \<and> ft_completed_at (lh_futures s ! f) = Some d \<and> fle (fsub n d) (lg_dedupe_window cfg)"
proof -
  let ?x = "state_of s (cl_identity c)"
  have reuse: "sync_decide cfg n (cl_fingerprint c) ?x = Reuse r"
    using assms(2,3) by (auto simp: caller_step_def caller_next_def decide_step_def Let_def split: decision.splits)
  then have "same_recent cfg n (cl_fingerprint c) ?x" and r: "r = is_last_result ?x"
    by (auto simp: sync_decide_def split: if_splits)
  then obtain d where d: "is_last_completed_at ?x = Some d" "fle (fsub n d) (lg_dedupe_window cfg)"
    and fp: "is_last_fingerprint ?x = Some (cl_fingerprint c)" by (auto simp: same_recent_def split: option.splits)
  have "accounts_inv s" using leah_inv_leah_run [of cfg now es] assms(1) by (simp add: leah_inv_def)
  from accounts_invD(4) [OF this d(1)] obtain f where "result_of (lh_futures s) (cl_identity c) ?x d f" by blast
  then show ?thesis using d fp r unfolding result_of_def by auto
qed

text \<open>C28: Every step of a caller moves it strictly towards its answer, in at most 13 moves, unless it
  waits for the identity's lock or for its flight and the limit of that wait has not passed, when the
  step changes nothing; and no other event moves it.\<close>

theorem caller_progress:
  assumes "0 < rank (lh_pcs s t)"
  shows "rank (lh_pcs (leah_apply cfg e s) t) < rank (lh_pcs s t)
    \<or> lh_pcs (leah_apply cfg e s) t = lh_pcs s t \<and> ((\<exists>acc gu. e = Caller t acc gu) \<longrightarrow> waits s (lh_pcs s t))"
proof (cases "\<exists>acc gu. e = Caller t acc gu")
  case True
  then obtain acc gu where e: "e = Caller t acc gu" by blast
  show ?thesis using rank_caller [OF assms, of cfg acc gu t s] by (auto simp: e caller_step_def split: prod.split)
next
  case False
  have "lh_pcs s t \<noteq> Outside" using assms by auto
  with False other_events [of e t s cfg] show ?thesis by auto
qed

section \<open>Concrete runs\<close>

definition go :: "nat \<Rightarrow> nat \<Rightarrow> string leah_event list" where
  "go n t = replicate n (Caller t True False)"

text \<open>A first payload whose caller times out while the work runs; the work then ends, and a second,
  changed payload is submitted before the first flight's callback has published.\<close>

definition overlapping :: "string leah_event list" where
  "overlapping = Enter 0 ''d'' ''a'' # go 6 0 @ [Run 0, Tick (Fin 11)] @ go 4 0 @ [Finish 0 (Ok ''ra''), Enter 1 ''d'' ''b''] @ go 6 1"

lemma overlapping_run:
  "length (lh_futures (leah_run default_config (Fin 0) overlapping)) = 2
   \<and> ft_identity (lh_futures (leah_run default_config (Fin 0) overlapping) ! 1) = ''d''
   \<and> ft_identity (lh_futures (leah_run default_config (Fin 0) overlapping) ! 0) = ''d''
   \<and> \<not> future_done (lh_futures (leah_run default_config (Fin 0) overlapping) ! 1)
   \<and> lh_pcs (leah_run default_config (Fin 0) overlapping) 0 = Answered (Timeout 30)"
  by code_simp

theorem one_flight_per_identity_witness:
  "future_done (lh_futures (leah_run default_config (Fin 0) overlapping) ! 0)"
  by (rule one_flight_per_identity [OF refl, of 1]) (simp_all add: overlapping_run [simplified])

text \<open>The overlapping flight returns and is delivered, then the callback of the first one publishes, and
  the first payload is sent again.\<close>

definition overtaken :: "string leah_event list" where
  "overtaken = overlapping @ [Run 1, Finish 1 (Ok ''rb'')] @ go 3 1 @ [Callback 0 (Fin 11), Enter 2 ''d'' ''a''] @ go 2 2"

lemma overtaken_run:
  "lh_pcs (leah_run default_config (Fin 0) overtaken) 2
     = Checked \<lparr>cl_identity = ''d'', cl_fingerprint = ''a'', cl_deadline_at = Fin 21\<rparr> False (Fin 11)
   \<and> lh_pcs (leah_apply default_config (Caller 2 True False) (leah_run default_config (Fin 0) overtaken)) 2
     = Releasing \<lparr>cl_identity = ''d'', cl_fingerprint = ''a'', cl_deadline_at = Fin 21\<rparr> (Deduplicated (Some ''ra''))"
  by code_simp

theorem reuse_is_recent_and_same_witness:
  "\<exists>f v d. f < length (lh_futures (leah_run default_config (Fin 0) overtaken))
    \<and> ft_identity (lh_futures (leah_run default_config (Fin 0) overtaken) ! f) = ''d''
    \<and> ft_fingerprint (lh_futures (leah_run default_config (Fin 0) overtaken) ! f) = ''a''
    \<and> ft_state (lh_futures (leah_run default_config (Fin 0) overtaken) ! f) = Finished (Ok v) \<and> Some ''ra'' = Some v
    \<and> ft_completed_at (lh_futures (leah_run default_config (Fin 0) overtaken) ! f) = Some d \<and> fle (fsub (Fin 11) d) (Fin 30)"
  using reuse_is_recent_and_same [OF refl overtaken_run [THEN conjunct1] overtaken_run [THEN conjunct2]]
  by (simp add: default_config_def)

theorem caller_progress_witness:
  "rank (lh_pcs (leah_apply default_config (Caller 2 True False) (leah_run default_config (Fin 0) overtaken)) 2) < 10"
  using caller_progress [of "leah_run default_config (Fin 0) overtaken" 2 default_config "Caller 2 True False"]
  by (auto simp: overtaken_run simp del: leah_apply.simps)


text \<open>
  A work that raises \<open>TimeoutError\<close> (a database timeout, say) well before the deadline is answered as
  the guard's own deadline (504), and counted as an error and as a timeout.
\<close>

theorem work_timeout_reads_as_deadline:
  "let s = leah_run default_config (Fin 0)
       ([Enter 0 ''d'' ''a''] @ go 6 0 @ [Run 0, Finish 0 (Raised Work_Timeout)] @ go 4 0 @ [Callback 0 (Fin 0)]) in
   lh_pcs s 0 = Answered (Timeout 30) \<and> lh_now s = Fin 0
   \<and> lc_timeouts (lh_counters s) = 1 \<and> lc_errors (lh_counters s) = 1"
  by code_simp

end
