(* ===== verification/Indicators.thy ===== *)
theory Indicators
  imports PyVal
begin

text \<open>
  \<open>c3po/backend/app/r2d2_strategy.py\<close>, first part: the constants, the exit arithmetic, the
  exponential average and \<open>compute_technical_snapshot\<close>.  Floats are binary64 (\<open>PyFloat\<close>), the
  returned indicator dictionary is a map from keys to dynamic values (\<open>PyVal\<close>).  A bar is a record
  of the candle's dictionary; its volume is a float, as the loaders build it.
\<close>

section \<open>Constants\<close>

definition RISK_BUDGET_PERCENT :: pyfloat where "RISK_BUDGET_PERCENT = flit 2 100"
definition MIN_HOLD_MINUTES :: pyfloat where "MIN_HOLD_MINUTES = fint 5"
definition PROFIT_TRIGGER_PERCENT :: pyfloat where "PROFIT_TRIGGER_PERCENT = flit 65 100"
definition PROFIT_LOCK_FLOOR_PERCENT :: pyfloat where "PROFIT_LOCK_FLOOR_PERCENT = flit 35 100"
definition PROFIT_PULLBACK_PERCENT :: pyfloat where "PROFIT_PULLBACK_PERCENT = flit 35 100"
definition WEEKLY_PROFIT_HARVEST_FRACTION :: pyfloat where "WEEKLY_PROFIT_HARVEST_FRACTION = flit 70 100"
definition WEEKLY_CONVICTION_MIN_SCORE :: pyfloat where "WEEKLY_CONVICTION_MIN_SCORE = fint 72"
definition MIN_POSITION_PERCENT :: pyfloat where "MIN_POSITION_PERCENT = fint 2"
definition MAX_DYNAMIC_POSITION_PERCENT :: pyfloat where "MAX_DYNAMIC_POSITION_PERCENT = fint 6"
definition SIMULATED_ROUND_TRIP_COST_PERCENT :: pyfloat where "SIMULATED_ROUND_TRIP_COST_PERCENT = flit 28 100"
definition US_EXIT_SLIPPAGE_RATE :: pyfloat where "US_EXIT_SLIPPAGE_RATE = flit 10 10000"
definition US_EXIT_FEE_RATE :: pyfloat where "US_EXIT_FEE_RATE = flit 4 10000"
definition MIN_INTRADAY_EDGE_PERCENT :: pyfloat where "MIN_INTRADAY_EDGE_PERCENT = flit 55 100"
definition ENTRY_RELATIVE_VOLUME_MIN :: pyfloat where "ENTRY_RELATIVE_VOLUME_MIN = flit 15 10"
definition FAILED_ENTRY_MINUTES :: pyfloat where "FAILED_ENTRY_MINUTES = fint 3"
definition FAILED_ENTRY_LOSS_PERCENT :: pyfloat where "FAILED_ENTRY_LOSS_PERCENT = flit 30 100"
definition GAIN_PROTECTION_MIN_PERCENT :: pyfloat where "GAIN_PROTECTION_MIN_PERCENT = flit 30 100"
definition END_OF_DAY_PROFIT_EXIT_LEAD_SECONDS :: pyfloat where "END_OF_DAY_PROFIT_EXIT_LEAD_SECONDS = fint 30"
definition DEFAULT_MAX_POSITION_LOSS_PERCENT :: pyfloat where "DEFAULT_MAX_POSITION_LOSS_PERCENT = flit 65 100"
definition DEFAULT_SOFT_LOSS_EXIT_PERCENT :: pyfloat where "DEFAULT_SOFT_LOSS_EXIT_PERCENT = flit 25 100"
definition DEFAULT_MAX_POSITION_PERCENT :: pyfloat where "DEFAULT_MAX_POSITION_PERCENT = fint 5"

record entry_policy =
  entry_upside_floor :: pyfloat
  max_risk_score :: pyfloat
  min_confidence :: pyfloat
  max_buy_in_distance :: pyfloat
  min_technical_score :: pyfloat
  min_composite_score :: pyfloat

definition BASE_ENTRY_POLICY :: entry_policy where
  "BASE_ENTRY_POLICY = \<lparr>entry_upside_floor = fint 20, max_risk_score = fint 48, min_confidence = fint 60,
     max_buy_in_distance = fint 15, min_technical_score = fint 58, min_composite_score = fint 62\<rparr>"

definition ACTIVE_MARKETS :: "string list" where
  "ACTIVE_MARKETS = [''NASDAQ'', ''NYSE'']"

section \<open>Exit arithmetic\<close>

definition estimated_net_exit_pnl_percent ::
    "pyfloat \<Rightarrow> pyfloat \<Rightarrow> pyfloat \<Rightarrow> pyfloat \<Rightarrow> pyfloat" where
  "estimated_net_exit_pnl_percent quote_price average_cost slippage_rate fee_rate =
     (if fle quote_price (fint 0) \<or> fle average_cost (fint 0) then fint 0
      else
        let expected_fill = fmul quote_price (fsub (fint 1) (py_max (fint 0) slippage_rate));
            net_proceeds = fmul expected_fill (fsub (fint 1) (py_max (fint 0) fee_rate))
        in fmul (fsub (fdiv net_proceeds average_cost) (fint 1)) (fint 100))"

definition hard_stop_quote_price :: "pyfloat \<Rightarrow> pyfloat \<Rightarrow> pyfloat \<Rightarrow> pyfloat \<Rightarrow> pyfloat" where
  "hard_stop_quote_price average_cost max_net_loss_percent slippage_rate fee_rate =
     (let net_exit_factor = fmul (fsub (fint 1) (py_max (fint 0) slippage_rate))
                                 (fsub (fint 1) (py_max (fint 0) fee_rate))
      in if fle average_cost (fint 0) \<or> fle net_exit_factor (fint 0) then fint 0
         else fdiv (fmul average_cost (fsub (fint 1) (fdiv max_net_loss_percent (fint 100)))) net_exit_factor)"

definition entry_stop_quote_price :: "pyfloat \<Rightarrow> pyfloat \<Rightarrow> pyfloat \<Rightarrow> pyfloat" where
  "entry_stop_quote_price quote_price atr max_position_loss_percent =
     (if fle quote_price (fint 0) then fint 0
      else
        let stop_distance = py_min
              (fdiv (fmul quote_price (py_max (fint 0) max_position_loss_percent)) (fint 100))
              (py_max (fmul (py_max (fint 0) atr) (flit 45 100)) (fmul quote_price (flit 4 1000)))
        in fsub quote_price stop_distance)"

definition float_or :: "pyval \<Rightarrow> pyfloat \<Rightarrow> pyfloat" where
  "float_or value dflt = (case py_float value of None \<Rightarrow> dflt | Some x \<Rightarrow> x)"

abbreviation float0 :: "pyval \<Rightarrow> pyfloat" where
  "float0 value \<equiv> float_or value (fint 0)"

section \<open>Indicators\<close>

definition ema :: "pyfloat list \<Rightarrow> int \<Rightarrow> pyfloat" where
  "ema values period = (case values of
     [] \<Rightarrow> fint 0
   | v # vs \<Rightarrow>
       let multiplier = fdiv (fint 2) (fint (period + 1))
       in foldl (\<lambda>result value. fadd (fmul (fsub value result) multiplier) result) v vs)"

record bar =
  bar_open :: pyfloat
  bar_high :: pyfloat
  bar_low :: pyfloat
  bar_close :: pyfloat
  bar_volume :: pyfloat
  bar_date :: int

text \<open>Python slices \<open>xs[-k:]\<close>, \<open>xs[-a:-b]\<close> (with \<open>b > 0\<close>) and the index \<open>xs[-k]\<close> of a list long enough.\<close>

definition tail_of :: "nat \<Rightarrow> 'a list \<Rightarrow> 'a list" where
  "tail_of k xs = drop (length xs - k) xs"

definition slice_of :: "nat \<Rightarrow> nat \<Rightarrow> 'a list \<Rightarrow> 'a list" where
  "slice_of a b xs = drop (length xs - a) (take (length xs - b) xs)"

definition from_end :: "nat \<Rightarrow> 'a list \<Rightarrow> 'a" where
  "from_end k xs = xs ! (length xs - k)"

text \<open>\<open>statistics.median\<close> (of values without NaN, for which sorting is determined).\<close>

fun insert_float :: "pyfloat \<Rightarrow> pyfloat list \<Rightarrow> pyfloat list" where
  "insert_float x [] = [x]"
| "insert_float x (y # ys) = (if flt x y then x # y # ys else y # insert_float x ys)"

definition py_median :: "pyfloat list \<Rightarrow> pyfloat" where
  "py_median xs = (let data = foldl (\<lambda>acc x. insert_float x acc) [] xs; n = length data in
     if odd n then data ! (n div 2)
     else fdiv (fadd (data ! (n div 2 - 1)) (data ! (n div 2))) (fint 2))"

definition typical_price :: "bar \<Rightarrow> pyfloat" where
  "typical_price b = fdiv (fadd (fadd (bar_high b) (bar_low b)) (bar_close b)) (fint 3)"

definition macd_series_of :: "pyfloat list \<Rightarrow> pyfloat list" where
  "macd_series_of closes =
     map (\<lambda>index. fsub (ema (take index closes) 12) (ema (take index closes) 26)) [26..<Suc (length closes)]"

definition price_structure_of :: "bar list \<Rightarrow> pyfloat \<Rightarrow> string" where
  "price_structure_of bars momentum15 =
     (let close = bar_close (from_end 1 bars);
          prior_high = py_max_list (map bar_high (slice_of 21 1 bars));
          recent = tail_of 6 bars;
          previous_window = slice_of 12 6 bars;
          older_window = slice_of 21 6 bars;
          higher_high = flt (py_max_list (map bar_high previous_window)) (py_max_list (map bar_high recent));
          higher_low = flt (py_min_list (map bar_low previous_window)) (py_min_list (map bar_low recent));
          lower_high = flt (py_max_list (map bar_high recent)) (py_max_list (map bar_high previous_window));
          lower_low = flt (py_min_list (map bar_low recent)) (py_min_list (map bar_low previous_window));
          failed_breakout =
            flt (py_max_list (map bar_high older_window)) (py_max_list (map bar_high recent))
            \<and> flt close (py_max_list (map bar_high older_window))
            \<and> flt momentum15 (fint 0)
      in if fle prior_high close then ''breakout''
         else if flt close (py_min_list (map bar_low previous_window)) then ''breakdown''
         else if failed_breakout then ''failed-breakout''
         else if lower_high \<and> lower_low then ''lower-lows''
         else if higher_high \<and> higher_low then ''higher-highs''
         else ''range'')"

definition obv_slope_of :: "bar list \<Rightarrow> pyfloat" where
  "obv_slope_of bars =
     (let closes = map bar_close bars; volumes = map bar_volume bars;
          obv = foldl (\<lambda>acc (prior, current, volume).
                  acc @ [fadd (last acc) (if flt prior current then volume
                                          else if flt current prior then fneg volume else fint 0)])
                [fint 0] (zip (slice_of 25 1 closes) (zip (tail_of 24 closes) (tail_of 24 volumes)));
          obv_scale = py_max (py_sum (tail_of 12 volumes)) (fint 1)
      in if 7 \<le> length obv
         then fmul (fdiv (fsub (from_end 1 obv) (from_end 7 obv)) obv_scale) (fint 100) else fint 0)"

definition mfi_of :: "bar list \<Rightarrow> pyfloat option" where
  "mfi_of bars =
     (let flow_bars = tail_of 15 bars;
          flow_typical = map typical_price flow_bars;
          (positive_flow, negative_flow) =
            foldl (\<lambda>(pos, neg) (prior, current, bar).
                let flow = fmul current (bar_volume bar)
                in if fle prior current then (fadd pos flow, neg) else (pos, fadd neg flow))
              (fint 0, fint 0) (zip (butlast flow_typical) (zip (tl flow_typical) (tl flow_bars)))
      in if feq negative_flow (fint 0) then Some (fint 100)
         else do {
           q \<leftarrow> py_div positive_flow negative_flow;
           r \<leftarrow> py_div (fint 100) (fadd (fint 1) q);
           Some (fsub (fint 100) r)
         })"

text \<open>The clamp \<open>max(0.0, min(100.0, x))\<close> every score goes through.\<close>

definition clamp100 :: "pyfloat \<Rightarrow> pyfloat" where
  "clamp100 x = py_max (fint 0) (py_min (fint 100) x)"

definition structure_score_of :: "string \<Rightarrow> pyfloat" where
  "structure_score_of s =
     (if s = ''breakout'' then fint 90 else if s = ''higher-highs'' then fint 75
      else if s = ''range'' then fint 50 else if s = ''failed-breakout'' then fint 28
      else if s = ''lower-lows'' then fint 24 else fint 12)"

definition trend_score_of :: "pyfloat \<Rightarrow> pyfloat \<Rightarrow> pyfloat \<Rightarrow> pyfloat \<Rightarrow> pyfloat \<Rightarrow> pyfloat \<Rightarrow> pyfloat \<Rightarrow> pyfloat" where
  "trend_score_of close vwap ema8 ema20 ema50 trend_efficiency momentum60 =
     (let t0 = fint 50;
          t1 = fadd t0 (if flt vwap close then fint 18 else fint (- 18));
          t2 = fadd t1 (if flt ema20 ema8 then fint 18 else fint (- 18));
          t3 = fadd t2 (if flt ema50 ema20 then fint 10 else fint (- 10));
          capped = py_min (fint 10) (fmul trend_efficiency (fint 20))
      in fadd t3 (if flt (fint 0) momentum60 then capped else fneg capped))"

definition momentum_score_of :: "pyfloat \<Rightarrow> pyfloat \<Rightarrow> pyfloat \<Rightarrow> pyfloat \<Rightarrow> pyfloat \<Rightarrow> pyfloat" where
  "momentum_score_of rsi macd_histogram macd_acceleration momentum15 momentum30 =
     (let m0 = fint 50;
          m1 = fadd m0 (if between (fint 50) rsi (fint 68) then fint 12
                        else if fle (fint 44) rsi \<and> flt rsi (fint 50) then fint 5
                        else if flt rsi (fint 38) \<or> flt (fint 78) rsi then fint (- 15) else fint (- 4));
          m2 = fadd m1 (if flt (fint 0) macd_histogram then fint 14 else fint (- 14));
          m3 = fadd m2 (if flt (fint 0) macd_acceleration then fint 10 else fint (- 10))
      in fadd m3 (if flt (fint 0) momentum15 \<and> flt (fint 0) momentum30 then fint 8 else fint (- 8)))"

definition flow_score_of :: "pyfloat \<Rightarrow> pyfloat \<Rightarrow> pyfloat \<Rightarrow> pyfloat \<Rightarrow> pyfloat" where
  "flow_score_of relative_volume momentum15 obv_slope mfi =
     (let f0 = fint 50;
          f1 = fadd f0 (if fle (flit 12 10) relative_volume \<and> flt (fint 0) momentum15 then fint 18
                        else if fle (flit 12 10) relative_volume \<and> flt momentum15 (fint 0) then fint (- 14)
                        else if fle (flit 8 10) relative_volume then fint 4 else fint (- 8));
          f2 = fadd f1 (py_max (fint (- 15)) (py_min (fint 15) (fmul obv_slope (fint 3))))
      in fadd f2 (if between (fint 52) mfi (fint 78) then fint 8
                  else if flt mfi (fint 35) \<or> flt (fint 88) mfi then fint (- 8) else fint 0))"

definition trend_state_of :: "pyfloat \<Rightarrow> string" where
  "trend_state_of trend_score =
     (if fle (fint 65) trend_score then ''bullish'' else if flt trend_score (fint 42) then ''bearish'' else ''neutral'')"

definition volume_state_of :: "pyfloat \<Rightarrow> string" where
  "volume_state_of flow_score =
     (if fle (fint 65) flow_score then ''accumulation'' else if flt flow_score (fint 40) then ''distribution'' else ''neutral'')"

datatype snapshot_error = TooFewCandles | SnapshotZeroDivision

text \<open>
  The part of \<open>compute_technical_snapshot\<close> after the length check; \<open>None\<close> is a
  \<open>ZeroDivisionError\<close>.  The result is the returned dictionary.
\<close>

definition snapshot_body :: "bar list \<Rightarrow> pydict option" where
  "snapshot_body bars =
     (let closes = map bar_close bars; volumes = map bar_volume bars; close = from_end 1 closes;
          ema8 = ema closes 8; ema12 = ema closes 12; ema20 = ema closes 20; ema26 = ema closes 26;
          ema50 = ema closes 50;
          macd_series = macd_series_of closes;
          macd = fsub ema12 ema26;
          macd_signal = ema macd_series 9;
          macd_histogram = fsub macd macd_signal;
          prior_macd_signal = (if 9 < length macd_series then ema (butlast macd_series) 9 else macd_signal);
          prior_macd = (if 1 < length macd_series then from_end 2 macd_series else macd);
          macd_acceleration = fsub macd_histogram (fsub prior_macd prior_macd_signal);
          deltas = map (\<lambda>(prior, current). fsub current prior) (zip (slice_of 15 1 closes) (tail_of 14 closes));
          gains = fdiv (py_sum (map (\<lambda>delta. py_max delta (fint 0)) deltas)) (fint 14);
          losses = fdiv (py_sum (map (\<lambda>delta. py_max (fneg delta) (fint 0)) deltas)) (fint 14);
          session_date = bar_date (from_end 1 bars);
          same_day = filter (\<lambda>b. bar_date b = session_date) bars;
          session_bars = (if same_day \<noteq> [] then same_day else tail_of 78 bars);
          typical = map typical_price session_bars;
          session_volumes = map bar_volume session_bars;
          volume_sum = py_sum session_volumes;
          vwap = (if volume_sum \<noteq> Fin 0
                  then fdiv (py_sum (map (\<lambda>(price, volume). fmul price volume) (zip typical session_volumes))) volume_sum
                  else py_mean (map bar_close session_bars));
          true_ranges = map (\<lambda>(previous, b). py_max (py_max (fsub (bar_high b) (bar_low b))
                                (fabs (fsub (bar_high b) (bar_close previous))))
                                (fabs (fsub (bar_low b) (bar_close previous))))
                            (zip (slice_of 15 1 bars) (tail_of 14 bars));
          atr = (if true_ranges \<noteq> [] then py_mean true_ranges else fmul close (flit 2 100));
          raw_median = py_median (slice_of 23 3 volumes);
          median_volume = (if raw_median \<noteq> Fin 0 then raw_median else fint 1);
          ema8_prior = ema (take (length closes - 3) closes) 8;
          ema20_prior = ema (take (length closes - 3) closes) 20;
          ema8_slope = (if ema8_prior \<noteq> Fin 0 then fmul (fsub (fdiv ema8 ema8_prior) (fint 1)) (fint 100) else fint 0);
          ema20_slope = (if ema20_prior \<noteq> Fin 0 then fmul (fsub (fdiv ema20 ema20_prior) (fint 1)) (fint 100) else fint 0);
          vwap_distance = (if vwap \<noteq> Fin 0 then fmul (fsub (fdiv close vwap) (fint 1)) (fint 100) else fint 0);
          recent_high = py_max_list (map bar_high (tail_of 13 bars));
          pressure_bars = tail_of 6 bars;
          pressure_volume = py_sum (map bar_volume pressure_bars);
          sell_volume_ratio = (if pressure_volume \<noteq> Fin 0
            then fdiv (py_sum (map bar_volume (filter (\<lambda>b. flt (bar_close b) (bar_open b)) pressure_bars))) pressure_volume
            else flit 5 10);
          path = py_sum (map (\<lambda>(prior, current). fabs (fsub current prior)) (zip (slice_of 13 1 closes) (tail_of 12 closes)));
          trend_efficiency = (if path \<noteq> Fin 0 then fdiv (fabs (fsub close (from_end 13 closes))) path else fint 0)
      in do {
        rsi \<leftarrow> (if feq losses (fint 0) then Some (fint 100)
               else do {
                 q \<leftarrow> py_div gains losses;
                 r \<leftarrow> py_div (fint 100) (fadd (fint 1) q);
                 Some (fsub (fint 100) r) });
        relative_volume \<leftarrow> py_div (py_mean (tail_of 3 volumes)) median_volume;
        q15 \<leftarrow> py_div close (from_end 4 closes);
        q30 \<leftarrow> py_div close (from_end 7 closes);
        q60 \<leftarrow> py_div close (from_end 13 closes);
        let momentum15 = fmul (fsub q15 (fint 1)) (fint 100);
        let momentum30 = fmul (fsub q30 (fint 1)) (fint 100);
        let momentum60 = fmul (fsub q60 (fint 1)) (fint 100);
        let obv_slope = obv_slope_of bars;
        mfi \<leftarrow> mfi_of bars;
        qatr \<leftarrow> py_div atr close;
        let atr_percent = fmul qatr (fint 100);
        qdd \<leftarrow> py_div (fsub recent_high close) (py_max atr (fmul close (flit 1 1000)));
        let drawdown_atr = py_max (fint 0) qdd;
        let trend_score = trend_score_of close vwap ema8 ema20 ema50 trend_efficiency momentum60;
        let momentum_score = momentum_score_of rsi macd_histogram macd_acceleration momentum15 momentum30;
        let flow_score = flow_score_of relative_volume momentum15 obv_slope mfi;
        let structure_score = structure_score_of (price_structure_of bars momentum15);
        let volatility_score = (if between (flit 25 100) atr_percent (flit 35 10) then fint 72
                                else if fle atr_percent (fint 5) then fint 48 else fint 20);
        let score = fadd (fadd (fadd (fadd (fmul (clamp100 trend_score) (flit 30 100))
                                            (fmul (clamp100 momentum_score) (flit 25 100)))
                                      (fmul (clamp100 flow_score) (flit 20 100)))
                                (fmul structure_score (flit 15 100)))
                          (fmul volatility_score (flit 10 100));
        Some (map_of [
          (''score'', VFloat (py_round 2 (clamp100 score))), (''vwap'', VFloat (py_round 6 vwap)),
          (''ema8'', VFloat (py_round 6 ema8)), (''ema20'', VFloat (py_round 6 ema20)),
          (''ema50'', VFloat (py_round 6 ema50)), (''rsi14'', VFloat (py_round 3 rsi)),
          (''macd'', VFloat (py_round 6 macd)), (''macd_signal'', VFloat (py_round 6 macd_signal)),
          (''macd_histogram'', VFloat (py_round 6 macd_histogram)),
          (''macd_acceleration'', VFloat (py_round 6 macd_acceleration)),
          (''momentum15'', VFloat (py_round 3 momentum15)), (''momentum30'', VFloat (py_round 3 momentum30)),
          (''momentum60'', VFloat (py_round 3 momentum60)),
          (''ema8_slope15'', VFloat (py_round 4 ema8_slope)), (''ema20_slope15'', VFloat (py_round 4 ema20_slope)),
          (''vwap_distance_percent'', VFloat (py_round 4 vwap_distance)),
          (''relative_volume'', VFloat (py_round 3 relative_volume)), (''atr'', VFloat (py_round 6 atr)),
          (''atr_percent'', VFloat (py_round 3 atr_percent)), (''obv_slope'', VFloat (py_round 3 obv_slope)),
          (''sell_volume_ratio'', VFloat (py_round 4 sell_volume_ratio)),
          (''drawdown_atr'', VFloat (py_round 3 drawdown_atr)), (''mfi14'', VFloat (py_round 3 mfi)),
          (''trend_efficiency'', VFloat (py_round 3 trend_efficiency)),
          (''price_structure'', VStr (price_structure_of bars momentum15)),
          (''trend_state'', VStr (trend_state_of trend_score)),
          (''volume_state'', VStr (volume_state_of flow_score)), (''data_status'', VStr ''live''),
          (''trend_score'', VFloat (py_round 2 (clamp100 trend_score))),
          (''momentum_score'', VFloat (py_round 2 (clamp100 momentum_score))),
          (''flow_score'', VFloat (py_round 2 (clamp100 flow_score)))])
      })"

definition compute_technical_snapshot :: "bar list \<Rightarrow> snapshot_error + pydict" where
  "compute_technical_snapshot bars =
     (if length bars < 35 then Inl TooFewCandles
      else case snapshot_body bars of None \<Rightarrow> Inl SnapshotZeroDivision | Some d \<Rightarrow> Inr d)"

section \<open>Properties\<close>

text \<open>The clamp every score goes through, and its rounding, are finite and in range for every input.\<close>

lemma hundred [pyf]: "fint 100 = Fin 100"
  using fint_eq [of 100] by simp

lemma clamp100_range: "\<exists>r. clamp100 x = Fin r \<and> 0 \<le> r \<and> r \<le> 100"
  unfolding clamp100_def hundred fint_0 by (rule clamp_range) simp

lemma rounded_clamp_range: "\<exists>r. py_round k (clamp100 x) = Fin r \<and> 0 \<le> r \<and> r \<le> 100"
proof -
  obtain q where "clamp100 x = Fin q" "0 \<le> q" "q \<le> 100" using clamp100_range by blast
  then show ?thesis using py_round_between_int [of 0 q 100 k] by simp
qed

definition in_percent :: "pyval option \<Rightarrow> bool" where
  "in_percent v \<longleftrightarrow> (case v of Some (VFloat (Fin r)) \<Rightarrow> 0 \<le> r \<and> r \<le> 100 | _ \<Rightarrow> False)"

lemma in_percent_clamp [simp]: "in_percent (Some (VFloat (py_round k (clamp100 x))))"
  using rounded_clamp_range [of k x] by (auto simp: in_percent_def)

text \<open>The keys of the snapshot that the later decisions read, with the words each may hold.\<close>

definition snapshot_floats :: "string list" where
  "snapshot_floats = [''vwap'', ''ema8'', ''ema20'', ''ema50'', ''rsi14'', ''macd_histogram'', ''macd_acceleration'',
     ''momentum15'', ''momentum30'', ''momentum60'', ''ema8_slope15'', ''ema20_slope15'', ''relative_volume'',
     ''atr'', ''atr_percent'', ''obv_slope'', ''sell_volume_ratio'', ''drawdown_atr'']"

definition word_in :: "pyval option \<Rightarrow> string list \<Rightarrow> bool" where
  "word_in v ws \<longleftrightarrow> (case v of Some (VStr w) \<Rightarrow> w \<in> set ws | _ \<Rightarrow> False)"

definition float_at :: "pydict \<Rightarrow> string \<Rightarrow> bool" where
  "float_at d k \<longleftrightarrow> (case d k of Some (VFloat _) \<Rightarrow> True | _ \<Rightarrow> False)"

definition valid_snapshot :: "pydict \<Rightarrow> bool" where
  "valid_snapshot d \<longleftrightarrow>
     list_all (\<lambda>k. in_percent (d k)) [''score'', ''trend_score'', ''momentum_score'', ''flow_score'']
     \<and> list_all (float_at d) snapshot_floats
     \<and> word_in (d ''price_structure'') [''breakout'', ''breakdown'', ''failed-breakout'', ''lower-lows'', ''higher-highs'', ''range'']
     \<and> word_in (d ''trend_state'') [''bullish'', ''bearish'', ''neutral'']
     \<and> word_in (d ''volume_state'') [''accumulation'', ''distribution'', ''neutral'']
     \<and> d ''data_status'' = Some (VStr ''live'')"

lemma snapshot_words:
  "word_in (Some (VStr (price_structure_of bars m)))
     [''breakout'', ''breakdown'', ''failed-breakout'', ''lower-lows'', ''higher-highs'', ''range'']"
  "word_in (Some (VStr (trend_state_of x))) [''bullish'', ''bearish'', ''neutral'']"
  "word_in (Some (VStr (volume_state_of x))) [''accumulation'', ''distribution'', ''neutral'']"
  by (simp_all add: word_in_def price_structure_of_def trend_state_of_def volume_state_of_def Let_def)

lemma Some_valid: "Some e = Some d \<Longrightarrow> valid_snapshot e \<Longrightarrow> valid_snapshot d"
  by simp

lemma snapshot_body_valid: "snapshot_body bars = Some d \<Longrightarrow> valid_snapshot d"
  unfolding snapshot_body_def
  by (elim steps) (erule Some_valid, simp add: valid_snapshot_def snapshot_floats_def float_at_def snapshot_words)

text \<open>
  C30: \<open>compute_technical_snapshot\<close> refuses exactly the series shorter than 35 candles as too short;
  every dictionary it returns carries the four scores as finite numbers between 0 and 100 whatever
  the candles hold (NaN and infinities included), the float fields the later decisions read, and
  the three state words from their fixed vocabularies.
\<close>

theorem snapshot_sound:
  "case compute_technical_snapshot bars of
     Inl e \<Rightarrow> e = TooFewCandles \<longleftrightarrow> length bars < 35
   | Inr d \<Rightarrow> 35 \<le> length bars \<and> valid_snapshot d"
  by (auto simp: compute_technical_snapshot_def dest: snapshot_body_valid split: option.split)

text \<open>
  the stop put under a new position is finite, at most the quote, never below zero, and never
  looser than the configured maximum loss, whatever the volatility reading (NaN and infinities
  included), for every positive quote up to \<open>2\<^sup>4\<^sup>0\<close> and every loss limit of at most one percent.
\<close>

theorem entry_stop_within_loss_limit:
  assumes "is_double q" and "0 < q" and "q \<le> 2 ^ 40" and "0 \<le> limit" and "limit \<le> 1"
  shows "\<exists>s. entry_stop_quote_price (Fin q) atr (Fin limit) = Fin s \<and> 0 \<le> s \<and> s \<le> q
    \<and> fle (fsub (Fin q) (fdiv (fmul (Fin q) (Fin limit)) (fint 100))) (Fin s)"
proof -
  define B where "B = py_max (fmul (py_max (fint 0) atr) (flit 45 100)) (fmul (Fin q) (flit 4 1000))"
  have "(2::rat) ^ 40 < 2 ^ 1024" by (rule power_strict_increasing) auto
  then have q: "q < 2 ^ 1024" by (rule order.strict_trans1 [OF assms(3)])
  have flq: "fl q = Fin q" using assms(1,2) q by (intro fl_double) (simp_all del: power_numeral)
  have qp: "0 \<le> q * limit" "q * limit \<le> q"
    using assms(2,4,5) by (simp_all add: mult_left_le)
  obtain a where a: "fl (q * limit) = Fin a" "0 \<le> a" "a \<le> q"
    using fl_upto [OF qp assms(1) q] by blast
  obtain d where d: "fl (a / 100) = Fin d" "0 \<le> d" "d \<le> q"
    using fl_upto [of "a / 100" q] a assms(1) q by auto
  have A: "fdiv (fmul (Fin q) (Fin limit)) (fint 100) = Fin d"
    using a(1) d(1) by (simp add: hundred)
  have lim: "py_max (fint 0) (Fin limit) = Fin limit" using assms(4) by (simp add: pyf)
  have "not_neg B" unfolding B_def using assms(2) by (intro signs) simp_all
  then obtain e where e: "py_min (Fin d) B = Fin e" "0 \<le> e" "e \<le> d"
    using py_min_upto [OF d(2)] by blast
  obtain s where s: "fl (q - e) = Fin s" "0 \<le> s" "s \<le> q"
    using fl_upto [of "q - e" q] e d assms(1) q by auto
  have "fle (fl (q - d)) (Fin s)" unfolding s(1) [symmetric] using e(3) by (intro fl_fle) simp
  moreover have "entry_stop_quote_price (Fin q) atr (Fin limit) = Fin s"
    unfolding entry_stop_quote_price_def Let_def lim A B_def [symmetric] e(1) using s(1) assms(2) by (simp add: fsub_def)
  ultimately show ?thesis unfolding A using s(2,3) by (simp add: fsub_def)
qed

lemma entry_stop_within_loss_limit_witness:
  "\<exists>s. entry_stop_quote_price (Fin 80) (Fin (5 / 4)) (Fin (5 / 8)) = Fin s \<and> 0 \<le> s \<and> s \<le> 80
    \<and> fle (fsub (Fin 80) (fdiv (fmul (Fin 80) (Fin (5 / 8))) (fint 100))) (Fin s)"
  using entry_stop_within_loss_limit [of 80 "5 / 8" "Fin (5 / 4)"] is_double_int [of 80] by simp

end
