(* ===== verification/Strategy.thy ===== *)
theory Strategy
  imports Indicators
begin

text \<open>
  \<open>c3po/backend/app/r2d2_strategy.py\<close>, second part: the technical defense, the weekly conviction,
  the entry decision and the position size.  The reason texts are represented by constructors, one
  per text of the source; the numbers they print are dropped.
\<close>

section \<open>Technical defense\<close>

datatype severity = SevExit | SevReduce | SevWatch | SevHealthy

record defense =
  def_score :: pyfloat
  def_severity :: severity
  def_critical :: bool
  def_actionable :: bool
  def_drivers :: "string list"
  def_relative_strength :: pyfloat

text \<open>\<open>str(technical.get(k) or default) == w\<close>.\<close>

definition tword :: "pydict \<Rightarrow> string \<Rightarrow> string \<Rightarrow> string \<Rightarrow> bool" where
  "tword t k dflt w = str_is (val_or (dget t k) (VStr dflt)) w"

text \<open>The calls of the local function \<open>add\<close>, in order: condition, weight and label.\<close>

definition defense_calls :: "pydict \<Rightarrow> pyfloat \<Rightarrow> pyfloat \<Rightarrow> (bool \<times> int \<times> string) list" where
  "defense_calls t price relative_strength =
     (let vwap = float_or (dget t ''vwap'') price;
          ema8 = float_or (dget t ''ema8'') price;
          ema20 = float_or (dget t ''ema20'') price;
          ema50 = float_or (dget t ''ema50'') price;
          momentum15 = float0 (dget t ''momentum15'');
          momentum30 = float0 (dget t ''momentum30'');
          momentum60 = float0 (dget t ''momentum60'');
          relative_volume = float_or (dget t ''relative_volume'') (fint 1);
          sell_volume_ratio = float_or (dget t ''sell_volume_ratio'') (flit 5 10);
          drawdown_atr = float0 (dget t ''drawdown_atr'');
          structure = tword t ''price_structure'' ''range''
      in [(flt price vwap, 6, ''price below VWAP''),
          (flt price ema8, 6, ''price below EMA8''),
          (flt ema8 ema20, 10, ''EMA8 below EMA20''),
          (flt ema20 ema50, 8, ''EMA20 below EMA50''),
          (flt (float0 (dget t ''ema8_slope15'')) (flit (- 5) 100), 6, ''EMA8 falling''),
          (flt (float0 (dget t ''ema20_slope15'')) (flit (- 3) 100), 6, ''EMA20 falling''),
          (tword t ''trend_state'' ''neutral'' ''bearish'', 8, ''bearish trend regime''),
          (structure ''breakdown'', 22, ''support breakdown''),
          (structure ''failed-breakout'', 16, ''failed breakout''),
          (structure ''lower-lows'', 14, ''lower highs and lower lows''),
          (flt (float0 (dget t ''macd_histogram'')) (fint 0)
             \<and> flt (float0 (dget t ''macd_acceleration'')) (fint 0), 8, ''MACD weakening''),
          (flt momentum15 (flit (- 15) 100), 4, ''15-minute momentum negative''),
          (flt momentum30 (flit (- 35) 100), 6, ''30-minute momentum negative''),
          (flt momentum60 (flit (- 60) 100), 6, ''60-minute momentum negative''),
          (flt (float_or (dget t ''rsi14'') (fint 50)) (fint 38), 4, ''RSI below 38''),
          (tword t ''volume_state'' ''neutral'' ''distribution'', 9, ''volume distribution''),
          (fle (flit 12 10) relative_volume \<and> flt momentum15 (fint 0), 8, ''selloff on elevated volume''),
          (flt (float0 (dget t ''obv_slope'')) (flit (- 5) 10), 4, ''OBV declining''),
          (fle (flit 62 100) sell_volume_ratio, 6, ''selling dominates recent volume''),
          (fle (flit 75 100) drawdown_atr, 4, ''pullback exceeds 0.75 ATR''),
          (fle (flit 125 100) drawdown_atr, 5, ''pullback exceeds 1.25 ATR''),
          (fle relative_strength (flit (- 50) 100), 4, ''underperforming held-market peers''),
          (fle relative_strength (fint (- 1)), 4, ''severe relative underperformance'')])"

definition defense_add :: "pyfloat \<times> string list \<Rightarrow> bool \<times> int \<times> string \<Rightarrow> pyfloat \<times> string list" where
  "defense_add acc call = (case (acc, call) of ((score, drivers), (condition, weight, label)) \<Rightarrow>
     if condition then (fadd score (fint weight), drivers @ [label]) else (score, drivers))"

definition technical_defense :: "pydict \<Rightarrow> pyfloat \<Rightarrow> pyfloat \<Rightarrow> pyfloat \<Rightarrow> defense" where
  "technical_defense t price day_change market_change =
     (let relative_strength = fsub day_change market_change;
          actionable = tword t ''data_status'' ''unavailable'' ''live'';
          (total, drivers) = foldl defense_add (fint 0, []) (defense_calls t price relative_strength);
          score = py_round 1 (py_min (fint 100) total);
          critical = actionable \<and>
            (fle (fint 82) score
             \<or> (tword t ''price_structure'' ''range'' ''breakdown''
                 \<and> (tword t ''volume_state'' ''neutral'' ''distribution''
                     \<or> fle (flit 62 100) (float_or (dget t ''sell_volume_ratio'') (flit 5 10)))
                 \<and> fle (flit 105 100) (float_or (dget t ''relative_volume'') (fint 1))));
          severity = (if critical \<or> fle (fint 72) score then SevExit
                      else if fle (fint 55) score then SevReduce
                      else if fle (fint 40) score then SevWatch else SevHealthy)
      in \<lparr>def_score = score, def_severity = severity, def_critical = critical, def_actionable = actionable,
          def_drivers = drivers, def_relative_strength = py_round 3 relative_strength\<rparr>)"

section \<open>Weekly conviction\<close>

record conviction =
  conv_active :: bool
  conv_score :: pyfloat
  conv_reasons :: "string list"

definition trend_reading :: "pydict \<Rightarrow> pyfloat" where
  "trend_reading t = float_or (dget t ''trend_score'')
     (if tword t ''trend_state'' ''neutral'' ''bullish'' then fint 82
      else if tword t ''trend_state'' ''neutral'' ''bearish'' then fint 30 else fint 50)"

definition flow_reading :: "pydict \<Rightarrow> pyfloat" where
  "flow_reading t = float_or (dget t ''flow_score'')
     (if tword t ''volume_state'' ''neutral'' ''accumulation'' then fint 78
      else if tword t ''volume_state'' ''neutral'' ''distribution'' then fint 30 else fint 50)"

definition momentum_reading :: "pydict \<Rightarrow> pyfloat" where
  "momentum_reading t =
     (let m0 = float_or (dget t ''momentum_score'') (fint 50);
          m1 = (if t ''momentum_score'' = None
                then fadd (fadd m0 (if flt (fint 0) (float0 (dget t ''momentum30'')) then fint 15 else fint (- 15)))
                          (if flt (fint 0) (float0 (dget t ''macd_histogram'')) then fint 10 else fint (- 10))
                else m0)
      in clamp100 m1)"

definition conviction_score :: "pyfloat \<Rightarrow> pyfloat \<Rightarrow> pyfloat \<Rightarrow> pydict \<Rightarrow> pyfloat" where
  "conviction_score fundamental confidence technical_score t =
     py_round 2
       (fadd (fadd (fadd (fadd (fadd (fmul fundamental (flit 25 100)) (fmul confidence (flit 15 100)))
                               (fmul technical_score (flit 25 100)))
                         (fmul (trend_reading t) (flit 15 100)))
                   (fmul (flow_reading t) (flit 10 100)))
             (fmul (momentum_reading t) (flit 10 100)))"

definition conviction_gates ::
    "pyfloat \<Rightarrow> pyfloat \<Rightarrow> pyfloat \<Rightarrow> pydict \<Rightarrow> pyfloat \<Rightarrow> pyfloat \<Rightarrow> pyfloat \<Rightarrow> int \<Rightarrow> (string \<times> bool) list" where
  "conviction_gates fundamental confidence technical_score t price high_water atr bearish_votes =
     (let drawdown = py_max (fint 0) (fsub high_water price);
          drawdown_limit = py_max (fmul atr (flit 175 100)) (fmul high_water (flit 175 10000));
          structure = tword t ''price_structure'' ''neutral''
      in [(''fresh market data'', tword t ''data_status'' ''unavailable'' ''live''),
          (''fundamental conviction'', fle (fint 68) fundamental \<and> fle (fint 60) confidence),
          (''bullish live trend'', fle (fint 65) technical_score \<and> tword t ''trend_state'' ''neutral'' ''bullish''),
          (''constructive price structure'', structure ''higher-highs'' \<or> structure ''breakout''),
          (''non-distributive flow'',
             \<not> tword t ''volume_state'' ''neutral'' ''distribution'' \<and> fle (fint 55) (flow_reading t)),
          (''positive momentum'', fle (fint 60) (momentum_reading t)),
          (''controlled pullback'', fle drawdown drawdown_limit),
          (''no confirmed reversal'', bearish_votes \<le> 1)])"

definition weekly_conviction ::
    "pydict \<Rightarrow> pydict \<Rightarrow> pyfloat \<Rightarrow> pyfloat \<Rightarrow> pyfloat \<Rightarrow> int \<Rightarrow> conviction" where
  "weekly_conviction strategy t price high_water atr bearish_votes =
     (let fundamental = clamp100 (float_or (dget strategy ''fundamental_score'') (fint 50));
          confidence = clamp100 (float_or (dget strategy ''confidence'') (fint 50));
          technical_score = clamp100 (float_or (dget t ''score'') (fint 50));
          score = conviction_score fundamental confidence technical_score t;
          gates = conviction_gates fundamental confidence technical_score t price high_water atr bearish_votes
      in \<lparr>conv_active = fle WEEKLY_CONVICTION_MIN_SCORE score \<and> list_all snd gates,
          conv_score = score, conv_reasons = map fst (filter snd gates)\<rparr>)"

section \<open>Entry decision\<close>

text \<open>
  The item dictionary: the keys the code indexes directly are the float fields (the caller always
  sets them), those it reads with \<open>get\<close> are dynamic values.
\<close>

record entry_item =
  it_technical_validated :: pyval
  it_market :: pyval
  it_quote_status :: pyval
  it_price :: pyval
  it_thesis :: pyval
  it_indicators :: pydict
  it_upside :: pyfloat
  it_risk_score :: pyfloat
  it_confidence :: pyfloat
  it_buy_in_distance :: pyfloat
  it_technical_score :: pyfloat
  it_composite_score :: pyfloat

datatype entry_verdict = BUY | REJECT

datatype entry_reason =
    Thesis pyval
  | TacticalRoutePassed
  | IntradayRoutePassed
  | QuoteNotLive
  | TechnicalUnavailable
  | UpsideBelowFloor
  | RiskAboveCeiling
  | ConfidenceBelowFloor
  | DistanceAboveBuyIn
  | TechnicalInsufficient
  | CompositeBelowFloor
  | NoRoutePassed

definition active_market :: "entry_item \<Rightarrow> bool" where
  "active_market item \<longleftrightarrow> (case it_market item of VStr m \<Rightarrow> m \<in> set ACTIVE_MARKETS | _ \<Rightarrow> False)"

definition quote_live :: "entry_item \<Rightarrow> bool" where
  "quote_live item \<longleftrightarrow> it_quote_status item = VStr ''live''"

definition tactical_structure :: "entry_item \<Rightarrow> bool" where
  "tactical_structure item \<longleftrightarrow>
     (let s = dget (it_indicators item) ''price_structure'' in
      str_is s ''higher-highs'' \<or> str_is s ''breakout'')
     \<or> (str_is (dget (it_indicators item) ''volume_state'') ''accumulation''
         \<and> fle (fint 78) (it_technical_score item))"

definition tactical_route :: "entry_item \<Rightarrow> bool" where
  "tactical_route item \<longleftrightarrow>
     (let ind = dget (it_indicators item); num = (\<lambda>k. float0 (ind k)); price = float0 (it_price item) in
      list_all id
       [truthy (it_technical_validated item),
        \<not> active_market item \<or> quote_live item,
        fle (fint 20) (it_upside item),
        fle (it_risk_score item) (fint 55),
        fle (fint 65) (it_confidence item),
        fle (it_buy_in_distance item) (fint 20),
        fle (fint 72) (it_technical_score item),
        fle (fint 72) (it_composite_score item),
        str_is (ind ''data_status'') ''live'',
        str_is (ind ''trend_state'') ''bullish'',
        \<not> str_is (ind ''volume_state'') ''distribution'',
        tactical_structure item,
        fle ENTRY_RELATIVE_VOLUME_MIN (float_or (ind ''relative_volume'') (fint 1)),
        fle (num ''vwap'') price \<and> flt (fint 0) (num ''vwap''),
        fle (num ''ema8'') price \<and> flt (fint 0) (num ''ema8''),
        flt (num ''ema20'') (num ''ema8'') \<and> flt (fint 0) (num ''ema20''),
        fle (flit 10 100) (num ''momentum15''),
        fle (flit 15 100) (num ''momentum30''),
        flt (fint 0) (num ''macd_histogram''),
        fle (fint 0) (num ''macd_acceleration''),
        between (fint 48) (num ''rsi14'') (fint 76),
        flt (fint 0) (num ''relative_strength'')])"

definition modeled_edge :: "entry_item \<Rightarrow> pyfloat" where
  "modeled_edge item =
     (let num = (\<lambda>k. float0 (dget (it_indicators item) k));
          relative_volume = float_or (dget (it_indicators item) ''relative_volume'') (fint 1)
      in py_round 3
        (fadd (fadd (fadd (fadd (fmul (py_max (num ''momentum15'') (fint 0)) (flit 45 100))
                                (fmul (py_max (num ''momentum30'') (fint 0)) (flit 25 100)))
                          (fmul (py_max (num ''momentum60'') (fint 0)) (flit 10 100)))
                    (fmul (py_max (fsub relative_volume (fint 1)) (fint 0)) (flit 20 100)))
              (fmul (py_max (fsub (it_technical_score item) (fint 60)) (fint 0)) (flit 15 1000))))"

definition intraday_route :: "entry_item \<Rightarrow> bool" where
  "intraday_route item \<longleftrightarrow>
     (let ind = dget (it_indicators item); num = (\<lambda>k. float0 (ind k)); price = float0 (it_price item);
          relative_volume = float_or (ind ''relative_volume'') (fint 1) in
      list_all id
       [truthy (it_technical_validated item),
        active_market item,
        quote_live item,
        fle (fint 0) (it_upside item),
        fle (it_risk_score item) (fint 55),
        fle (fint 55) (it_confidence item),
        fle (it_buy_in_distance item) (fint 25),
        fle (fint 72) (it_technical_score item),
        fle (fint 62) (it_composite_score item),
        str_is (ind ''data_status'') ''live'',
        str_is (ind ''trend_state'') ''bullish'',
        \<not> str_is (ind ''volume_state'') ''distribution'',
        str_is (ind ''price_structure'') ''higher-highs'' \<or> str_is (ind ''price_structure'') ''breakout'',
        fle (flit 15 100) (num ''momentum15''),
        fle (flit 20 100) (num ''momentum30''),
        flt (fint 0) (num ''momentum60''),
        fle ENTRY_RELATIVE_VOLUME_MIN relative_volume,
        flt (fint 0) price \<and> flt (fint 0) (num ''vwap'') \<and> fle (num ''vwap'') price,
        flt (fint 0) (num ''ema8'') \<and> flt (fint 0) (num ''ema20'') \<and> fle (num ''ema8'') price
          \<and> flt (num ''ema20'') (num ''ema8''),
        flt (fint 0) (num ''macd_histogram'') \<and> fle (fint 0) (num ''macd_acceleration''),
        between (fint 48) (num ''rsi14'') (fint 74),
        flt (fint 0) (num ''relative_strength''),
        fle MIN_INTRADAY_EDGE_PERCENT (modeled_edge item)])"

definition reject_reasons :: "entry_item \<Rightarrow> entry_policy \<Rightarrow> entry_reason list" where
  "reject_reasons item policy =
     map snd (filter fst
       [(active_market item \<and> \<not> quote_live item, QuoteNotLive),
        (\<not> truthy (it_technical_validated item), TechnicalUnavailable),
        (flt (it_upside item) (entry_upside_floor policy), UpsideBelowFloor),
        (flt (max_risk_score policy) (it_risk_score item), RiskAboveCeiling),
        (flt (it_confidence item) (min_confidence policy), ConfidenceBelowFloor),
        (flt (max_buy_in_distance policy) (it_buy_in_distance item), DistanceAboveBuyIn),
        (flt (it_technical_score item) (min_technical_score policy), TechnicalInsufficient),
        (flt (it_composite_score item) (min_composite_score policy), CompositeBelowFloor)])
     @ [NoRoutePassed]"

text \<open>
  The verdict, its reasons, and what the call writes into the item
  (\<open>modeled_intraday_edge_percent\<close> and \<open>simulated_round_trip_cost_percent\<close>, unless the tactical
  route returned first).
\<close>

definition entry_decision ::
    "entry_item \<Rightarrow> entry_policy option \<Rightarrow> entry_verdict \<times> entry_reason list \<times> (pyfloat \<times> pyfloat) option" where
  "entry_decision item policy_opt =
     (let policy = (case policy_opt of None \<Rightarrow> BASE_ENTRY_POLICY | Some p \<Rightarrow> p) in
      if tactical_route item then (BUY, [Thesis (it_thesis item), TacticalRoutePassed], None)
      else
        let written = Some (modeled_edge item, SIMULATED_ROUND_TRIP_COST_PERCENT) in
        if intraday_route item then (BUY, [Thesis (it_thesis item), IntradayRoutePassed], written)
        else (REJECT, reject_reasons item policy, written))"

section \<open>Position size\<close>

definition target_position_percent :: "pydict \<Rightarrow> pyfloat \<Rightarrow> pyfloat" where
  "target_position_percent indicators max_position_percent =
     (let atr_percent = py_max (fint 0) (float_or (dget indicators ''atr_percent'') (flit 25 10));
          stop_distance_percent = py_max DEFAULT_MAX_POSITION_LOSS_PERCENT (py_min (flit 15 10) (fmul atr_percent (fint 2)));
          maximum = py_min MAX_DYNAMIC_POSITION_PERCENT max_position_percent;
          minimum = py_min MIN_POSITION_PERCENT maximum;
          target = fdiv (fmul RISK_BUDGET_PERCENT (fint 100)) stop_distance_percent
      in py_round 2 (py_max minimum (py_min maximum target)))"

section \<open>Properties: the defense score\<close>

definition call_fired :: "bool \<times> int \<times> string \<Rightarrow> bool" where
  "call_fired c \<longleftrightarrow> fst c"

definition call_weight :: "bool \<times> int \<times> string \<Rightarrow> int" where
  "call_weight c = fst (snd c)"

definition call_label :: "bool \<times> int \<times> string \<Rightarrow> string" where
  "call_label c = snd (snd c)"

definition fired_weight :: "(bool \<times> int \<times> string) list \<Rightarrow> int" where
  "fired_weight calls = sum_list (map call_weight (filter call_fired calls))"

lemma call_sel [simp]: "call_fired (b, w, l) = b" "call_weight (b, w, l) = w" "call_label (b, w, l) = l"
  by (simp_all add: call_fired_def call_weight_def call_label_def)

lemma defense_add_call [simp]:
  "defense_add (x, ds) (b, w, l) = (if b then (fadd x (fint w), ds @ [l]) else (x, ds))"
  by (simp add: defense_add_def)

text \<open>The running score is exact as long as the weights stay small integers.\<close>

lemma fired_weight_bounds:
  "list_all (\<lambda>c. 0 \<le> call_weight c) calls \<Longrightarrow>
     0 \<le> fired_weight calls \<and> fired_weight calls \<le> sum_list (map call_weight calls)"
  by (induction calls) (auto simp: fired_weight_def)

lemma foldl_defense_add:
  assumes "list_all (\<lambda>c. 0 \<le> call_weight c) calls" and "0 \<le> n"
    and "n + sum_list (map call_weight calls) \<le> 2 ^ 53"
  shows "foldl defense_add (Fin (of_int n), ds) calls =
    (Fin (of_int (n + fired_weight calls)), ds @ map call_label (filter call_fired calls))"
  using assms
proof (induction calls arbitrary: n ds)
  case Nil
  then show ?case by (simp add: fired_weight_def)
next
  case (Cons c calls)
  obtain b w l where c: "c = (b, w, l)" by (cases c)
  have w: "0 \<le> w" and rest: "list_all (\<lambda>c. 0 \<le> call_weight c) calls"
    using Cons.prems(1) by (simp_all add: c)
  have sum: "n + w + sum_list (map call_weight calls) \<le> 2 ^ 53"
    using Cons.prems(3) by (simp add: c add.assoc)
  have pos: "0 \<le> sum_list (map call_weight calls)"
    using fired_weight_bounds [OF rest] by linarith
  have add: "fadd (Fin (of_int n)) (fint w) = Fin (of_int (n + w))"
    using fadd_int [of n w] fint_eq [of w] w Cons.prems(2) sum pos by auto
  show ?case
  proof (cases b)
    case True
    then show ?thesis
      using Cons.IH [OF rest, of "n + w" "ds @ [l]"] w sum Cons.prems(2)
      by (simp add: c add fired_weight_def add.assoc)
  next
    case False
    then show ?thesis
      using Cons.IH [OF rest, of n ds] w sum Cons.prems(2)
      by (simp add: c fired_weight_def)
  qed
qed

lemma defense_weights:
  "list_all (\<lambda>c. 0 \<le> call_weight c) (defense_calls t p rs)"
  "sum_list (map call_weight (defense_calls t p rs)) = 174"
  by (simp_all add: defense_calls_def Let_def)

definition defense_points :: "pydict \<Rightarrow> pyfloat \<Rightarrow> pyfloat \<Rightarrow> int" where
  "defense_points t p rs = min 100 (fired_weight (defense_calls t p rs))"

lemma fle_fint: "\<bar>a\<bar> \<le> 2 ^ 53 \<Longrightarrow> \<bar>b\<bar> \<le> 2 ^ 53 \<Longrightarrow> fle (fint a) (fint b) \<longleftrightarrow> a \<le> b"
  by (simp add: pyf)

lemma defense_points_range: "0 \<le> defense_points t p rs" "defense_points t p rs \<le> 100"
  using fired_weight_bounds [OF defense_weights(1)] by (auto simp: defense_points_def)

lemma defense_total:
  "foldl defense_add (Fin 0, []) (defense_calls t p rs) =
    (fint (fired_weight (defense_calls t p rs)),
     map call_label (filter call_fired (defense_calls t p rs)))"
proof -
  have "0 \<le> fired_weight (defense_calls t p rs)" and "fired_weight (defense_calls t p rs) \<le> 174"
    using fired_weight_bounds [OF defense_weights(1)] defense_weights(2) by metis+
  then show ?thesis
    using foldl_defense_add [OF defense_weights(1) [of t p rs], of 0 "[]"] by (simp add: defense_weights(2) pyf)
qed

lemma def_score_points: "def_score (technical_defense t p dc mc) = fint (defense_points t p (fsub dc mc))"
proof -
  have b: "0 \<le> fired_weight (defense_calls t p (fsub dc mc))" "fired_weight (defense_calls t p (fsub dc mc)) \<le> 174"
    using fired_weight_bounds [OF defense_weights(1)] defense_weights(2) by metis+
  have "py_min (fint 100) (fint (fired_weight (defense_calls t p (fsub dc mc)))) =
      Fin (of_int (defense_points t p (fsub dc mc)))"
    using b by (simp add: pyf defense_points_def min_def)
  then have "def_score (technical_defense t p dc mc) = py_round 1 (Fin (of_int (defense_points t p (fsub dc mc))))"
    by (simp add: technical_defense_def Let_def defense_total)
  also have "\<dots> = fint (defense_points t p (fsub dc mc))"
    using defense_points_range [of t p "fsub dc mc"] by (simp add: py_round_int pyf)
  finally show ?thesis .
qed

text \<open>
  the defense score is exact integer arithmetic: it is the sum of the weights of the conditions
  that fired, cut at one hundred; the drivers are their labels in order; and the severity is the
  documented classification of that integer, an exit whenever the state is critical.
\<close>

theorem technical_defense_exact:
  "let d = technical_defense t price dc mc;
       calls = defense_calls t price (fsub dc mc);
       points = min 100 (sum_list (map call_weight (filter call_fired calls)))
   in def_score d = Fin (of_int points) \<and> 0 \<le> points \<and> points \<le> 100
      \<and> def_drivers d = map call_label (filter call_fired calls)
      \<and> (def_critical d \<longleftrightarrow> def_actionable d \<and> (82 \<le> points \<or>
            tword t ''price_structure'' ''range'' ''breakdown''
            \<and> (tword t ''volume_state'' ''neutral'' ''distribution''
                \<or> fle (flit 62 100) (float_or (dget t ''sell_volume_ratio'') (flit 5 10)))
            \<and> fle (flit 105 100) (float_or (dget t ''relative_volume'') (fint 1))))
      \<and> def_severity d = (if def_critical d \<or> 72 \<le> points then SevExit
           else if 55 \<le> points then SevReduce else if 40 \<le> points then SevWatch else SevHealthy)"
proof -
  define points where "points = defense_points t price (fsub dc mc)"
  have r: "0 \<le> points" "points \<le> 100" using defense_points_range by (simp_all add: points_def)
  have sc: "def_score (technical_defense t price dc mc) = fint points"
    by (simp add: points_def def_score_points)
  have cmp: "fle (fint n) (fint points) \<longleftrightarrow> n \<le> points" if "\<bar>n\<bar> \<le> 100" for n
    using that r by (intro fle_fint) auto
  have drv: "def_drivers (technical_defense t price dc mc) =
      map call_label (filter call_fired (defense_calls t price (fsub dc mc)))"
    by (simp add: technical_defense_def Let_def defense_total)
  have sev: "def_severity d = (if def_critical d \<or> fle (fint 72) (def_score d) then SevExit
      else if fle (fint 55) (def_score d) then SevReduce
      else if fle (fint 40) (def_score d) then SevWatch else SevHealthy)"
    and cri: "def_critical d \<longleftrightarrow> def_actionable d \<and> (fle (fint 82) (def_score d) \<or>
            tword t ''price_structure'' ''range'' ''breakdown''
            \<and> (tword t ''volume_state'' ''neutral'' ''distribution''
                \<or> fle (flit 62 100) (float_or (dget t ''sell_volume_ratio'') (flit 5 10)))
            \<and> fle (flit 105 100) (float_or (dget t ''relative_volume'') (fint 1)))"
    if "d = technical_defense t price dc mc" for d
    unfolding that by (simp_all only: technical_defense_def Let_def defense_total fint_0 prod.case defense.simps)
  have pt: "min 100 (sum_list (map call_weight (filter call_fired (defense_calls t price (fsub dc mc))))) = points"
    by (simp add: points_def defense_points_def fired_weight_def)
  have "fint points = Fin (of_int points)" using r by (simp add: pyf)
  moreover have "def_critical (technical_defense t price dc mc) \<longleftrightarrow>
      def_actionable (technical_defense t price dc mc) \<and> (82 \<le> points \<or>
            tword t ''price_structure'' ''range'' ''breakdown''
            \<and> (tword t ''volume_state'' ''neutral'' ''distribution''
                \<or> fle (flit 62 100) (float_or (dget t ''sell_volume_ratio'') (flit 5 10)))
            \<and> fle (flit 105 100) (float_or (dget t ''relative_volume'') (fint 1)))"
    using cri [OF refl] unfolding sc cmp [of 82, simplified] .
  moreover have "def_severity (technical_defense t price dc mc) =
      (if def_critical (technical_defense t price dc mc) \<or> 72 \<le> points then SevExit
       else if 55 \<le> points then SevReduce else if 40 \<le> points then SevWatch else SevHealthy)"
    using sev [OF refl] unfolding sc cmp [of 72, simplified] cmp [of 55, simplified] cmp [of 40, simplified] .
  ultimately show ?thesis unfolding Let_def pt sc using r drv by (intro conjI) assumption+
qed

section \<open>Properties: the entry decision\<close>

lemma fle_fint_trans: "fle (fint a) x \<Longrightarrow> b \<le> a \<Longrightarrow> \<bar>a\<bar> \<le> 2 ^ 53 \<Longrightarrow> \<bar>b\<bar> \<le> 2 ^ 53 \<Longrightarrow> fle (fint b) x"
  using fle_trans [of "fint b" "fint a" x] by (simp add: fle_fint)

lemma fle_fint_trans2: "fle x (fint a) \<Longrightarrow> a \<le> b \<Longrightarrow> \<bar>a\<bar> \<le> 2 ^ 53 \<Longrightarrow> \<bar>b\<bar> \<le> 2 ^ 53 \<Longrightarrow> fle x (fint b)"
  using fle_trans [of x "fint a" "fint b"] by (simp add: fle_fint)

lemma buy_routes: "fst (entry_decision item p) = BUY \<longleftrightarrow> tactical_route item \<or> intraday_route item"
  by (auto simp: entry_decision_def Let_def)

text \<open>What both routes demand of an entry.\<close>

definition entry_floor :: "entry_item \<Rightarrow> bool" where
  "entry_floor item \<longleftrightarrow>
     (let ind = dget (it_indicators item); num = (\<lambda>k. float0 (ind k)); price = float0 (it_price item) in
      truthy (it_technical_validated item)
      \<and> (\<not> active_market item \<or> quote_live item)
      \<and> fle (fint 0) (it_upside item) \<and> fle (it_risk_score item) (fint 55) \<and> fle (fint 55) (it_confidence item)
      \<and> fle (it_buy_in_distance item) (fint 25) \<and> fle (fint 72) (it_technical_score item)
      \<and> fle (fint 62) (it_composite_score item)
      \<and> str_is (ind ''data_status'') ''live'' \<and> str_is (ind ''trend_state'') ''bullish''
      \<and> \<not> str_is (ind ''volume_state'') ''distribution''
      \<and> fle ENTRY_RELATIVE_VOLUME_MIN (float_or (ind ''relative_volume'') (fint 1))
      \<and> flt (fint 0) (num ''vwap'') \<and> fle (num ''vwap'') price
      \<and> flt (fint 0) (num ''ema20'') \<and> flt (num ''ema20'') (num ''ema8'') \<and> fle (num ''ema8'') price
      \<and> flt (fint 0) (num ''macd_histogram'') \<and> fle (fint 0) (num ''macd_acceleration'')
      \<and> between (fint 48) (num ''rsi14'') (fint 76) \<and> flt (fint 0) (num ''relative_strength''))"

lemma tactical_entry_floor: "tactical_route item \<Longrightarrow> entry_floor item"
  unfolding tactical_route_def entry_floor_def Let_def
  by (auto intro: fle_fint_trans [where a = 20] fle_fint_trans [where a = 65] fle_fint_trans [where a = 72]
      fle_fint_trans2 [where a = 20] fle_fint_trans [of 20 _ 0, simplified])

lemma intraday_entry_floor: "intraday_route item \<Longrightarrow> entry_floor item"
  unfolding intraday_route_def entry_floor_def Let_def between_def
  by (auto intro: fle_fint_trans2 [where a = 74])

text \<open>
  C16: every BUY, by either route and under every policy, meets the common floor: validated
  technicals, a live quote on the active markets, a live bullish non-distributive reading at 1.5
  times the median volume or more, a price above a positive VWAP and above rising averages, and the
  score limits.  A NaN in any of these numbers refuses the entry.
\<close>

theorem buy_meets_entry_floor:
  "fst (entry_decision item policy) = BUY \<Longrightarrow> entry_floor item"
  using buy_routes tactical_entry_floor intraday_entry_floor by blast

definition sample_indicators :: pydict where
  "sample_indicators = map_of [
     (''data_status'', VStr ''live''), (''trend_state'', VStr ''bullish''), (''volume_state'', VStr ''accumulation''),
     (''price_structure'', VStr ''breakout''), (''relative_volume'', VInt 2), (''vwap'', VInt 99), (''ema8'', VInt 98),
     (''ema20'', VInt 97), (''momentum15'', VInt 1), (''momentum30'', VInt 1), (''macd_histogram'', VInt 1),
     (''macd_acceleration'', VInt 1), (''rsi14'', VInt 60), (''relative_strength'', VInt 1)]"

definition sample_item :: entry_item where
  "sample_item = \<lparr>it_technical_validated = VBool True, it_market = VStr ''NYSE'', it_quote_status = VStr ''live'',
     it_price = VInt 100, it_thesis = VStr ''t'', it_indicators = sample_indicators, it_upside = Fin 25,
     it_risk_score = Fin 40, it_confidence = Fin 70, it_buy_in_distance = Fin 5, it_technical_score = Fin 80,
     it_composite_score = Fin 75\<rparr>"

lemma buy_meets_entry_floor_witness:
  "fst (entry_decision sample_item None) = BUY \<and> entry_floor sample_item"
proof -
  have "fst (entry_decision sample_item None) = BUY" by code_simp
  then show ?thesis using buy_meets_entry_floor by blast
qed

text \<open>
  The policy only explains.  Whatever thresholds the learning loop has tuned, the verdict and
  the numbers written into the item are those of any other policy; a REJECT always ends with the
  reason that no route passed.
\<close>

theorem policy_never_changes_verdict:
  "case (entry_decision item p, entry_decision item q) of
     ((v, rs, written), (v', rs', written')) \<Rightarrow>
       v = v' \<and> written = written' \<and> (v = BUY \<and> rs = rs' \<or> v = REJECT \<and> last rs = NoRoutePassed \<and> last rs' = NoRoutePassed)"
  by (simp add: entry_decision_def Let_def reject_reasons_def)

section \<open>Properties: size and conviction\<close>

lemma size_constants:
  "fmul RISK_BUDGET_PERCENT (fint 100) = Fin 2" "DEFAULT_MAX_POSITION_LOSS_PERCENT = Fin (5854679515581645 / 9007199254740992)"
  "flit 15 10 = Fin (3 / 2)" "fl (2 / (5854679515581645 / 9007199254740992)) = Fin (866076851417403 / 281474976710656)"
  "flit 308 100 = Fin (1733885856537641 / 562949953421312)"
  "py_round 2 (Fin (866076851417403 / 281474976710656)) = flit 308 100"
  by code_simp+

lemma stop_distance_range:
  "\<exists>s. py_max DEFAULT_MAX_POSITION_LOSS_PERCENT (py_min (flit 15 10) x) = Fin s 
    \<and> 5854679515581645 / 9007199254740992 \<le> s"
  using clamp_range [of "5854679515581645 / 9007199254740992" "3 / 2" x] by (auto simp: size_constants)

text \<open>
  with a maximum of at least two percent configured, every size is a finite percentage between 2
  and 3.08 and never above that maximum (as rounded to cents), for every volatility reading, a
  missing, negative, infinite or NaN one included.
\<close>

theorem target_position_bounded:
  assumes "2 \<le> maximum"
  shows "\<exists>r. target_position_percent indicators (Fin maximum) = Fin r \<and> 2 \<le> r \<and> fle (Fin r) (flit 308 100)
    \<and> fle (Fin r) (py_round 2 (Fin maximum))"
proof -
  let ?t = "866076851417403 / 281474976710656 :: rat"
  define d where "d = py_max DEFAULT_MAX_POSITION_LOSS_PERCENT
    (py_min (flit 15 10) (fmul (py_max (fint 0) (float_or (dget indicators ''atr_percent'') (flit 25 10))) (fint 2)))"
  obtain s where s: "d = Fin s" "5854679515581645 / 9007199254740992 \<le> s"
    using stop_distance_range unfolding d_def by blast
  have "fle (fl (2 / s)) (Fin ?t)"
    unfolding size_constants(4) [symmetric] using s(2) by (intro fl_fle divide_left_mono) (auto intro!: mult_pos_pos)
  moreover have "fle (fl 0) (fl (2 / s))" using s(2) by (intro fl_fle) simp
  ultimately obtain t where t: "fl (2 / s) = Fin t" "0 \<le> t" "t \<le> ?t"
    by (cases "fl (2 / s)") (auto simp: fle_def)
  define r where "r = max 2 (min (min 6 maximum) t)"
  have val: "target_position_percent indicators (Fin maximum) = py_round 2 (Fin r)"
    unfolding target_position_percent_def Let_def d_def [symmetric] size_constants(1) s(1)
    using t(1) assms by (simp add: MAX_DYNAMIC_POSITION_PERCENT_def MIN_POSITION_PERCENT_def pyf r_def)
  have r: "2 \<le> r" "r \<le> 4" "r \<le> ?t" "r \<le> maximum" using t(2,3) assms by (auto simp: r_def min_def max_def)
  obtain q where q: "py_round 2 (Fin r) = Fin q" "2 \<le> q"
    using py_round_between_int [of 2 r 4 2] r by auto
  have "fle (Fin q) (flit 308 100)"
    unfolding q(1) [symmetric] size_constants(6) [symmetric] by (rule py_round_fle [OF r(3)])
  moreover have "fle (Fin q) (py_round 2 (Fin maximum))"
    unfolding q(1) [symmetric] by (rule py_round_fle [OF r(4)])
  ultimately show ?thesis using q val by auto
qed

lemma target_position_bounded_witness:
  "\<exists>r. target_position_percent (\<lambda>k. Some (VFloat NaN)) (Fin 5) = Fin r \<and> 2 \<le> r \<and> fle (Fin r) (flit 308 100)
    \<and> fle (Fin r) (py_round 2 (Fin 5))"
  by (rule target_position_bounded) simp

definition conviction_core :: "pydict \<Rightarrow> int \<Rightarrow> bool" where
  "conviction_core t votes \<longleftrightarrow>
     votes \<le> 1 \<and> tword t ''data_status'' ''unavailable'' ''live'' \<and> tword t ''trend_state'' ''neutral'' ''bullish''
     \<and> (tword t ''price_structure'' ''neutral'' ''higher-highs'' \<or> tword t ''price_structure'' ''neutral'' ''breakout'')
     \<and> \<not> tword t ''volume_state'' ''neutral'' ''distribution''"

lemma conviction_active:
  "conv_active (weekly_conviction strategy t price high atr votes) \<longleftrightarrow>
     fle WEEKLY_CONVICTION_MIN_SCORE (conv_score (weekly_conviction strategy t price high atr votes))
     \<and> length (conv_reasons (weekly_conviction strategy t price high atr votes)) = 8"
proof -
  have "length (conviction_gates f c s t price high atr votes) = 8" for f c s
    by (simp add: conviction_gates_def Let_def)
  then show ?thesis
    unfolding weekly_conviction_def Let_def conviction.simps length_map length_filter_all [symmetric] by simp
qed

lemma conviction_gates_core:
  "list_all snd (conviction_gates f c s t price high atr votes) \<Longrightarrow> conviction_core t votes"
  by (simp add: conviction_gates_def conviction_core_def Let_def)

text \<open>
  The weekly conviction is active only when all eight gates hold and the score reaches the
  minimum: the market data is live, the trend bullish, the structure rising, the volume not
  distributive and at most one bearish vote was cast.
\<close>

theorem weekly_conviction_gates:
  "conv_active (weekly_conviction strategy t price high atr votes) \<Longrightarrow>
     conviction_core t votes
     \<and> length (conv_reasons (weekly_conviction strategy t price high atr votes)) = 8
     \<and> fle WEEKLY_CONVICTION_MIN_SCORE (conv_score (weekly_conviction strategy t price high atr votes))"
proof -
  assume "conv_active (weekly_conviction strategy t price high atr votes)"
  then show ?thesis
    using conviction_active [of strategy t price high atr votes] conviction_gates_core
    by (auto simp: weekly_conviction_def Let_def simp del: length_map)
qed

text \<open>
  the conviction gates do not see a missing number: a NaN fundamental score or confidence is
  clamped to one hundred, so it reads as the best value there is.
\<close>

theorem nan_conviction_reads_as_best:
  "weekly_conviction (strategy(''fundamental_score'' := Some (VFloat NaN))) t price high atr votes
   = weekly_conviction (strategy(''fundamental_score'' := Some (VInt 100))) t price high atr votes"
proof -
  have "clamp100 NaN = clamp100 (fint 100)" by (simp add: clamp100_def py_min_def hundred)
  then have "clamp100 (float_or (VFloat NaN) d) = clamp100 (float_or (VInt 100) d)" for d
    by (simp add: float_or_def)
  then show ?thesis unfolding weekly_conviction_def by (simp add: dget_def)
qed

end
