(* ===== verification/ExitCascade.thy ===== *)
theory ExitCascade
  imports Strategy
begin

text \<open>
  \<open>c3po/backend/app/r2d2_strategy.py\<close>, third part: \<open>exit_decision\<close>, the exit cascade of one review
  of an open position.  The function is split as the source reads: the numbers every branch tests
  (\<open>exit_facts_of\<close>), the \<open>if\<close>/\<open>elif\<close> chain over them (\<open>exit_cascade\<close>), and the counters handed to
  the next review.  Each reason text is a constructor of \<open>exit_reason\<close>.
\<close>

section \<open>State and inputs\<close>

record risk_state =
  defense_streak :: int
  defense_reductions :: int
  stop_breach_count :: int
  profit_harvest_count :: int
  gain_protection_streak :: int

definition fresh_state :: risk_state where
  "fresh_state = \<lparr>defense_streak = 0, defense_reductions = 0, stop_breach_count = 0,
     profit_harvest_count = 0, gain_protection_streak = 0\<rparr>"

record exit_input =
  ex_technical :: pydict
  ex_quote_price :: pyfloat
  ex_average_cost :: pyfloat
  ex_high_water :: pyfloat
  ex_held_minutes :: pyfloat
  ex_day_change :: pyfloat
  ex_market_change :: pyfloat
  ex_weekly_active :: bool
  ex_stop_price :: pyfloat
  ex_max_position_loss_percent :: pyfloat
  ex_soft_loss_exit_percent :: pyfloat
  ex_profit_lock_floor_percent :: pyfloat
  ex_profit_pullback_percent :: pyfloat
  ex_seconds_to_close :: "pyfloat option"
  ex_slippage_rate :: pyfloat
  ex_fee_rate :: pyfloat

datatype exit_reason =
    HardStop
  | EndOfDayProfit
  | FailedEntry
  | CriticalDefense
  | ConfirmedDefense
  | PersistentDeterioration
  | DefensiveLoss
  | AdaptiveStop
  | WeeklyLockBeforeHarvest
  | WeeklyHarvest
  | WeeklyRemainderLock
  | TacticalHarvest
  | ArmedProfitLock
  | EarlyTacticalHarvest
  | MomentumReversalHarvest
  | EarlyHarvest
  | GainProtection
  | TrendBreakdown
  | ProgressiveReduction
  | Stagnation

datatype hold_state =
    Hold | ExitState | StopArmed | DefenseReductionArmed | TechnicalDefenseWatch | WeeklyConvictionHold
  | ProfitProtected | ProfitArmed | TrendUnderReview

record exit_facts =
  f_stop :: pyfloat
  f_net :: pyfloat
  f_net_peak :: pyfloat
  f_max_loss :: pyfloat
  f_soft_loss :: pyfloat
  f_trigger :: pyfloat
  f_bearish_votes :: int
  f_failed_votes :: int
  f_defense :: defense
  f_defense_streak :: int
  f_stop_breaches :: int
  f_gain_streak :: int
  f_technical_score :: pyfloat
  f_lock_level :: pyfloat

section \<open>The numbers of one review\<close>

definition count_true :: "bool list \<Rightarrow> int" where
  "count_true bs = int (length (filter id bs))"

definition bearish_votes_of :: "pydict \<Rightarrow> pyfloat \<Rightarrow> int" where
  "bearish_votes_of t quote_price = count_true
     [flt quote_price (float_or (dget t ''vwap'') quote_price),
      flt quote_price (float_or (dget t ''ema8'') quote_price),
      flt (float0 (dget t ''ema8'')) (float0 (dget t ''ema20'')),
      flt (float0 (dget t ''macd_histogram'')) (fint 0) \<and> flt (float0 (dget t ''macd_acceleration'')) (fint 0),
      flt (float0 (dget t ''momentum30'')) (flit (- 35) 100),
      str_is (dget t ''price_structure'') ''breakdown'']"

definition failed_entry_votes_of :: "pydict \<Rightarrow> pyfloat \<Rightarrow> int" where
  "failed_entry_votes_of t quote_price = count_true
     [flt quote_price (float_or (dget t ''vwap'') quote_price),
      flt quote_price (float_or (dget t ''ema8'') quote_price),
      flt (float0 (dget t ''momentum15'')) (fint 0),
      flt (float0 (dget t ''momentum30'')) (fint 0),
      flt (float0 (dget t ''macd_histogram'')) (fint 0) \<and> fle (float0 (dget t ''macd_acceleration'')) (fint 0)]"

definition effective_max_loss :: "exit_input \<Rightarrow> pyfloat" where
  "effective_max_loss i =
     (let atr_percent = py_max (fint 0) (float0 (dget (ex_technical i) ''atr_percent''))
      in py_max (ex_max_position_loss_percent i) (py_min (flit 15 10) (fmul atr_percent (fint 2))))"

definition exit_stop :: "exit_input \<Rightarrow> pyfloat \<Rightarrow> pyfloat" where
  "exit_stop i net_peak =
     (let cost = ex_average_cost i; high = ex_high_water i;
          atr = py_max (float0 (dget (ex_technical i) ''atr'')) (fmul (ex_quote_price i) (flit 4 1000));
          trailing = fsub high (fmul atr (flit 25 10));
          stop0 = py_max (ex_stop_price i) trailing;
          hard_stop = hard_stop_quote_price cost (effective_max_loss i) (ex_slippage_rate i) (ex_fee_rate i);
          stop1 = py_max stop0 hard_stop
      in if fle (fint 8) net_peak
         then py_max (py_max stop1 (fmul cost (flit 104 100)))
                (fsub high (py_max (fmul atr (flit 15 10)) (fmul high (flit 175 10000))))
         else if fle (fint 4) net_peak
         then py_max (py_max stop1 (fmul cost (flit 1015 1000)))
                (fsub high (py_max (fmul atr (fint 2)) (fmul high (flit 225 10000))))
         else if fle (fint 1) net_peak then py_max stop1 (fmul cost (flit 1003 1000))
         else stop1)"

text \<open>
  \<open>None\<close> is the \<open>ZeroDivisionError\<close> of \<open>quote_price / average_cost\<close> and
  \<open>high_water / average_cost\<close> (the two marks are only printed in the reasons).
\<close>

definition exit_facts_of :: "exit_input \<Rightarrow> risk_state \<Rightarrow> exit_facts option" where
  "exit_facts_of i st = do {
     py_div (ex_quote_price i) (ex_average_cost i);
     py_div (ex_high_water i) (ex_average_cost i);
     let t = ex_technical i;
     let quote = ex_quote_price i;
     let net = estimated_net_exit_pnl_percent quote (ex_average_cost i) (ex_slippage_rate i) (ex_fee_rate i);
     let net_peak = estimated_net_exit_pnl_percent (ex_high_water i) (ex_average_cost i) (ex_slippage_rate i) (ex_fee_rate i);
     let atr_percent = py_max (fint 0) (float0 (dget t ''atr_percent''));
     let max_loss = effective_max_loss i;
     let stop = exit_stop i net_peak;
     let failed_votes = failed_entry_votes_of t quote;
     let defense = technical_defense t quote (ex_day_change i) (ex_market_change i);
     Some \<lparr>f_stop = stop, f_net = net, f_net_peak = net_peak, f_max_loss = max_loss,
       f_soft_loss = py_max (ex_soft_loss_exit_percent i) (py_min (flit 7 10) (fmul atr_percent (flit 4 10))),
       f_trigger = py_max PROFIT_TRIGGER_PERCENT max_loss,
       f_bearish_votes = bearish_votes_of t quote,
       f_failed_votes = failed_votes,
       f_defense = defense,
       f_defense_streak = (if def_actionable defense \<and> fle (fint 45) (def_score defense)
                           then defense_streak st + 1 else max 0 (defense_streak st - 1)),
       f_stop_breaches = (if fle quote stop then stop_breach_count st + 1 else 0),
       f_gain_streak = (if fle GAIN_PROTECTION_MIN_PERCENT net \<and> 3 \<le> failed_votes
                        then gain_protection_streak st + 1 else max 0 (gain_protection_streak st - 1)),
       f_technical_score = float0 (dget t ''score''),
       f_lock_level = py_max (ex_profit_lock_floor_percent i) (fsub net_peak (ex_profit_pullback_percent i))\<rparr>
   }"

section \<open>The cascade\<close>

record exit_outcome =
  o_reason :: "exit_reason option"
  o_sell_fraction :: pyfloat
  o_hold :: hold_state
  o_harvests :: int
  o_reductions :: int

definition full_exit :: "risk_state \<Rightarrow> exit_reason \<Rightarrow> exit_outcome" where
  "full_exit st r = \<lparr>o_reason = Some r, o_sell_fraction = fint 1, o_hold = ExitState,
     o_harvests = profit_harvest_count st, o_reductions = defense_reductions st\<rparr>"

definition stay :: "risk_state \<Rightarrow> hold_state \<Rightarrow> exit_outcome" where
  "stay st h = \<lparr>o_reason = None, o_sell_fraction = fint 1, o_hold = h,
     o_harvests = profit_harvest_count st, o_reductions = defense_reductions st\<rparr>"

definition hold_cascade :: "exit_input \<Rightarrow> risk_state \<Rightarrow> exit_facts \<Rightarrow> exit_outcome" where
  "hold_cascade i st f =
     (if fle (ex_quote_price i) (f_stop f) then stay st StopArmed
      else if def_severity (f_defense f) = SevReduce then stay st DefenseReductionArmed
      else if def_severity (f_defense f) = SevWatch then stay st TechnicalDefenseWatch
      else if ex_weekly_active i then stay st WeeklyConvictionHold
      else if fle (fint 4) (f_net_peak f) then stay st ProfitProtected
      else if fle (fint 1) (f_net_peak f) then stay st ProfitArmed
      else if flt (f_technical_score f) (fint 45) then stay st TrendUnderReview
      else stay st Hold)"

definition exit_cascade :: "exit_input \<Rightarrow> risk_state \<Rightarrow> exit_facts \<Rightarrow> exit_outcome" where
  "exit_cascade i st f =
     (let net = f_net f; peak = f_net_peak f; d = f_defense f; score = def_score d; act = def_actionable d;
          streak = f_defense_streak f; bearish = f_bearish_votes f; failed = f_failed_votes f;
          tscore = f_technical_score f; trigger = f_trigger f;
          mature = fle MIN_HOLD_MINUTES (ex_held_minutes i);
          in_lock = between (ex_profit_lock_floor_percent i) net (f_lock_level f);
          weekly = ex_weekly_active i; harvests = profit_harvest_count st; reductions = defense_reductions st
      in
      if fle net (fneg (f_max_loss f)) then full_exit st HardStop
      else if (case ex_seconds_to_close i of None \<Rightarrow> False
               | Some s \<Rightarrow> between (fint 0) s END_OF_DAY_PROFIT_EXIT_LEAD_SECONDS) \<and> flt (fint 0) net
        then full_exit st EndOfDayProfit
      else if fle FAILED_ENTRY_MINUTES (ex_held_minutes i) \<and> fle net (fneg FAILED_ENTRY_LOSS_PERCENT) \<and> 3 \<le> failed
        then full_exit st FailedEntry
      else if def_critical d then full_exit st CriticalDefense
      else if mature \<and> act \<and> fle (fint 72) score \<and> 2 \<le> streak then full_exit st ConfirmedDefense
      else if mature \<and> 1 \<le> reductions \<and> act \<and> fle (fint 58) score \<and> 3 \<le> streak
        then full_exit st PersistentDeterioration
      else if fle net (fneg (f_soft_loss f)) \<and> act \<and> fle (fint 45) score \<and> 2 \<le> streak
        then full_exit st DefensiveLoss
      else if fle (ex_quote_price i) (f_stop f) \<and> act \<and> fle (fint 45) score \<and> 2 \<le> f_stop_breaches f
        then full_exit st AdaptiveStop
      else if mature \<and> weekly \<and> harvests = 0 \<and> fle trigger peak \<and> in_lock
        then full_exit st WeeklyLockBeforeHarvest
      else if mature \<and> weekly \<and> harvests = 0 \<and> fle trigger net
        then (full_exit st WeeklyHarvest)\<lparr>o_sell_fraction := WEEKLY_PROFIT_HARVEST_FRACTION, o_harvests := 1\<rparr>
      else if mature \<and> weekly \<and> 1 \<le> harvests \<and> fle trigger peak \<and> in_lock
        then full_exit st WeeklyRemainderLock
      else if mature \<and> \<not> weekly \<and> fle trigger net then full_exit st TacticalHarvest
      else if mature \<and> \<not> weekly \<and> fle trigger peak \<and> in_lock then full_exit st ArmedProfitLock
      else if mature \<and> fle (flit 75 100) net \<and> 1 \<le> bearish \<and> flt tscore (fint 60)
        then full_exit st EarlyTacticalHarvest
      else if mature \<and> fle (flit 25 10) net \<and> 3 \<le> bearish then full_exit st MomentumReversalHarvest
      else if mature \<and> fle (fint 1) net \<and> 2 \<le> bearish \<and> flt tscore (fint 55) then full_exit st EarlyHarvest
      else if fle GAIN_PROTECTION_MIN_PERCENT net \<and> 3 \<le> failed \<and> 2 \<le> f_gain_streak f
        then full_exit st GainProtection
      else if mature \<and> flt tscore (fint 32) \<and> 4 \<le> bearish then full_exit st TrendBreakdown
      else if mature \<and> flt net trigger \<and> reductions = 0 \<and> act \<and> fle (fint 55) score \<and> 2 \<le> streak
        then (full_exit st ProgressiveReduction)\<lparr>o_sell_fraction := flit 5 10, o_reductions := 1\<rparr>
      else if fle (fint 180) (ex_held_minutes i) \<and> flt net (flit 5 10) \<and> flt tscore (fint 45)
        then full_exit st Stagnation
      else hold_cascade i st f)"

record exit_result =
  r_reason :: "exit_reason option"
  r_sell_fraction :: pyfloat
  r_decision_state :: hold_state

definition exit_decision :: "exit_input \<Rightarrow> risk_state \<Rightarrow> (exit_result \<times> risk_state) option" where
  "exit_decision i st = do {
     f \<leftarrow> exit_facts_of i st;
     let out = exit_cascade i st f;
     Some (\<lparr>r_reason = o_reason out, r_sell_fraction = o_sell_fraction out, r_decision_state = o_hold out\<rparr>,
       \<lparr>defense_streak = f_defense_streak f, defense_reductions = o_reductions out,
        stop_breach_count = f_stop_breaches f, profit_harvest_count = o_harvests out,
        gain_protection_streak = f_gain_streak f\<rparr>)
   }"

text \<open>
  The reviews of one position, as the caller runs them: each review gets the counters the previous
  one returned, and the run stops at a full exit.  The result is the list of sales.
\<close>

fun run_reviews :: "risk_state \<Rightarrow> exit_input list \<Rightarrow> (exit_reason \<times> pyfloat) list option" where
  "run_reviews st [] = Some []"
| "run_reviews st (i # is) = do {
     (r, st') \<leftarrow> exit_decision i st;
     (case r_reason r of
        None \<Rightarrow> run_reviews st' is
      | Some why \<Rightarrow>
          if r_sell_fraction r = fint 1 then Some [(why, fint 1)]
          else do { rest \<leftarrow> run_reviews st' is; Some ((why, r_sell_fraction r) # rest) })
   }"

section \<open>Properties\<close>

text \<open>What one review may do: hold, leave entirely, or take one of the two partial sales for the first time.\<close>

definition legal_outcome :: "risk_state \<Rightarrow> exit_outcome \<Rightarrow> bool" where
  "legal_outcome st out \<longleftrightarrow>
     (case o_reason out of
        None \<Rightarrow> o_harvests out = profit_harvest_count st \<and> o_reductions out = defense_reductions st
      | Some WeeklyHarvest \<Rightarrow> o_sell_fraction out = WEEKLY_PROFIT_HARVEST_FRACTION \<and> profit_harvest_count st = 0
          \<and> o_harvests out = 1 \<and> o_reductions out = defense_reductions st
      | Some ProgressiveReduction \<Rightarrow> o_sell_fraction out = flit 5 10 \<and> defense_reductions st = 0
          \<and> o_harvests out = profit_harvest_count st \<and> o_reductions out = 1
      | Some _ \<Rightarrow> o_sell_fraction out = fint 1 \<and> o_harvests out = profit_harvest_count st
          \<and> o_reductions out = defense_reductions st)"

lemma legal_if: "(c \<Longrightarrow> legal_outcome st a) \<Longrightarrow> (\<not> c \<Longrightarrow> legal_outcome st b) \<Longrightarrow> legal_outcome st (if c then a else b)"
  by simp

lemma legal_stay [simp]: "legal_outcome st (stay st h)"
  by (simp add: legal_outcome_def stay_def)

lemma legal_full [simp]:
  "r \<noteq> WeeklyHarvest \<Longrightarrow> r \<noteq> ProgressiveReduction \<Longrightarrow> legal_outcome st (full_exit st r)"
  by (cases r) (simp_all add: legal_outcome_def full_exit_def)

lemma legal_partial [simp]:
  "profit_harvest_count st = 0 \<Longrightarrow>
     legal_outcome st ((full_exit st WeeklyHarvest)\<lparr>o_sell_fraction := WEEKLY_PROFIT_HARVEST_FRACTION, o_harvests := 1\<rparr>)"
  "defense_reductions st = 0 \<Longrightarrow>
     legal_outcome st ((full_exit st ProgressiveReduction)\<lparr>o_sell_fraction := flit 5 10, o_reductions := 1\<rparr>)"
  by (simp_all add: legal_outcome_def full_exit_def)

lemma legal_hold [simp]: "legal_outcome st (hold_cascade i st f)"
  unfolding hold_cascade_def by (intro legal_if legal_stay)

lemma legal_cascade: "legal_outcome st (exit_cascade i st f)"
  unfolding exit_cascade_def Let_def by (intro legal_if) simp_all

lemma exit_decision_elim:
  assumes "exit_decision i st = Some (r, st')"
  obtains f where "exit_facts_of i st = Some f"
    and "r_reason r = o_reason (exit_cascade i st f)"
    and "r_sell_fraction r = o_sell_fraction (exit_cascade i st f)"
    and "r_decision_state r = o_hold (exit_cascade i st f)"
    and "profit_harvest_count st' = o_harvests (exit_cascade i st f)"
    and "defense_reductions st' = o_reductions (exit_cascade i st f)"
    and "defense_streak st' = f_defense_streak f" and "stop_breach_count st' = f_stop_breaches f"
    and "gain_protection_streak st' = f_gain_streak f"
  using assms that unfolding exit_decision_def by (auto simp: Let_def elim!: steps)

text \<open>The counters stay counters: nonnegative streaks, at most one harvest and one reduction.\<close>

definition wf_risk :: "risk_state \<Rightarrow> bool" where
  "wf_risk st \<longleftrightarrow> 0 \<le> defense_streak st \<and> 0 \<le> stop_breach_count st \<and> 0 \<le> gain_protection_streak st
     \<and> profit_harvest_count st \<in> {0, 1} \<and> defense_reductions st \<in> {0, 1}"

lemma facts_streaks:
  assumes "exit_facts_of i st = Some f" and "wf_risk st"
  shows "0 \<le> f_defense_streak f" and "0 \<le> f_stop_breaches f" and "0 \<le> f_gain_streak f"
  using assms unfolding exit_facts_of_def wf_risk_def by (auto simp: Let_def split: if_splits elim!: steps)

lemma legal_counts:
  "legal_outcome st out \<Longrightarrow> wf_risk st \<Longrightarrow> o_harvests out \<in> {0, 1} \<and> o_reductions out \<in> {0, 1}"
  by (auto simp: legal_outcome_def wf_risk_def split: option.splits exit_reason.splits)

lemma exit_decision_counters:
  assumes "exit_decision i st = Some (r, st')"
  shows "profit_harvest_count st' = (if r_reason r = Some WeeklyHarvest then 1 else profit_harvest_count st)"
    and "defense_reductions st' = (if r_reason r = Some ProgressiveReduction then 1 else defense_reductions st)"
    and "r_reason r = Some WeeklyHarvest \<Longrightarrow> profit_harvest_count st = 0 \<and> r_sell_fraction r = WEEKLY_PROFIT_HARVEST_FRACTION"
    and "r_reason r = Some ProgressiveReduction \<Longrightarrow> defense_reductions st = 0 \<and> r_sell_fraction r = flit 5 10"
    and "r_reason r = Some why \<Longrightarrow> why \<noteq> WeeklyHarvest \<Longrightarrow> why \<noteq> ProgressiveReduction \<Longrightarrow> r_sell_fraction r = fint 1"
proof -
  from assms obtain f where f: "r_reason r = o_reason (exit_cascade i st f)"
    "r_sell_fraction r = o_sell_fraction (exit_cascade i st f)"
    "profit_harvest_count st' = o_harvests (exit_cascade i st f)"
    "defense_reductions st' = o_reductions (exit_cascade i st f)"
    by (rule exit_decision_elim)
  note l = legal_cascade [of st i f]
  show "profit_harvest_count st' = (if r_reason r = Some WeeklyHarvest then 1 else profit_harvest_count st)"
    and "defense_reductions st' = (if r_reason r = Some ProgressiveReduction then 1 else defense_reductions st)"
    and "r_reason r = Some WeeklyHarvest \<Longrightarrow> profit_harvest_count st = 0 \<and> r_sell_fraction r = WEEKLY_PROFIT_HARVEST_FRACTION"
    and "r_reason r = Some ProgressiveReduction \<Longrightarrow> defense_reductions st = 0 \<and> r_sell_fraction r = flit 5 10"
    and "r_reason r = Some why \<Longrightarrow> why \<noteq> WeeklyHarvest \<Longrightarrow> why \<noteq> ProgressiveReduction \<Longrightarrow> r_sell_fraction r = fint 1"
    using l f by (auto simp: legal_outcome_def split: option.splits exit_reason.splits)
qed

text \<open>
  Every review keeps the counters of a position well formed, and moves the harvest and reduction
  counters only by the sale that uses them up.
\<close>

theorem exit_decision_keeps_counters:
  assumes "exit_decision i st = Some (r, st')" and "wf_risk st"
  shows "wf_risk st'
    \<and> profit_harvest_count st' = (if r_reason r = Some WeeklyHarvest then 1 else profit_harvest_count st)
    \<and> defense_reductions st' = (if r_reason r = Some ProgressiveReduction then 1 else defense_reductions st)"
proof -
  from assms(1) obtain f where f: "exit_facts_of i st = Some f"
    "profit_harvest_count st' = o_harvests (exit_cascade i st f)"
    "defense_reductions st' = o_reductions (exit_cascade i st f)"
    "defense_streak st' = f_defense_streak f" "stop_breach_count st' = f_stop_breaches f"
    "gain_protection_streak st' = f_gain_streak f"
    by (rule exit_decision_elim)
  have "wf_risk st'"
    using facts_streaks [OF f(1) assms(2)] legal_counts [OF legal_cascade assms(2), of i f] f by (simp add: wf_risk_def)
  then show ?thesis using exit_decision_counters(1,2) [OF assms(1)] by simp
qed

definition calm_input :: exit_input where
  "calm_input = \<lparr>ex_technical = (\<lambda>k. None), ex_quote_price = Fin 100, ex_average_cost = Fin 100, ex_high_water = Fin 100,
     ex_held_minutes = Fin 1, ex_day_change = Fin 0, ex_market_change = Fin 0, ex_weekly_active = False,
     ex_stop_price = Fin 90, ex_max_position_loss_percent = Fin 1, ex_soft_loss_exit_percent = Fin 1,
     ex_profit_lock_floor_percent = Fin 1, ex_profit_pullback_percent = Fin 1, ex_seconds_to_close = None,
     ex_slippage_rate = Fin 0, ex_fee_rate = Fin 0\<rparr>"

text \<open>The partial sales still open to a position.\<close>

definition open_partials :: "risk_state \<Rightarrow> (exit_reason \<times> pyfloat) set" where
  "open_partials st =
     (if profit_harvest_count st = 0 then {(WeeklyHarvest, WEEKLY_PROFIT_HARVEST_FRACTION)} else {})
     \<union> (if defense_reductions st = 0 then {(ProgressiveReduction, flit 5 10)} else {})"

definition sales_of :: "(exit_reason \<times> pyfloat) set \<Rightarrow> (exit_reason \<times> pyfloat) list \<Rightarrow> bool" where
  "sales_of allowed sales \<longleftrightarrow>
     (\<exists>partial final. sales = partial @ final \<and> distinct partial \<and> set partial \<subseteq> allowed
        \<and> (final = [] \<or> (\<exists>why. final = [(why, fint 1)])))"

lemma sales_of_Nil: "sales_of A []"
  by (auto simp: sales_of_def)

lemma sales_of_final: "sales_of A [(why, fint 1)]"
  unfolding sales_of_def by (rule exI [of _ "[]"]) auto

lemma sales_of_mono: "sales_of A sales \<Longrightarrow> A \<subseteq> B \<Longrightarrow> sales_of B sales"
  by (auto simp: sales_of_def)

lemma sales_of_partial: "sales_of (A - {x}) sales \<Longrightarrow> x \<in> A \<Longrightarrow> sales_of A (x # sales)"
  unfolding sales_of_def
proof (elim exE conjE)
  fix p f assume "sales = p @ f" "distinct p" "set p \<subseteq> A - {x}" "f = [] \<or> (\<exists>why. f = [(why, fint 1)])" "x \<in> A"
  then show "\<exists>p f. x # sales = p @ f \<and> distinct p \<and> set p \<subseteq> A \<and> (f = [] \<or> (\<exists>why. f = [(why, fint 1)]))"
    by (intro exI [of _ "x # p"] exI [of _ f]) auto
qed

lemma open_partials_step:
  assumes "exit_decision i st = Some (r, st')" and "r_reason r = Some why" and "r_sell_fraction r \<noteq> fint 1"
  shows "(why, r_sell_fraction r) \<in> open_partials st"
    and "open_partials st' = open_partials st - {(why, r_sell_fraction r)}"
  using exit_decision_counters [OF assms(1)] assms(2,3) by (cases why; auto simp: open_partials_def)+

lemma run_reviews_sales: "run_reviews st is = Some sales \<Longrightarrow> sales_of (open_partials st) sales"
proof (induction "is" arbitrary: st sales)
  case Nil
  then show ?case by (simp add: sales_of_Nil)
next
  case (Cons i "is")
  from Cons.prems obtain r st' where d: "exit_decision i st = Some (r, st')"
    by (auto elim!: steps)
  show ?case
  proof (cases "r_reason r")
    case None
    have "open_partials st' = open_partials st"
      using exit_decision_counters(1,2) [OF d] None by (simp add: open_partials_def)
    then show ?thesis using Cons d None by fastforce
  next
    case (Some why)
    show ?thesis
    proof (cases "r_sell_fraction r = fint 1")
      case True
      then show ?thesis using Cons.prems d Some by (auto simp: sales_of_final)
    next
      case False
      then obtain rest where "run_reviews st' is = Some rest" "sales = (why, r_sell_fraction r) # rest"
        using Cons.prems d Some by (auto elim!: steps)
      then show ?thesis
        using Cons.IH [of st' rest] open_partials_step [OF d Some False] by (auto intro: sales_of_partial)
    qed
  qed
qed

text \<open>
  C1: over the whole life of a position, however the reviews go, the sales are at most one weekly
  harvest of seventy percent and at most one progressive reduction of one half, in either order,
  then at most one full exit, which ends the run.
\<close>

theorem position_life_sales:
  "case run_reviews fresh_state reviews of
     None \<Rightarrow> True
   | Some sales \<Rightarrow> sales_of {(WeeklyHarvest, WEEKLY_PROFIT_HARVEST_FRACTION), (ProgressiveReduction, flit 5 10)} sales"
  using run_reviews_sales [of fresh_state reviews]
  by (auto simp: open_partials_def fresh_state_def insert_commute split: option.split)

lemma facts_net:
  "exit_facts_of i st = Some f \<Longrightarrow>
     f_net f = estimated_net_exit_pnl_percent (ex_quote_price i) (ex_average_cost i) (ex_slippage_rate i) (ex_fee_rate i)
     \<and> f_max_loss f = effective_max_loss i"
  unfolding exit_facts_of_def by (auto simp: Let_def elim!: steps)

text \<open>
  A review that computes a net loss at or beyond the effective maximum (the configured limit,
  widened by volatility to at most 1.5 percent) always sells the whole position as a hard stop,
  whatever the technical reading, the counters or the time; and a position that is held strictly
  inside the closing window shows no profit to lock in.
\<close>

theorem hard_stop_first:
  assumes "exit_decision i st = Some (r, st')"
  shows "let net = estimated_net_exit_pnl_percent (ex_quote_price i) (ex_average_cost i) (ex_slippage_rate i) (ex_fee_rate i) in
    (fle net (fneg (effective_max_loss i)) \<longrightarrow>
       r = \<lparr>r_reason = Some HardStop, r_sell_fraction = fint 1, r_decision_state = ExitState\<rparr>)
    \<and> (r_reason r = None \<longrightarrow>
         \<not> fle net (fneg (effective_max_loss i))
         \<and> (case ex_seconds_to_close i of None \<Rightarrow> True
            | Some s \<Rightarrow> between (fint 0) s END_OF_DAY_PROFIT_EXIT_LEAD_SECONDS \<longrightarrow> \<not> flt (fint 0) net))"
proof -
  from assms obtain f where f: "exit_facts_of i st = Some f" "r_reason r = o_reason (exit_cascade i st f)"
    "r_sell_fraction r = o_sell_fraction (exit_cascade i st f)" "r_decision_state r = o_hold (exit_cascade i st f)"
    by (rule exit_decision_elim)
  let ?net = "estimated_net_exit_pnl_percent (ex_quote_price i) (ex_average_cost i) (ex_slippage_rate i) (ex_fee_rate i)"
  have n: "f_net f = ?net" "f_max_loss f = effective_max_loss i" using facts_net [OF f(1)] by auto
  have hard: "exit_cascade i st f = full_exit st HardStop" if "fle ?net (fneg (effective_max_loss i))"
    using that n unfolding exit_cascade_def Let_def by simp
  have eod: "exit_cascade i st f = full_exit st EndOfDayProfit"
    if "\<not> fle ?net (fneg (effective_max_loss i))" "ex_seconds_to_close i = Some s"
      "between (fint 0) s END_OF_DAY_PROFIT_EXIT_LEAD_SECONDS" "flt (fint 0) ?net" for s
    using that n unfolding exit_cascade_def Let_def by simp
  have "r = \<lparr>r_reason = Some HardStop, r_sell_fraction = fint 1, r_decision_state = ExitState\<rparr>"
    if "fle ?net (fneg (effective_max_loss i))"
    using hard [OF that] f(2-4) by (simp add: full_exit_def)
  moreover have "\<not> fle ?net (fneg (effective_max_loss i))" if "r_reason r = None"
    using hard f(2) that by (auto simp: full_exit_def)
  moreover have "\<not> flt (fint 0) ?net"
    if "r_reason r = None" "ex_seconds_to_close i = Some s" "between (fint 0) s END_OF_DAY_PROFIT_EXIT_LEAD_SECONDS" for s
    using hard eod [OF _ that(2,3)] f(2) that(1)
    by (cases "fle ?net (fneg (effective_max_loss i))"; cases "flt (fint 0) ?net")
      (simp_all add: full_exit_def del: fint_0)
  ultimately show ?thesis unfolding Let_def by (auto split: option.split simp del: fint_0)
qed

definition losing_input :: exit_input where
  "losing_input = calm_input\<lparr>ex_quote_price := Fin 90\<rparr>"

lemma hard_stop_first_witness:
  "\<exists>st'. exit_decision losing_input fresh_state =
     Some (\<lparr>r_reason = Some HardStop, r_sell_fraction = fint 1, r_decision_state = ExitState\<rparr>, st')"
proof -
  have "\<exists>r st'. exit_decision losing_input fresh_state = Some (r, st')"
    by (simp add: exit_decision_def exit_facts_of_def losing_input_def calm_input_def py_div_def Let_def)
  then obtain r st' where r: "exit_decision losing_input fresh_state = Some (r, st')" by blast
  have "fle (estimated_net_exit_pnl_percent (ex_quote_price losing_input) (ex_average_cost losing_input)
      (ex_slippage_rate losing_input) (ex_fee_rate losing_input)) (fneg (effective_max_loss losing_input))"
    by code_simp
  then show ?thesis using r hard_stop_first [OF r] by (auto simp: Let_def)
qed

lemma py_max_not_NaN: "x \<noteq> NaN \<Longrightarrow> py_max x y \<noteq> NaN"
  by (cases x; cases y) (auto simp: py_max_def)

lemma py_max_keeps: "fle a x \<Longrightarrow> fle a (py_max x y)"
  using fle_trans py_max_ge1 by (metis fle_NaN(2))

text \<open>
  the stop a review works with is never below the stop stored with the position, and never
  below the quote at which the effective maximum loss is reached, however the high water moves.
\<close>

theorem exit_stop_never_loosens:
  assumes "ex_stop_price i \<noteq> NaN"
  shows "fle (ex_stop_price i) (exit_stop i net_peak)
    \<and> (let hard = hard_stop_quote_price (ex_average_cost i) (effective_max_loss i) (ex_slippage_rate i) (ex_fee_rate i)
       in hard = NaN \<or> fle hard (exit_stop i net_peak))"
proof -
  let ?hard = "hard_stop_quote_price (ex_average_cost i) (effective_max_loss i) (ex_slippage_rate i) (ex_fee_rate i)"
  have up: "fle b (exit_stop i net_peak)"
    if "\<And>trailing. fle b (py_max (py_max (ex_stop_price i) trailing) ?hard)" for b
    unfolding exit_stop_def Let_def by (simp add: py_max_keeps that)
  have "fle ?hard (py_max (py_max (ex_stop_price i) t) ?hard)" if "?hard \<noteq> NaN" for t
    using that py_max_not_NaN [OF assms, of t] not_fle_flt [of ?hard "py_max (ex_stop_price i) t"]
    by (auto simp: py_max_def fle_refl_iff split: if_splits)
  then have "?hard \<noteq> NaN \<Longrightarrow> fle ?hard (exit_stop i net_peak)" by (intro up)
  moreover have "fle (ex_stop_price i) (exit_stop i net_peak)"
    using assms by (intro up py_max_keeps) (simp add: fle_refl_iff)
  ultimately show ?thesis by (auto simp: Let_def)
qed

lemma exit_stop_never_loosens_witness: "fle (Fin 90) (exit_stop calm_input (Fin 0))"
  using exit_stop_never_loosens [of calm_input "Fin 0"] by (simp add: calm_input_def)

end
