(* ===== verification/ReadCache.thy ===== *)
theory ReadCache
  imports PyFloat
begin

text \<open>
  \<open>c3po/backend/app/read_cache.py\<close>: the single-flight cache of read-only payloads.  The critical
  sections under \<open>self._lock\<close> are state functions on \<open>cache_state\<close>; the dictionaries are maps, and a
  flight object is its index in the list of all flights ever made, so \<open>inflight is self._inflight[key]\<close>
  is equality of indices.  The threads between the critical sections are a step relation.  What
  \<open>compute\<close> returns is a parameter: \<open>produces k f v\<close> says that the computation of flight \<open>f\<close>, for
  key \<open>k\<close>, may return \<open>v\<close>.
\<close>

section \<open>The session clock\<close>

text \<open>
  \<open>MarketSessionClock.is_open\<close>.  The exchange calendar (a third-party package) and the New York date
  of an instant are parameters; an instant is a number of seconds.
\<close>

definition is_open ::
    "('day \<Rightarrow> bool) \<Rightarrow> ('day \<Rightarrow> int) \<Rightarrow> ('day \<Rightarrow> int) \<Rightarrow> (int \<Rightarrow> 'day) \<Rightarrow> int \<Rightarrow> bool" where
  "is_open is_session session_open session_close local_date moment =
     (let session = local_date moment in
      if \<not> is_session session then False
      else session_open session \<le> moment \<and> moment < session_close session)"

section \<open>The cache\<close>

type_synonym key = string

record read_cache_counters =
  hits :: nat
  misses :: nat
  coalesced :: nat
  errors :: nat
  invalidations :: nat

record 'v entry =
  en_value :: 'v
  en_expires_at :: pyfloat

record 'v in_flight =
  fl_result :: "(string + 'v) option"
  fl_epoch :: nat
  fl_generation :: nat

record 'v cache_state =
  entries :: "key \<Rightarrow> 'v entry option"
  inflight :: "key \<Rightarrow> nat option"
  epoch :: nat
  generations :: "key \<Rightarrow> nat option"
  counters :: read_cache_counters
  flights :: "'v in_flight list"

definition empty_cache :: "'v cache_state" where
  "empty_cache = \<lparr>entries = (\<lambda>k. None), inflight = (\<lambda>k. None), epoch = 0, generations = (\<lambda>k. None),
     counters = \<lparr>hits = 0, misses = 0, coalesced = 0, errors = 0, invalidations = 0\<rparr>, flights = []\<rparr>"

definition generation_of :: "'v cache_state \<Rightarrow> key \<Rightarrow> nat" where
  "generation_of c k = (case generations c k of None \<Rightarrow> 0 | Some g \<Rightarrow> g)"

datatype 'v enter = Hit 'v | Join nat | Lead nat nat nat

text \<open>
  The first critical section of \<open>get\<close>, at clock reading \<open>now\<close>: a hit returns the value, a live flight
  of the current epoch and generation is joined, and otherwise the caller leads a new flight.
\<close>

definition get_enter :: "key \<Rightarrow> pyfloat \<Rightarrow> 'v cache_state \<Rightarrow> 'v enter \<times> 'v cache_state" where
  "get_enter k now c =
     (let lead = (let f = length (flights c); g = generation_of c k; obj = \<lparr>fl_result = None, fl_epoch = epoch c, fl_generation = g\<rparr>
                  in (Lead f (epoch c) g,
                      c\<lparr>flights := flights c @ [obj], inflight := (inflight c)(k \<mapsto> f),
                        counters := (counters c)\<lparr>misses := misses (counters c) + 1\<rparr>\<rparr>));
          look = (case inflight c k of
             Some f \<Rightarrow>
               if fl_epoch (flights c ! f) = epoch c \<and> fl_generation (flights c ! f) = generation_of c k
               then (Join f, c\<lparr>counters := (counters c)\<lparr>coalesced := coalesced (counters c) + 1\<rparr>\<rparr>)
               else lead
           | None \<Rightarrow> lead)
      in case entries c k of
           Some e \<Rightarrow>
             if flt now (en_expires_at e)
             then (Hit (en_value e), c\<lparr>counters := (counters c)\<lparr>hits := hits (counters c) + 1\<rparr>\<rparr>)
             else look
         | None \<Rightarrow> look)"

text \<open>\<open>ttl = max(0.0, float(self._ttl_seconds()))\<close>.\<close>

definition clamp_ttl :: "pyfloat \<Rightarrow> pyfloat" where
  "clamp_ttl ttl = py_max (fint 0) ttl"

definition drop_flight :: "key \<Rightarrow> nat \<Rightarrow> 'v cache_state \<Rightarrow> 'v cache_state" where
  "drop_flight k f c = (if inflight c k = Some f then c\<lparr>inflight := (inflight c)(k := None)\<rparr> else c)"

text \<open>The second critical section of \<open>get\<close>, after the computation.\<close>

definition get_store ::
    "key \<Rightarrow> nat \<Rightarrow> nat \<Rightarrow> nat \<Rightarrow> pyfloat \<Rightarrow> pyfloat \<Rightarrow> 'v \<Rightarrow> 'v cache_state \<Rightarrow> 'v cache_state" where
  "get_store k f ep g started ttl v c =
     drop_flight k f
       (if epoch c = ep \<and> generation_of c k = g
        then c\<lparr>entries := (entries c)(k \<mapsto> \<lparr>en_value = v, en_expires_at = fadd started ttl\<rparr>)\<rparr> else c)"

definition fail_flight :: "key \<Rightarrow> nat \<Rightarrow> 'v cache_state \<Rightarrow> 'v cache_state" where
  "fail_flight k f c = drop_flight k f (c\<lparr>counters := (counters c)\<lparr>errors := errors (counters c) + 1\<rparr>\<rparr>)"

text \<open>The assignment of the flight's value or error, and \<open>done.set()\<close>.\<close>

definition publish :: "nat \<Rightarrow> string + 'v \<Rightarrow> 'v cache_state \<Rightarrow> 'v cache_state" where
  "publish f r c = c\<lparr>flights := (flights c)[f := (flights c ! f)\<lparr>fl_result := Some r\<rparr>]\<rparr>"

definition invalidate :: "key option \<Rightarrow> 'v cache_state \<Rightarrow> 'v cache_state" where
  "invalidate target c =
     (let c' = (case target of
          None \<Rightarrow> c\<lparr>entries := (\<lambda>k. None), inflight := (\<lambda>k. None), epoch := epoch c + 1\<rparr>
        | Some k \<Rightarrow> c\<lparr>entries := (entries c)(k := None), inflight := (inflight c)(k := None),
                      generations := (generations c)(k \<mapsto> generation_of c k + 1)\<rparr>)
      in c'\<lparr>counters := (counters c')\<lparr>invalidations := invalidations (counters c') + 1\<rparr>\<rparr>)"

section \<open>Threads\<close>

text \<open>
  Where a call of \<open>get\<close> stands.  The last number of \<open>Waiting\<close>, \<open>Leading\<close>, \<open>Computed\<close> and
  \<open>Returned\<close> is a history variable: the number of flights made before the last invalidation of the
  key that preceded the call.  \<open>mark\<close> and \<open>fkeys\<close> are history too: that number for each key, and the key
  and start of each flight.
\<close>

datatype 'v pc =
    Idle
  | Waiting key nat nat
  | Leading key nat nat nat pyfloat nat
  | Computed key nat nat nat pyfloat pyfloat 'v nat
  | Failing key nat string
  | Publishing key nat "string + 'v" nat
  | Returned key 'v nat
  | Raised key string

record 'v sys =
  cache :: "'v cache_state"
  pcs :: "nat \<Rightarrow> 'v pc"
  mark :: "key \<Rightarrow> nat"
  fkeys :: "(key \<times> pyfloat) list"

definition start_sys :: "'v sys" where
  "start_sys = \<lparr>cache = empty_cache, pcs = (\<lambda>t. Idle), mark = (\<lambda>k. 0), fkeys = []\<rparr>"

abbreviation set_pc :: "'v sys \<Rightarrow> nat \<Rightarrow> 'v pc \<Rightarrow> 'v sys" where
  "set_pc s t p \<equiv> s\<lparr>pcs := (pcs s)(t := p)\<rparr>"

inductive cache_step :: "(key \<Rightarrow> nat \<Rightarrow> 'v \<Rightarrow> bool) \<Rightarrow> 'v sys \<Rightarrow> 'v sys \<Rightarrow> bool" for produces where
  step_hit: "pcs s t = Idle \<Longrightarrow> get_enter k now (cache s) = (Hit v, c) \<Longrightarrow>
    cache_step produces s (set_pc (s\<lparr>cache := c\<rparr>) t (Returned k v (mark s k)))"
| step_join: "pcs s t = Idle \<Longrightarrow> get_enter k now (cache s) = (Join f, c) \<Longrightarrow>
    cache_step produces s (set_pc (s\<lparr>cache := c\<rparr>) t (Waiting k f (mark s k)))"
| step_lead: "pcs s t = Idle \<Longrightarrow> get_enter k now (cache s) = (Lead f ep g, c) \<Longrightarrow>
    cache_step produces s (set_pc (s\<lparr>cache := c, fkeys := fkeys s @ [(k, started)]\<rparr>) t (Leading k f ep g started (mark s k)))"
| step_compute: "pcs s t = Leading k f ep g started m \<Longrightarrow> produces k f v \<Longrightarrow>
    cache_step produces s (set_pc s t (Computed k f ep g started (clamp_ttl ttl) v m))"
| step_error: "pcs s t = Leading k f ep g started m \<Longrightarrow>
    cache_step produces s (set_pc s t (Failing k f e))"
| step_store: "pcs s t = Computed k f ep g started ttl v m \<Longrightarrow>
    cache_step produces s (set_pc (s\<lparr>cache := get_store k f ep g started ttl v (cache s)\<rparr>) t (Publishing k f (Inr v) m))"
| step_fail: "pcs s t = Failing k f e \<Longrightarrow>
    cache_step produces s (set_pc (s\<lparr>cache := fail_flight k f (cache s)\<rparr>) t (Publishing k f (Inl e) 0))"
| step_publish: "pcs s t = Publishing k f r m \<Longrightarrow>
    cache_step produces s (set_pc (s\<lparr>cache := publish f r (cache s)\<rparr>) t
      (case r of Inl e \<Rightarrow> Raised k e | Inr v \<Rightarrow> Returned k v m))"
| step_wake: "pcs s t = Waiting k f m \<Longrightarrow> fl_result (flights (cache s) ! f) = Some r \<Longrightarrow>
    cache_step produces s (set_pc s t (case r of Inl e \<Rightarrow> Raised k e | Inr v \<Rightarrow> Returned k v m))"
| step_invalidate: "cache_step produces s
    (s\<lparr>cache := invalidate target (cache s),
       mark := (\<lambda>k. if target = None \<or> target = Some k then length (flights (cache s)) else mark s k)\<rparr>)"
| step_again: "pcs s t = Returned k v m \<or> pcs s t = Raised k e \<Longrightarrow> cache_step produces s (set_pc s t Idle)"

inductive cache_reachable :: "(key \<Rightarrow> nat \<Rightarrow> 'v \<Rightarrow> bool) \<Rightarrow> 'v sys \<Rightarrow> bool" for produces where
  reach_start: "cache_reachable produces start_sys"
| reach_step: "cache_reachable produces s \<Longrightarrow> cache_step produces s s' \<Longrightarrow> cache_reachable produces s'"

inductive_cases cache_stepE: "cache_step produces s s'"

section \<open>Invariants\<close>

definition current :: "'v cache_state \<Rightarrow> (key \<times> pyfloat) list \<Rightarrow> nat \<Rightarrow> bool" where
  "current c fk f \<longleftrightarrow>
     fl_epoch (flights c ! f) = epoch c \<and> fl_generation (flights c ! f) = generation_of c (fst (fk ! f))"

lemma generation_of_upd [simp]:
  "generation_of (c\<lparr>counters := x\<rparr>) k = generation_of c k"
  "generation_of (c\<lparr>inflight := i\<rparr>) k = generation_of c k"
  "generation_of (c\<lparr>entries := e\<rparr>) k = generation_of c k"
  "generation_of (c\<lparr>flights := fs\<rparr>) k = generation_of c k"
  "generation_of (c\<lparr>epoch := n\<rparr>) k = generation_of c k"
  "generation_of (c\<lparr>generations := (generations d)(k' \<mapsto> g)\<rparr>) k = (if k = k' then g else generation_of d k)"
  by (simp_all add: generation_of_def)

lemma current_upd [simp]:
  "current (c\<lparr>counters := x\<rparr>) fk f = current c fk f"
  "current (c\<lparr>inflight := i\<rparr>) fk f = current c fk f"
  "current (c\<lparr>entries := e\<rparr>) fk f = current c fk f"
  by (simp_all add: current_def)

definition flight_ok ::
    "(key \<Rightarrow> nat \<Rightarrow> 'v \<Rightarrow> bool) \<Rightarrow> 'v cache_state \<Rightarrow> (key \<Rightarrow> nat) \<Rightarrow> (key \<times> pyfloat) list \<Rightarrow> nat \<Rightarrow> bool" where
  "flight_ok produces c marks fk f \<longleftrightarrow>
     fl_epoch (flights c ! f) \<le> epoch c \<and> fl_generation (flights c ! f) \<le> generation_of c (fst (fk ! f))
     \<and> (current c fk f \<longrightarrow> marks (fst (fk ! f)) \<le> f)
     \<and> (\<forall>v. fl_result (flights c ! f) = Some (Inr v) \<longrightarrow> produces (fst (fk ! f)) f v)"

definition entry_ok ::
    "(key \<Rightarrow> nat \<Rightarrow> 'v \<Rightarrow> bool) \<Rightarrow> (key \<Rightarrow> nat) \<Rightarrow> (key \<times> pyfloat) list \<Rightarrow> key \<Rightarrow> 'v entry \<Rightarrow> bool" where
  "entry_ok produces marks fk k e \<longleftrightarrow>
     (\<exists>f<length fk. marks k \<le> f \<and> fst (fk ! f) = k \<and> produces k f (en_value e)
        \<and> (\<exists>ttl. en_expires_at e = fadd (snd (fk ! f)) (clamp_ttl ttl)))"

definition cache_inv ::
    "(key \<Rightarrow> nat \<Rightarrow> 'v \<Rightarrow> bool) \<Rightarrow> 'v cache_state \<Rightarrow> (key \<Rightarrow> nat) \<Rightarrow> (key \<times> pyfloat) list \<Rightarrow> bool" where
  "cache_inv produces c marks fk \<longleftrightarrow>
     length fk = length (flights c) \<and> (\<forall>k. marks k \<le> length fk)
     \<and> (\<forall>f<length fk. flight_ok produces c marks fk f)
     \<and> (\<forall>k f. inflight c k = Some f \<longrightarrow> f < length fk \<and> fst (fk ! f) = k \<and> current c fk f)
     \<and> (\<forall>k e. entries c k = Some e \<longrightarrow> entry_ok produces marks fk k e)"

lemma get_enter_cases:
  obtains (hit) e where "get_enter k now c = (Hit (en_value e), c\<lparr>counters := (counters c)\<lparr>hits := hits (counters c) + 1\<rparr>\<rparr>)"
      and "entries c k = Some e" and "flt now (en_expires_at e)"
  | (join) f where "get_enter k now c = (Join f, c\<lparr>counters := (counters c)\<lparr>coalesced := coalesced (counters c) + 1\<rparr>\<rparr>)"
      and "inflight c k = Some f" and "fl_epoch (flights c ! f) = epoch c"
      and "fl_generation (flights c ! f) = generation_of c k"
  | (lead) "get_enter k now c = (Lead (length (flights c)) (epoch c) (generation_of c k),
        c\<lparr>flights := flights c @ [\<lparr>fl_result = None, fl_epoch = epoch c, fl_generation = generation_of c k\<rparr>],
          inflight := (inflight c)(k \<mapsto> length (flights c)),
          counters := (counters c)\<lparr>misses := misses (counters c) + 1\<rparr>\<rparr>)"
      and "\<And>f. inflight c k = Some f \<Longrightarrow>
        \<not> (fl_epoch (flights c ! f) = epoch c \<and> fl_generation (flights c ! f) = generation_of c k)"
proof (cases "\<exists>e. entries c k = Some e \<and> flt now (en_expires_at e)")
  case True
  then show ?thesis by (auto simp: get_enter_def Let_def intro: hit)
next
  case False
  show ?thesis
  proof (cases "\<exists>f. inflight c k = Some f \<and> fl_epoch (flights c ! f) = epoch c \<and> fl_generation (flights c ! f) = generation_of c k")
    case True
    then obtain f where "inflight c k = Some f" "fl_epoch (flights c ! f) = epoch c"
      "fl_generation (flights c ! f) = generation_of c k" by blast
    then show ?thesis using False by (intro join [of f]) (auto simp: get_enter_def Let_def split: option.splits)
  next
    case none: False
    then show ?thesis using False by (intro lead) (auto simp: get_enter_def Let_def split: option.splits)
  qed
qed

lemma cache_invD:
  assumes "cache_inv produces c marks fk"
  shows "length fk = length (flights c)" and "marks k \<le> length fk"
    and "f < length fk \<Longrightarrow> flight_ok produces c marks fk f"
    and "inflight c k = Some f \<Longrightarrow> f < length fk \<and> fst (fk ! f) = k \<and> current c fk f"
    and "entries c k = Some e \<Longrightarrow> entry_ok produces marks fk k e"
  using assms by (auto simp: cache_inv_def)

lemma cache_inv_counters [keeps]: "cache_inv produces c marks fk \<Longrightarrow> cache_inv produces (c\<lparr>counters := x\<rparr>) marks fk"
  by (auto simp: cache_inv_def flight_ok_def)

lemma cache_inv_drop [keeps]: "cache_inv produces c marks fk \<Longrightarrow> cache_inv produces (drop_flight k f c) marks fk"
  by (auto simp: drop_flight_def cache_inv_def flight_ok_def)

lemma cache_inv_fail [keeps]: "cache_inv produces c marks fk \<Longrightarrow> cache_inv produces (fail_flight k f c) marks fk"
  by (simp add: fail_flight_def keeps)

lemma cache_inv_store [keeps]:
  assumes "cache_inv produces c marks fk" and "f < length fk" and "fst (fk ! f) = k" and "snd (fk ! f) = started"
    and "ep = fl_epoch (flights c ! f)" and "g = fl_generation (flights c ! f)" and "produces k f v"
  shows "cache_inv produces (get_store k f ep g started (clamp_ttl ttl) v c) marks fk"
  using assms unfolding get_store_def
  by (intro cache_inv_drop) (auto simp: cache_inv_def flight_ok_def entry_ok_def current_def)

lemma nth_list_update': "xs[f := x] ! i = (if f = i \<and> f < length xs then x else xs ! i)"
  by (cases "f < length xs") (simp_all add: nth_list_update list_update_beyond)

lemma publish_simps [simp]:
  "fl_epoch (flights (publish f r c) ! i) = fl_epoch (flights c ! i)"
  "fl_generation (flights (publish f r c) ! i) = fl_generation (flights c ! i)"
  "i < length (flights c) \<Longrightarrow> fl_result (flights (publish f r c) ! i) = (if i = f then Some r else fl_result (flights c ! i))"
  "length (flights (publish f r c)) = length (flights c)" "entries (publish f r c) = entries c"
  "inflight (publish f r c) = inflight c" "epoch (publish f r c) = epoch c"
  "generation_of (publish f r c) k = generation_of c k" "current (publish f r c) fk i = current c fk i"
proof -
  show e: "fl_epoch (flights (publish f r c) ! i) = fl_epoch (flights c ! i)"
    and g: "fl_generation (flights (publish f r c) ! i) = fl_generation (flights c ! i)"
    by (simp_all add: publish_def nth_list_update')
  show "current (publish f r c) fk i = current c fk i"
    unfolding current_def e g by (simp add: publish_def)
qed (simp_all add: publish_def nth_list_update' generation_of_def)

lemma cache_inv_publish [keeps]:
  assumes "cache_inv produces c marks fk" and "\<And>v. r = Inr v \<Longrightarrow> produces (fst (fk ! f)) f v"
  shows "cache_inv produces (publish f r c) marks fk"
proof -
  have "flight_ok produces (publish f r c) marks fk i" if i: "i < length fk" for i
  proof -
    have "flight_ok produces c marks fk i" using cache_invD(3) [OF assms(1)] i by blast
    then show ?thesis
      using assms(2) i unfolding flight_ok_def cache_invD(1) [OF assms(1)] by (cases "i = f") simp_all
  qed
  then show ?thesis using assms(1) unfolding cache_inv_def publish_simps by blast
qed

lemma entry_ok_append: "entry_ok produces marks fk k e \<Longrightarrow> entry_ok produces marks (fk @ x) k e"
  unfolding entry_ok_def
proof (elim exE conjE)
  fix f ttl assume "f < length fk" "marks k \<le> f" "fst (fk ! f) = k" "produces k f (en_value e)"
    "en_expires_at e = fadd (snd (fk ! f)) (clamp_ttl ttl)"
  then show "\<exists>f<length (fk @ x). marks k \<le> f \<and> fst ((fk @ x) ! f) = k \<and> produces k f (en_value e)
      \<and> (\<exists>ttl. en_expires_at e = fadd (snd ((fk @ x) ! f)) (clamp_ttl ttl))"
    by (intro exI [of _ f]) (auto simp: nth_append)
qed

lemma entry_ok_marks: "i \<noteq> k \<Longrightarrow>
    entry_ok produces (\<lambda>i. if k = i then n else marks i) fk i e = entry_ok produces marks fk i e"
  by (simp add: entry_ok_def)

lemma cache_inv_lead [keeps]:
  assumes "cache_inv produces c marks fk"
  shows "cache_inv produces
    (c\<lparr>flights := flights c @ [\<lparr>fl_result = None, fl_epoch = epoch c, fl_generation = generation_of c k\<rparr>],
       inflight := (inflight c)(k \<mapsto> length (flights c)), counters := x\<rparr>) marks (fk @ [(k, started)])"
  using assms
  by (auto simp: cache_inv_def flight_ok_def current_def nth_append less_Suc_eq intro: le_SucI entry_ok_append)

lemma cache_inv_invalidate [keeps]:
  assumes "cache_inv produces c marks fk"
  shows "cache_inv produces (invalidate target c)
    (\<lambda>k. if target = None \<or> target = Some k then length (flights c) else marks k) fk"
proof (cases target)
  case None
  then show ?thesis
    using assms by (auto simp: invalidate_def Let_def cache_inv_def flight_ok_def current_def intro: le_SucI)
next
  case (Some k)
  have "flight_ok produces (invalidate target c)
      (\<lambda>k. if target = None \<or> target = Some k then length (flights c) else marks k) fk f" if "f < length fk" for f
    using assms that Some by (auto simp: cache_inv_def invalidate_def flight_ok_def current_def Let_def intro: le_SucI)
  then show ?thesis
    using assms Some
    by (auto simp: invalidate_def Let_def cache_inv_def current_def entry_ok_marks split: if_splits)
qed

text \<open>What the place of a thread says about its flight.\<close>

definition pc_ok :: "(key \<Rightarrow> nat \<Rightarrow> 'v \<Rightarrow> bool) \<Rightarrow> 'v cache_state \<Rightarrow> (key \<times> pyfloat) list \<Rightarrow> 'v pc \<Rightarrow> bool" where
  "pc_ok produces c fk p \<longleftrightarrow>
     (let own = (\<lambda>k f. f < length fk \<and> fst (fk ! f) = k);
          token = (\<lambda>f ep g. ep = fl_epoch (flights c ! f) \<and> g = fl_generation (flights c ! f)) in
      case p of
        Idle \<Rightarrow> True
      | Waiting k f m \<Rightarrow> own k f \<and> m \<le> f
      | Leading k f ep g started m \<Rightarrow> own k f \<and> token f ep g \<and> snd (fk ! f) = started \<and> m \<le> f
      | Computed k f ep g started ttl v m \<Rightarrow> own k f \<and> token f ep g \<and> snd (fk ! f) = started \<and> m \<le> f
          \<and> produces k f v \<and> (\<exists>t. ttl = clamp_ttl t)
      | Failing k f e \<Rightarrow> own k f
      | Publishing k f r m \<Rightarrow> own k f \<and> (\<forall>v. r = Inr v \<longrightarrow> produces k f v \<and> m \<le> f)
      | Returned k v m \<Rightarrow> (\<exists>f\<ge>m. f < length fk \<and> fst (fk ! f) = k \<and> produces k f v)
      | Raised k e \<Rightarrow> True)"

text \<open>The flight a thread leads, before and after it left the in-flight table.\<close>

fun flying :: "'v pc \<Rightarrow> nat option" where
  "flying (Leading k f ep g started m) = Some f"
| "flying (Computed k f ep g started ttl v m) = Some f"
| "flying (Failing k f e) = Some f"
| "flying _ = None"

fun owned :: "'v pc \<Rightarrow> nat option" where
  "owned (Publishing k f r m) = Some f"
| "owned p = flying p"

lemma flying_owned: "flying p = Some f \<Longrightarrow> owned p = Some f"
  by (cases p) auto

definition leaders_inv :: "'v sys \<Rightarrow> bool" where
  "leaders_inv s \<longleftrightarrow>
     (\<forall>t f. owned (pcs s t) = Some f \<longrightarrow> f < length (fkeys s))
     \<and> (\<forall>t t' f. owned (pcs s t) = Some f \<longrightarrow> owned (pcs s t') = Some f \<longrightarrow> t = t')
     \<and> (\<forall>t f. flying (pcs s t) = Some f \<longrightarrow> current (cache s) (fkeys s) f \<longrightarrow>
            inflight (cache s) (fst (fkeys s ! f)) = Some f)
     \<and> (\<forall>f<length (fkeys s). fl_result (flights (cache s) ! f) = None \<longrightarrow> (\<exists>t. owned (pcs s t) = Some f))"

definition sys_inv :: "(key \<Rightarrow> nat \<Rightarrow> 'v \<Rightarrow> bool) \<Rightarrow> 'v sys \<Rightarrow> bool" where
  "sys_inv produces s \<longleftrightarrow>
     cache_inv produces (cache s) (mark s) (fkeys s)
     \<and> (\<forall>t. pc_ok produces (cache s) (fkeys s) (pcs s t))"

text \<open>A thread's fact survives every change that keeps the tokens of the flights and only adds flights.\<close>

lemma pc_ok_mono:
  assumes "pc_ok produces c fk p"
    and "\<And>f. f < length fk \<Longrightarrow> fl_epoch (flights c' ! f) = fl_epoch (flights c ! f)
      \<and> fl_generation (flights c' ! f) = fl_generation (flights c ! f)"
  shows "pc_ok produces c' (fk @ x) p"
  using assms by (cases p) (auto simp: pc_ok_def nth_append Let_def intro: trans_less_add1)

lemma pc_ok_same:
  assumes "pc_ok produces c fk p"
    and "\<And>f. fl_epoch (flights c' ! f) = fl_epoch (flights c ! f)
      \<and> fl_generation (flights c' ! f) = fl_generation (flights c ! f)"
  shows "pc_ok produces c' fk p"
  using pc_ok_mono [OF assms(1), of c' "[]"] assms(2) by simp

lemma flights_same [simp]:
  "flights (get_store k f ep g started ttl v c) = flights c" "flights (fail_flight k f c) = flights c"
  "flights (drop_flight k f c) = flights c" "flights (invalidate target c) = flights c"
  by (simp_all add: get_store_def fail_flight_def drop_flight_def invalidate_def Let_def split: option.split)

lemma sys_inv_set:
  assumes "sys_inv produces s" and "cache_inv produces c' (mark s) (fkeys s @ x)"
    and "\<And>f. f < length (fkeys s) \<Longrightarrow> fl_epoch (flights c' ! f) = fl_epoch (flights (cache s) ! f)
      \<and> fl_generation (flights c' ! f) = fl_generation (flights (cache s) ! f)"
    and "pc_ok produces c' (fkeys s @ x) p"
  shows "sys_inv produces (set_pc (s\<lparr>cache := c', fkeys := fkeys s @ x\<rparr>) t p)"
  using assms pc_ok_mono [OF _ assms(3)] by (simp add: sys_inv_def)

lemma sys_inv_set0:
  assumes "sys_inv produces s" and "cache_inv produces c' (mark s) (fkeys s)"
    and "\<And>f. fl_epoch (flights c' ! f) = fl_epoch (flights (cache s) ! f)
      \<and> fl_generation (flights c' ! f) = fl_generation (flights (cache s) ! f)"
    and "pc_ok produces c' (fkeys s) p"
  shows "sys_inv produces (set_pc (s\<lparr>cache := c'\<rparr>) t p)"
  using assms pc_ok_same [OF _ assms(3)] by (simp add: sys_inv_def)

lemma sys_inv_pc:
  "sys_inv produces s \<Longrightarrow> pc_ok produces (cache s) (fkeys s) p \<Longrightarrow> sys_inv produces (set_pc s t p)"
  by (simp add: sys_inv_def)

lemma sys_inv_cache: "sys_inv produces s \<Longrightarrow> cache_inv produces (cache s) (mark s) (fkeys s)"
  by (simp add: sys_inv_def)

lemma sys_inv_pcs: "sys_inv produces s \<Longrightarrow> pcs s t = p \<Longrightarrow> pc_ok produces (cache s) (fkeys s) p"
  by (auto simp: sys_inv_def)

lemma sys_inv_step:
  assumes "cache_step produces s s'" and i: "sys_inv produces s"
  shows "sys_inv produces s'"
  using assms(1)
proof cases
  case (step_hit t k now v c')
  obtain e where e: "c' = (cache s)\<lparr>counters := counters c'\<rparr>" "entries (cache s) k = Some e" "v = en_value e"
    using step_hit(3) by - (rule get_enter_cases [where k = k and now = now and c = "cache s"]; auto)
  have "pc_ok produces c' (fkeys s) (Returned k v (mark s k))"
    using cache_invD(5) [OF sys_inv_cache [OF i] e(2)] e(3) by (auto simp: pc_ok_def entry_ok_def)
  moreover have "cache_inv produces c' (mark s) (fkeys s)"
    by (subst e(1)) (rule cache_inv_counters [OF sys_inv_cache [OF i]])
  moreover have "flights c' = flights (cache s)" by (subst e(1)) simp
  ultimately show ?thesis unfolding step_hit(1) by (intro sys_inv_set0 [OF i]) simp_all
next
  case (step_join t k now f c')
  have e: "c' = (cache s)\<lparr>counters := counters c'\<rparr>" "inflight (cache s) k = Some f"
    using step_join(3) by - (rule get_enter_cases [where k = k and now = now and c = "cache s"]; auto)+
  have f: "f < length (fkeys s)" "fst (fkeys s ! f) = k" "current (cache s) (fkeys s) f"
    using cache_invD(4) [OF sys_inv_cache [OF i] e(2)] by auto
  have "mark s k \<le> f"
    using cache_invD(3) [OF sys_inv_cache [OF i] f(1)] f by (simp add: flight_ok_def)
  then have "pc_ok produces c' (fkeys s) (Waiting k f (mark s k))" using f by (simp add: pc_ok_def)
  moreover have "cache_inv produces c' (mark s) (fkeys s)"
    by (subst e(1)) (rule cache_inv_counters [OF sys_inv_cache [OF i]])
  moreover have "flights c' = flights (cache s)" by (subst e(1)) simp
  ultimately show ?thesis unfolding step_join(1) by (intro sys_inv_set0 [OF i]) simp_all
next
  case (step_lead t k now f ep g c' started)
  have e: "c' = (cache s)\<lparr>flights := flights (cache s) @ [\<lparr>fl_result = None, fl_epoch = epoch (cache s),
        fl_generation = generation_of (cache s) k\<rparr>], inflight := (inflight (cache s))(k \<mapsto> length (flights (cache s))),
        counters := counters c'\<rparr>" "f = length (flights (cache s))" "ep = epoch (cache s)" "g = generation_of (cache s) k"
    using step_lead(3) by - (rule get_enter_cases [where k = k and now = now and c = "cache s"]; auto)+
  have l: "length (fkeys s) = length (flights (cache s))" and m: "mark s k \<le> length (fkeys s)"
    using cache_invD(1,2) [OF sys_inv_cache [OF i]] by auto
  have fl: "flights c' = flights (cache s) @ [\<lparr>fl_result = None, fl_epoch = epoch (cache s),
      fl_generation = generation_of (cache s) k\<rparr>]" by (subst e(1)) simp
  have "cache_inv produces c' (mark s) (fkeys s @ [(k, started)])"
    by (subst e(1)) (rule cache_inv_lead [OF sys_inv_cache [OF i]])
  then show ?thesis
    unfolding step_lead(1) using l m
    by (intro sys_inv_set [OF i]) (simp_all add: fl nth_append pc_ok_def e(2-4))
next
  case (step_compute t k f ep g started m v ttl)
  then show ?thesis using sys_inv_pcs [OF i step_compute(2)] by (auto simp: pc_ok_def intro!: sys_inv_pc [OF i])
next
  case (step_error t k f ep g started m e)
  then show ?thesis using sys_inv_pcs [OF i step_error(2)] by (auto simp: pc_ok_def intro!: sys_inv_pc [OF i])
next
  case (step_store t k f ep g started ttl v m)
  from sys_inv_pcs [OF i step_store(2)] obtain ttl' where
    o: "f < length (fkeys s)" "fst (fkeys s ! f) = k" "snd (fkeys s ! f) = started" "produces k f v" "m \<le> f"
      "ep = fl_epoch (flights (cache s) ! f)" "g = fl_generation (flights (cache s) ! f)" "ttl = clamp_ttl ttl'"
    by (auto simp: pc_ok_def)
  have "cache_inv produces (get_store k f ep g started ttl v (cache s)) (mark s) (fkeys s)"
    unfolding o(8) by (rule cache_inv_store [OF sys_inv_cache [OF i] o(1-3,6,7,4)])
  then show ?thesis unfolding step_store(1) using o by (intro sys_inv_set0 [OF i]) (simp_all add: pc_ok_def)
next
  case (step_fail t k f e)
  have "pc_ok produces (fail_flight k f (cache s)) (fkeys s) (Publishing k f (Inl e) 0)"
    using sys_inv_pcs [OF i step_fail(2)] by (simp add: pc_ok_def)
  then show ?thesis
    unfolding step_fail(1) by (intro sys_inv_set0 [OF i] cache_inv_fail sys_inv_cache [OF i]) simp_all
next
  case (step_publish t k f r m)
  from sys_inv_pcs [OF i step_publish(2)]
  have o: "f < length (fkeys s)" "fst (fkeys s ! f) = k" "\<And>v. r = Inr v \<Longrightarrow> produces k f v \<and> m \<le> f"
    by (auto simp: pc_ok_def)
  show ?thesis
    unfolding step_publish(1) using o
    by (intro sys_inv_set0 [OF i] cache_inv_publish [OF sys_inv_cache [OF i]]) (auto simp: pc_ok_def split: sum.split)
next
  case (step_wake t k f m r)
  from sys_inv_pcs [OF i step_wake(2)] have o: "f < length (fkeys s)" "fst (fkeys s ! f) = k" "m \<le> f"
    by (auto simp: pc_ok_def)
  have "produces k f v" if "r = Inr v" for v
    using cache_invD(3) [OF sys_inv_cache [OF i] o(1)] step_wake(3) that o(2) by (simp add: flight_ok_def)
  then show ?thesis
    unfolding step_wake(1) using o by (intro sys_inv_pc [OF i]) (auto simp: pc_ok_def split: sum.split)
next
  case (step_invalidate target)
  have "length (fkeys s) = length (flights (cache s))" using cache_invD(1) [OF sys_inv_cache [OF i]] .
  then show ?thesis
    unfolding step_invalidate sys_inv_def
    using cache_inv_invalidate [OF sys_inv_cache [OF i], of target] pc_ok_same [OF sys_inv_pcs [OF i refl]]
    by simp
next
  case (step_again t k v m e)
  then show ?thesis by (auto simp: pc_ok_def intro!: sys_inv_pc [OF i])
qed

lemma sys_inv_start: "sys_inv produces start_sys"
  by (simp add: sys_inv_def start_sys_def empty_cache_def cache_inv_def pc_ok_def)

lemma reachable_inv: "cache_reachable produces s \<Longrightarrow> sys_inv produces s"
  by (induction rule: cache_reachable.induct) (auto intro: sys_inv_start sys_inv_step)

text \<open>The owners of flights.\<close>

lemma leaders_invD:
  assumes "leaders_inv s"
  shows "owned (pcs s t) = Some f \<Longrightarrow> f < length (fkeys s)"
    and "owned (pcs s t) = Some f \<Longrightarrow> owned (pcs s t') = Some f \<Longrightarrow> t = t'"
    and "flying (pcs s t) = Some f \<Longrightarrow> current (cache s) (fkeys s) f \<Longrightarrow> inflight (cache s) (fst (fkeys s ! f)) = Some f"
    and "f < length (fkeys s) \<Longrightarrow> fl_result (flights (cache s) ! f) = None \<Longrightarrow> \<exists>t. owned (pcs s t) = Some f"
  using assms by (auto simp: leaders_inv_def)

lemma leaders_invI:
  assumes "\<And>t f. owned (pcs s t) = Some f \<Longrightarrow> f < length (fkeys s)"
    and "\<And>t t' f. owned (pcs s t) = Some f \<Longrightarrow> owned (pcs s t') = Some f \<Longrightarrow> t = t'"
    and "\<And>t f. flying (pcs s t) = Some f \<Longrightarrow> current (cache s) (fkeys s) f \<Longrightarrow>
      inflight (cache s) (fst (fkeys s ! f)) = Some f"
    and "\<And>f. f < length (fkeys s) \<Longrightarrow> fl_result (flights (cache s) ! f) = None \<Longrightarrow> \<exists>t. owned (pcs s t) = Some f"
  shows "leaders_inv s"
  using assms unfolding leaders_inv_def by blast

text \<open>A step of one thread that leaves the flights and who owns them as they were.\<close>

lemma leaders_same:
  assumes "leaders_inv s" and "owned p = owned (pcs s t)" and "flying p = None \<or> flying p = flying (pcs s t)"
    and "flights c' = flights (cache s)" and "\<And>f. current c' (fkeys s) f = current (cache s) (fkeys s) f"
    and "\<And>t' f. t' \<noteq> t \<or> flying p \<noteq> None \<Longrightarrow> flying (pcs s t') = Some f \<Longrightarrow> current (cache s) (fkeys s) f \<Longrightarrow>
      inflight (cache s) (fst (fkeys s ! f)) = Some f \<Longrightarrow> inflight c' (fst (fkeys s ! f)) = Some f"
  shows "leaders_inv (set_pc (s\<lparr>cache := c'\<rparr>) t p)"
proof -
  note l = leaders_invD [OF assms(1)]
  let ?s = "set_pc (s\<lparr>cache := c'\<rparr>) t p"
  have o: "owned (pcs ?s u) = owned (pcs s u)" for u using assms(2) by simp
  have "inflight c' (fst (fkeys s ! f)) = Some f"
    if "flying (pcs ?s u) = Some f" "current c' (fkeys s) f" for u f
  proof (rule assms(6) [of u])
    show "u \<noteq> t \<or> flying p \<noteq> None" using that(1) by (auto split: if_splits)
    show fly: "flying (pcs s u) = Some f" using that(1) assms(3) by (auto split: if_splits)
    show cur: "current (cache s) (fkeys s) f" using that(2) assms(5) by simp
    show "inflight (cache s) (fst (fkeys s ! f)) = Some f" by (rule l(3) [OF fly cur])
  qed
  then show ?thesis
    unfolding leaders_inv_def o using l(1,2,4) assms(4) by (auto split: if_splits)
qed

lemma leaders_pc:
  "leaders_inv s \<Longrightarrow> owned p = owned (pcs s t) \<Longrightarrow> flying p = None \<or> flying p = flying (pcs s t) \<Longrightarrow>
     leaders_inv (set_pc s t p)"
  using leaders_same [of s p t "cache s"] by simp

lemma current_store [simp]:
  "current (get_store k f ep g started ttl v c) fk i = current c fk i"
  "current (fail_flight k f c) fk i = current c fk i"
  "inflight (get_store k f ep g started ttl v c) = (if inflight c k = Some f then (inflight c)(k := None) else inflight c)"
  "inflight (fail_flight k f c) = (if inflight c k = Some f then (inflight c)(k := None) else inflight c)"
  by (auto simp: get_store_def fail_flight_def drop_flight_def)

lemma counters_only:
  assumes "c' = c\<lparr>counters := x\<rparr>"
  shows "flights c' = flights c \<and> inflight c' = inflight c \<and> (\<forall>f. current c' fk f = current c fk f)"
  unfolding assms by simp

lemma leaders_inv_step:
  assumes "cache_step produces s s'" and i: "sys_inv produces s" and li: "leaders_inv s"
  shows "leaders_inv s'"
  using assms(1)
proof cases
  case (step_hit t k now v c')
  have "c' = (cache s)\<lparr>counters := counters c'\<rparr>"
    using step_hit(3) by - (rule get_enter_cases [where k = k and now = now and c = "cache s"]; auto)
  from counters_only [OF this] have "flights c' = flights (cache s)" "inflight c' = inflight (cache s)"
    "\<And>f. current c' (fkeys s) f = current (cache s) (fkeys s) f" by auto
  then show ?thesis unfolding step_hit(1) using step_hit(2) by (intro leaders_same [OF li]) simp_all
next
  case (step_join t k now f c')
  have "c' = (cache s)\<lparr>counters := counters c'\<rparr>"
    using step_join(3) by - (rule get_enter_cases [where k = k and now = now and c = "cache s"]; auto)
  from counters_only [OF this] have "flights c' = flights (cache s)" "inflight c' = inflight (cache s)"
    "\<And>f. current c' (fkeys s) f = current (cache s) (fkeys s) f" by auto
  then show ?thesis unfolding step_join(1) using step_join(2) by (intro leaders_same [OF li]) simp_all
next
  case (step_compute t k f ep g started m v ttl)
  then show ?thesis using leaders_pc [OF li] by simp
next
  case (step_error t k f ep g started m e)
  then show ?thesis using leaders_pc [OF li] by simp
next
  case (step_store t k f ep g started ttl v m)
  have "fst (fkeys s ! f) = k" using sys_inv_pcs [OF i step_store(2)] by (auto simp: pc_ok_def)
  have u: "u = t" if "flying (pcs s u) = Some f" for u
    using leaders_invD(2) [OF li flying_owned [OF that], of t] step_store(2) by simp
  show ?thesis
    unfolding step_store(1)
  proof (rule leaders_same [OF li])
    fix t' f' assume "t' \<noteq> t \<or> flying (Publishing k f (Inr v) m) \<noteq> None" "flying (pcs s t') = Some f'"
      "inflight (cache s) (fst (fkeys s ! f')) = Some f'"
    then show "inflight (get_store k f ep g started ttl v (cache s)) (fst (fkeys s ! f')) = Some f'"
      using u by (cases "f' = f") auto
  qed (simp_all add: step_store(2))
next
  case (step_fail t k f e)
  have "fst (fkeys s ! f) = k" using sys_inv_pcs [OF i step_fail(2)] by (auto simp: pc_ok_def)
  have u: "u = t" if "flying (pcs s u) = Some f" for u
    using leaders_invD(2) [OF li flying_owned [OF that], of t] step_fail(2) by simp
  show ?thesis
    unfolding step_fail(1)
  proof (rule leaders_same [OF li])
    fix t' f' assume "t' \<noteq> t \<or> flying (Publishing k f (Inl e) 0) \<noteq> None" "flying (pcs s t') = Some f'"
      "inflight (cache s) (fst (fkeys s ! f')) = Some f'"
    then show "inflight (fail_flight k f (cache s)) (fst (fkeys s ! f')) = Some f'"
      using u by (cases "f' = f") auto
  qed (simp_all add: step_fail(2))
next
  case (step_wake t k f m r)
  then show ?thesis using leaders_pc [OF li] by (simp split: sum.split)
next
  case (step_again t k v m e)
  then show ?thesis using leaders_pc [OF li] by auto
next
  case (step_lead t k now f ep g c' started)
  note l = leaders_invD [OF li] and ci = sys_inv_cache [OF i]
  let ?new = "\<lparr>fl_result = None, fl_epoch = epoch (cache s), fl_generation = generation_of (cache s) k\<rparr>"
  have eq: "c' = (cache s)\<lparr>flights := flights (cache s) @ [?new],
      inflight := (inflight (cache s))(k \<mapsto> length (flights (cache s))), counters := counters c'\<rparr>"
    and f: "f = length (flights (cache s))"
    using step_lead(3) by - (rule get_enter_cases [where k = k and now = now and c = "cache s"]; auto)+
  have nm: "\<not> (fl_epoch (flights (cache s) ! f') = epoch (cache s)
      \<and> fl_generation (flights (cache s) ! f') = generation_of (cache s) k)" if "inflight (cache s) k = Some f'" for f'
    using step_lead(3) that by - (rule get_enter_cases [where k = k and now = now and c = "cache s"]; auto)
  have e: "f = length (fkeys s)" "flights c' = flights (cache s) @ [?new]" "inflight c' = (inflight (cache s))(k \<mapsto> f)"
    "epoch c' = epoch (cache s)" "\<And>k. generation_of c' k = generation_of (cache s) k"
    using f cache_invD(1) [OF ci] by - (simp, (subst eq, simp)+)
  have nc: "\<not> current (cache s) (fkeys s) f'" if "inflight (cache s) k = Some f'" "fst (fkeys s ! f') = k" for f'
    using nm [OF that(1)] that(2) by (simp add: current_def)
  have len: "length (fkeys s) = length (flights (cache s))" by (rule cache_invD(1) [OF ci])
  have old: "current c' (fkeys s @ x) f' = current (cache s) (fkeys s) f'" if "f' < length (fkeys s)" for f' x
    using that len by (simp add: current_def e(2,4,5) nth_append)
  have own: "owned (pcs s' u) = (if u = t then Some f else owned (pcs s u))"
    and fly: "flying (pcs s' u) = (if u = t then Some f else flying (pcs s u))" for u
    unfolding step_lead(1) by simp_all
  have sel: "cache s' = c'" "fkeys s' = fkeys s @ [(k, started)]" unfolding step_lead(1) by simp_all
  have infl: "inflight c' (fst ((fkeys s @ [(k, started)]) ! f')) = Some f'"
    if "flying (pcs s' u) = Some f'" "current c' (fkeys s @ [(k, started)]) f'" for u f'
  proof (cases "u = t")
    case True
    then show ?thesis using that(1) by (simp add: fly e(1,3) nth_append)
  next
    case False
    then have f': "flying (pcs s u) = Some f'" using that(1) by (simp add: fly)
    then have lt: "f' < length (fkeys s)" using l(1) flying_owned by blast
    then have inf: "inflight (cache s) (fst (fkeys s ! f')) = Some f'" using l(3) [OF f'] that(2) old by simp
    then have "fst (fkeys s ! f') \<noteq> k" using nc that(2) old [OF lt] by auto
    then show ?thesis using inf lt by (simp add: e(3) nth_append)
  qed
  have res: "\<exists>u. owned (pcs s' u) = Some f'" if "f' < Suc (length (fkeys s))" "fl_result (flights c' ! f') = None" for f'
  proof (cases "f' = length (fkeys s)")
    case True
    then show ?thesis using own e(1) by auto
  next
    case False
    then have "f' < length (fkeys s)" "fl_result (flights (cache s) ! f') = None"
      using that len by (auto simp: e(2) nth_append)
    then obtain u where u: "owned (pcs s u) = Some f'" using l(4) by blast
    then have "u \<noteq> t" using step_lead(2) by auto
    then show ?thesis using u own by auto
  qed
  have "owned (pcs s u) \<noteq> Some f" for u using l(1) e(1) by blast
  then have uniq: "u = u'" if "owned (pcs s' u) = Some f'" "owned (pcs s' u') = Some f'" for u u' f'
    using that l(2) [of u f' u'] by (cases "u = t"; cases "u' = t") (auto simp: own)
  show ?thesis
  proof (rule leaders_invI, unfold sel)
    fix u f' assume "owned (pcs s' u) = Some f'"
    then show "f' < length (fkeys s @ [(k, started)])" using l(1) [of u f'] e(1) by (cases "u = t") (auto simp: own)
  next
    fix f' assume "f' < length (fkeys s @ [(k, started)])" "fl_result (flights c' ! f') = None"
    then show "\<exists>u. owned (pcs s' u) = Some f'" by (intro res) simp_all
  qed (fact uniq infl)+
next
  case (step_publish t k f r m)
  note l = leaders_invD [OF li]
  have len: "length (fkeys s) = length (flights (cache s))" by (rule cache_invD(1) [OF sys_inv_cache [OF i]])
  have own: "owned (pcs s' u) = (if u = t then None else owned (pcs s u))"
    and fly: "flying (pcs s' u) = (if u = t then None else flying (pcs s u))" for u
    unfolding step_publish(1) by (simp_all split: sum.split)
  have res: "\<exists>u. owned (pcs s' u) = Some f'"
    if "f' < length (fkeys s)" "fl_result (flights (publish f r (cache s)) ! f') = None" for f'
  proof -
    have "f' \<noteq> f" "fl_result (flights (cache s) ! f') = None" using that len by (auto split: if_splits)
    moreover have "f' < length (fkeys s)" by (rule that(1))
    ultimately obtain u where u: "owned (pcs s u) = Some f'" using l(4) by blast
    then have "u \<noteq> t" using \<open>f' \<noteq> f\<close> step_publish(2) by auto
    then show ?thesis using u own by auto
  qed
  have sel: "cache s' = publish f r (cache s)" "fkeys s' = fkeys s" unfolding step_publish(1) by simp_all
  show ?thesis
  proof (rule leaders_invI, unfold sel)
    fix u f' assume "owned (pcs s' u) = Some f'"
    then show "f' < length (fkeys s)" using l(1) [of u f'] by (cases "u = t") (auto simp: own)
  next
    fix u u' f' assume "owned (pcs s' u) = Some f'" "owned (pcs s' u') = Some f'"
    then show "u = u'" using l(2) [of u f' u'] by (cases "u = t"; cases "u' = t") (auto simp: own)
  next
    fix u f' assume "flying (pcs s' u) = Some f'" "current (publish f r (cache s)) (fkeys s) f'"
    then show "inflight (publish f r (cache s)) (fst (fkeys s ! f')) = Some f'"
      using l(3) [of u f'] by (cases "u = t") (auto simp: fly)
  qed (fact res)
next
  case (step_invalidate target)
  note l = leaders_invD [OF li] and ci = sys_inv_cache [OF i]
  have sel: "cache s' = invalidate target (cache s)" "fkeys s' = fkeys s" "pcs s' = pcs s"
    unfolding step_invalidate by simp_all
  have "inflight (invalidate target (cache s)) (fst (fkeys s ! f)) = Some f"
    if fly: "flying (pcs s t) = Some f" and cur: "current (invalidate target (cache s)) (fkeys s) f" for t f
  proof -
    have "f < length (fkeys s)" using l(1) fly flying_owned by blast
    then have "fl_epoch (flights (cache s) ! f) \<le> epoch (cache s)"
      "fl_generation (flights (cache s) ! f) \<le> generation_of (cache s) (fst (fkeys s ! f))"
      using cache_invD(3) [OF ci] by (auto simp: flight_ok_def)
    then have "target \<noteq> None" "target \<noteq> Some (fst (fkeys s ! f))" "current (cache s) (fkeys s) f"
      using cur by (auto simp: current_def invalidate_def Let_def split: option.splits if_splits)
    then show ?thesis using l(3) [OF fly] by (auto simp: invalidate_def Let_def split: option.split)
  qed
  then show ?thesis unfolding leaders_inv_def sel using l(1,2,4) by simp
qed

lemma leaders_start: "leaders_inv start_sys"
  by (simp add: leaders_inv_def start_sys_def)

lemma reachable_leaders: "cache_reachable produces s \<Longrightarrow> leaders_inv s"
  by (induction rule: cache_reachable.induct) (auto intro: leaders_start leaders_inv_step reachable_inv)

section \<open>Properties\<close>

text \<open>
  A concrete run for the witnesses: thread 0 leads the first flight for a key, thread 1 joins it,
  thread 0 computes, stores and publishes.
\<close>

definition returns_flight :: "key \<Rightarrow> nat \<Rightarrow> nat \<Rightarrow> bool" where
  "returns_flight k f v \<longleftrightarrow> v = f"

definition run1 :: "nat sys" where
  "run1 = set_pc (start_sys\<lparr>cache := snd (get_enter ''a'' (Fin 5) empty_cache), fkeys := [(''a'', Fin 5)]\<rparr>) 0
     (Leading ''a'' 0 0 0 (Fin 5) 0)"

definition run2 :: "nat sys" where
  "run2 = set_pc (run1\<lparr>cache := snd (get_enter ''a'' (Fin 6) (cache run1))\<rparr>) 1 (Waiting ''a'' 0 0)"

definition run3 :: "nat sys" where
  "run3 = set_pc run2 0 (Computed ''a'' 0 0 0 (Fin 5) (clamp_ttl (Fin 2)) 0 0)"

definition run4 :: "nat sys" where
  "run4 = set_pc (run3\<lparr>cache := get_store ''a'' 0 0 0 (Fin 5) (clamp_ttl (Fin 2)) 0 (cache run3)\<rparr>) 0
     (Publishing ''a'' 0 (Inr 0) 0)"

definition run5 :: "nat sys" where
  "run5 = set_pc (run4\<lparr>cache := publish 0 (Inr 0) (cache run4)\<rparr>) 0 (Returned ''a'' 0 0)"

lemmas run_defs = run1_def run2_def run3_def run4_def run5_def start_sys_def empty_cache_def get_enter_def
  get_store_def drop_flight_def generation_of_def publish_def

lemma run_reachable:
  "cache_reachable returns_flight run1" "cache_reachable returns_flight run2" "cache_reachable returns_flight run3"
  "cache_reachable returns_flight run4" "cache_reachable returns_flight run5"
proof -
  have "cache_step returns_flight start_sys run1"
    using step_lead [of start_sys 0 "''a''" "Fin 5" 0 0 0 "snd (get_enter ''a'' (Fin 5) empty_cache)" returns_flight "Fin 5"]
    by (simp add: run_defs Let_def)
  then show r1: "cache_reachable returns_flight run1" by (rule reach_step [OF reach_start])
  have "cache_step returns_flight run1 run2"
    using step_join [of run1 1 "''a''" "Fin 6" 0 "snd (get_enter ''a'' (Fin 6) (cache run1))" returns_flight]
    by (simp add: run_defs Let_def)
  then show r2: "cache_reachable returns_flight run2" by (rule reach_step [OF r1])
  have "cache_step returns_flight run2 run3"
    unfolding run3_def by (rule step_compute) (simp_all add: run_defs returns_flight_def)
  then show r3: "cache_reachable returns_flight run3" by (rule reach_step [OF r2])
  have "cache_step returns_flight run3 run4"
    unfolding run4_def by (rule step_store) (simp add: run3_def)
  then show r4: "cache_reachable returns_flight run4" by (rule reach_step [OF r3])
  have "cache_step returns_flight run4 run5"
    using step_publish [of run4 0 "''a''" 0 "Inr 0" 0 returns_flight] by (simp add: run5_def run4_def)
  then show "cache_reachable returns_flight run5" by (rule reach_step [OF r4])
qed

text \<open>
  C2: in every reachable interleaving, the value a call of \<open>get\<close> returns was computed for its own
  key by a flight that started after the last invalidation (of the key or of everything) that
  preceded the call, whether it led the flight, joined it or hit the cache.
\<close>

theorem get_never_returns_invalidated:
  assumes "cache_reachable produces s" and "pcs s t = Returned k v m"
  shows "\<exists>f. m \<le> f \<and> f < length (flights (cache s)) \<and> fst (fkeys s ! f) = k \<and> produces k f v"
  using sys_inv_pcs [OF reachable_inv [OF assms(1)] assms(2)]
    cache_invD(1) [OF sys_inv_cache [OF reachable_inv [OF assms(1)]]]
  by (auto simp: pc_ok_def)

lemma get_never_returns_invalidated_witness:
  "\<exists>f. 0 \<le> f \<and> f < length (flights (cache run5)) \<and> fst (fkeys run5 ! f) = ''a'' \<and> returns_flight ''a'' f 0"
  by (rule get_never_returns_invalidated [OF run_reachable(5), where t = 0]) (simp add: run5_def)

text \<open>
  a hit at clock reading \<open>now\<close> serves a value whose computation started no longer than its
  (clamped) time to live ago, and after the last invalidation of the key.
\<close>

theorem hit_within_ttl:
  assumes "cache_reachable produces s" and "get_enter k now (cache s) = (Hit v, c)"
  shows "\<exists>f ttl. mark s k \<le> f \<and> produces k f v \<and> flt now (fadd (snd (fkeys s ! f)) (clamp_ttl ttl))"
proof -
  obtain e where e: "entries (cache s) k = Some e" "v = en_value e" "flt now (en_expires_at e)"
    using assms(2) by - (rule get_enter_cases [where k = k and now = now and c = "cache s"]; auto)
  have "entry_ok produces (mark s) (fkeys s) k e"
    by (rule cache_invD(5) [OF sys_inv_cache [OF reachable_inv [OF assms(1)]] e(1)])
  then obtain f ttl where "mark s k \<le> f" "produces k f (en_value e)"
    "en_expires_at e = fadd (snd (fkeys s ! f)) (clamp_ttl ttl)" unfolding entry_ok_def by blast
  then show ?thesis using e(2,3) by (intro exI [of _ f] exI [of _ ttl]) simp
qed

lemma hit_within_ttl_witness:
  "\<exists>f ttl. mark run5 ''a'' \<le> f \<and> returns_flight ''a'' f 0 \<and> flt (Fin 6) (fadd (snd (fkeys run5 ! f)) (clamp_ttl ttl))"
proof -
  have "fadd (Fin 5) (clamp_ttl (Fin 2)) = Fin 7" by code_simp
  then have "\<exists>c. get_enter ''a'' (Fin 6) (cache run5) = (Hit 0, c)"
    by (simp add: run_defs Let_def)
  then obtain c where "get_enter ''a'' (Fin 6) (cache run5) = (Hit 0, c)" ..
  then show ?thesis by (rule hit_within_ttl [OF run_reachable(5)])
qed

text \<open>
  single flight: two threads computing at the same time for one key never both hold the
  current epoch and generation, so identical computations overlap only across an invalidation.
\<close>

theorem single_flight:
  assumes "cache_reachable produces s" and "t \<noteq> t'" and "flying (pcs s t) = Some f" and "flying (pcs s t') = Some f'"
    and "fst (fkeys s ! f) = fst (fkeys s ! f')"
  shows "\<not> (current (cache s) (fkeys s) f \<and> current (cache s) (fkeys s) f')"
proof
  assume c: "current (cache s) (fkeys s) f \<and> current (cache s) (fkeys s) f'"
  note l = leaders_invD [OF reachable_leaders [OF assms(1)]]
  have "f = f'"
    using l(3) [OF assms(3) conjunct1 [OF c]] l(3) [OF assms(4) conjunct2 [OF c]] unfolding assms(5) by simp
  then show False using l(2) [OF flying_owned [OF assms(3)], of t'] flying_owned [OF assms(4)] assms(2) by simp
qed

definition run_inv :: "nat sys" where
  "run_inv = run1\<lparr>cache := invalidate (Some ''a'') (cache run1),
     mark := (\<lambda>k. if Some ''a'' = None \<or> Some ''a'' = Some k then length (flights (cache run1)) else mark run1 k)\<rparr>"

definition run_two :: "nat sys" where
  "run_two = set_pc (run_inv\<lparr>cache := snd (get_enter ''a'' (Fin 6) (cache run_inv)), fkeys := fkeys run_inv @ [(''a'', Fin 6)]\<rparr>) 1
     (Leading ''a'' 1 0 1 (Fin 6) 1)"

lemma run_two_reachable: "cache_reachable returns_flight run_two"
proof -
  have i: "cache_reachable returns_flight run_inv"
    unfolding run_inv_def by (rule reach_step [OF run_reachable(1) step_invalidate])
  have "cache_step returns_flight run_inv run_two"
    using step_lead [of run_inv 1 "''a''" "Fin 6" 1 0 1 "snd (get_enter ''a'' (Fin 6) (cache run_inv))" returns_flight "Fin 6"]
    by (simp add: run_two_def run_inv_def invalidate_def run_defs Let_def)
  then show ?thesis by (rule reach_step [OF i])
qed

lemma single_flight_witness:
  "\<not> (current (cache run_two) (fkeys run_two) 0 \<and> current (cache run_two) (fkeys run_two) 1)"
  by (rule single_flight [OF run_two_reachable, of 0 1]) (simp_all add: run_two_def run_inv_def run1_def)

text \<open>
  C27: nothing hangs: in every reachable interleaving the flight a waiting call joined is either
  published, so the call can take its result, or owned by a running thread that will publish it.
\<close>

theorem waiter_never_stranded:
  assumes "cache_reachable produces s" and "pcs s t = Waiting k f m"
  shows "(\<exists>r. fl_result (flights (cache s) ! f) = Some r) \<or> (\<exists>t'. owned (pcs s t') = Some f)"
  using leaders_invD(4) [OF reachable_leaders [OF assms(1)]] sys_inv_pcs [OF reachable_inv [OF assms(1)] assms(2)]
  by (auto simp: pc_ok_def)

lemma waiter_never_stranded_witness:
  "(\<exists>r. fl_result (flights (cache run2) ! 0) = Some r) \<or> (\<exists>t'. owned (pcs run2 t') = Some 0)"
  by (rule waiter_never_stranded [OF run_reachable(2), of 1]) (simp add: run2_def)

end
