(* ===== verification/Decisor.thy ===== *)
theory Decisor
  imports PyDate
begin

text \<open>
  \<open>c3po/backend/app/valuation_decision.py\<close>, the pure verdict: the reason codes, the thresholds block,
  the readers of producer fields, \<open>decide\<close>, \<open>_event_codes\<close> and \<open>_verdict_of\<close>.  Every numeric check of
  the \<open>checks\<close> dictionary is kept as its \<open>pass\<close> flag.
\<close>

section \<open>Codes and thresholds\<close>

datatype verdict = COMPRA_PERMITIDA | OBSERVAR | VETO

datatype code =
    TP_STALE_FLAG | TP_SESSION_STALE | FUNDAMENTALS_STALE | FUNDAMENTALS_DATE_UNKNOWN | PRICE_UNAVAILABLE
  | PRICE_SESSION_STALE | PRICE_MOVED_SINCE_CUT | NOT_VALIDATED | METHOD_DISPERSION_HIGH | METHOD_DISPERSION_UNKNOWN
  | CONFIDENCE_LOW | CONFIDENCE_UNKNOWN | DATA_DEFECT
  | E_PROFILE_WARMING_UP | E_PROFILE_UNAVAILABLE | MARKET_RATE_UNAVAILABLE | PRICE_ABOVE_BUY_IN | TP_MARGIN_INSUFFICIENT
  | TP_STALE_AFTER_FILING | STALENESS_SOURCE_UNAVAILABLE | STALENESS_SOURCE_STALE | EARNINGS_WITHIN_N
  | EARNINGS_CALENDAR_ROW_INVALID
  | EARNINGS_DATE_ESTIMATED | EARNINGS_CALENDAR_UNAVAILABLE | CONSENSUS_EPS_CUT_30D | NEWS_SENTIMENT_NEGATIVE
  | ALL_GATES_PASSED | VERDICT_NOT_CURRENT | VERDICT_TP_NOT_SERVED

definition VETO_CODES :: "code list" where
  "VETO_CODES = [TP_STALE_FLAG, TP_SESSION_STALE, FUNDAMENTALS_STALE, FUNDAMENTALS_DATE_UNKNOWN, PRICE_UNAVAILABLE,
     PRICE_SESSION_STALE, PRICE_MOVED_SINCE_CUT, NOT_VALIDATED, METHOD_DISPERSION_HIGH, METHOD_DISPERSION_UNKNOWN,
     CONFIDENCE_LOW, CONFIDENCE_UNKNOWN, DATA_DEFECT]"

definition OBSERVAR_CODES :: "code list" where
  "OBSERVAR_CODES = [E_PROFILE_WARMING_UP, E_PROFILE_UNAVAILABLE, MARKET_RATE_UNAVAILABLE, PRICE_ABOVE_BUY_IN,
     TP_MARGIN_INSUFFICIENT, TP_STALE_AFTER_FILING, STALENESS_SOURCE_UNAVAILABLE, STALENESS_SOURCE_STALE, EARNINGS_WITHIN_N,
     EARNINGS_CALENDAR_ROW_INVALID]"

definition EVENT_CODES :: "code list" where
  "EVENT_CODES = [EARNINGS_WITHIN_N, EARNINGS_CALENDAR_ROW_INVALID, EARNINGS_DATE_ESTIMATED, EARNINGS_CALENDAR_UNAVAILABLE,
     CONSENSUS_EPS_CUT_30D, NEWS_SENTIMENT_NEGATIVE]"

definition NEVER_GATES :: "code list" where
  "NEVER_GATES = [NEWS_SENTIMENT_NEGATIVE]"

definition US_STALENESS_MARKETS :: "string list" where
  "US_STALENESS_MARKETS = [''NASDAQ'', ''NYSE'', ''US'']"

datatype rate_source = RATE_B3_CYCLE_SELIC | RATE_BCB_SGS_432 | RATE_US_TBILL_13W | RATE_US_5Y

record thresholds =
  max_tp_age_sessions :: int
  fundamentals_quarter_days :: int
  fundamentals_grace_days :: int
  max_price_move_percent :: pyfloat
  max_quote_age_minutes :: int
  validated_status :: string
  max_method_dispersion_percent :: pyfloat
  min_valuation_confidence :: pyfloat
  data_defect_fields :: "string list"
  min_profile_samples :: int
  calibration_min_horizon_days :: int
  calibration_max_horizon_days :: int
  calibration_max_age_days :: int
  allow_global_error_fallback :: bool
  b3_rate_sources :: "rate_source list"
  us_rate_sources :: "rate_source list"
  undated_rate_sources_admitted :: "rate_source list"
  market_rate_max_age_days :: int
  insert_margin_seconds :: int
  staleness_poll_max_age_hours :: int
  earnings_window_sessions :: int
  earnings_gate_markets :: "string list"
  earnings_calendar_max_age_hours :: int
  earnings_calendar_min_us_events :: int
  earnings_calendar_max_invalid_share :: pyfloat
  earnings_estimate_seasonal_days :: int
  earnings_estimate_period_match_days :: int
  earnings_estimate_offset_days :: int
  earnings_estimate_default_10q_lag_days :: int
  earnings_estimate_tolerance_days :: int
  consensus_eps_cut_log :: pyfloat
  news_sentiment_bearish_min_percent :: pyfloat
  news_sentiment_min_articles :: int
  news_sentiment_max_age_days :: int
  event_gates :: "code list"

definition THRESHOLDS :: thresholds where
  "THRESHOLDS = \<lparr>max_tp_age_sessions = 1, fundamentals_quarter_days = 92, fundamentals_grace_days = 45,
     max_price_move_percent = fint 5, max_quote_age_minutes = 15, validated_status = ''validated'',
     max_method_dispersion_percent = fint 45, min_valuation_confidence = fint 70,
     data_defect_fields = [''data_defect'', ''data_defects''], min_profile_samples = 15,
     calibration_min_horizon_days = 60, calibration_max_horizon_days = 150, calibration_max_age_days = 7,
     allow_global_error_fallback = False, b3_rate_sources = [RATE_BCB_SGS_432, RATE_B3_CYCLE_SELIC],
     us_rate_sources = [RATE_US_TBILL_13W, RATE_US_5Y], undated_rate_sources_admitted = [], market_rate_max_age_days = 10,
     insert_margin_seconds = 60, staleness_poll_max_age_hours = 6, earnings_window_sessions = 2,
     earnings_gate_markets = [''NASDAQ'', ''NYSE''], earnings_calendar_max_age_hours = 36,
     earnings_calendar_min_us_events = 100, earnings_calendar_max_invalid_share = flit 5 100,
     earnings_estimate_seasonal_days = 364, earnings_estimate_period_match_days = 10, earnings_estimate_offset_days = 91,
     earnings_estimate_default_10q_lag_days = 45, earnings_estimate_tolerance_days = 7, consensus_eps_cut_log = flit 5 100,
     news_sentiment_bearish_min_percent = fint 60, news_sentiment_min_articles = 5, news_sentiment_max_age_days = 8,
     event_gates = [EARNINGS_WITHIN_N]\<rparr>"

section \<open>Reading producer fields\<close>

definition number :: "pyval \<Rightarrow> pyfloat option" where
  "number v = (if is_bool v then None
     else case py_float v of None \<Rightarrow> None | Some x \<Rightarrow> if finite_float x then Some x else None)"

definition positive :: "pyval \<Rightarrow> pyfloat option" where
  "positive v = (case number v of None \<Rightarrow> None | Some x \<Rightarrow> if flt (fint 0) x then Some x else None)"

definition marked :: "pyval \<Rightarrow> bool" where
  "marked v = (case v of
     VStr s \<Rightarrow> strip_text s \<noteq> [] \<and> map lower_char (strip_text s) \<notin> {''false'', ''0'', ''none'', ''no''}
   | _ \<Rightarrow> truthy v)"

definition fundamentals_age_days :: "pyval \<Rightarrow> int \<Rightarrow> int option" where
  "fundamentals_age_days v reference = do {
     t \<leftarrow> text_of v;
     d \<leftarrow> date_fromisoformat (take 10 t);
     Some (max (reference - d) 0) }"

section \<open>The verdict\<close>

definition verdict_of :: "code list \<Rightarrow> verdict \<times> code list" where
  "verdict_of codes =
     (if list_ex (\<lambda>c. c \<in> set VETO_CODES) codes then (VETO, codes)
      else if codes \<noteq> [] then (OBSERVAR, codes)
      else (COMPRA_PERMITIDA, [ALL_GATES_PASSED]))"

datatype earnings_status = EsCalendar | EsEstimated | EsRowInvalid | EsUnavailable

record earnings_facts =
  ef_status :: earnings_status
  ef_within :: bool
  ef_row_invalid :: bool

record consensus_facts =
  cf_ok :: bool
  cf_log_change :: "pyfloat option"
  cf_turned_non_positive :: bool

record sentiment_facts =
  sf_ok :: bool
  sf_bearish_percent :: "pyfloat option"
  sf_articles :: "pyfloat option"
  sf_age_days :: "pyfloat option"

record event_facts =
  ev_market :: "string option"
  ev_earnings :: "earnings_facts option"
  ev_consensus :: "consensus_facts option"
  ev_sentiment :: "sentiment_facts option"

definition consensus_cut :: "event_facts \<Rightarrow> thresholds \<Rightarrow> bool" where
  "consensus_cut ev th = (case ev_consensus ev of None \<Rightarrow> False
     | Some cf \<Rightarrow> cf_ok cf \<and> (cf_turned_non_positive cf
         \<or> (case cf_log_change cf of None \<Rightarrow> False | Some x \<Rightarrow> flt x (fneg (consensus_eps_cut_log th)))))"

definition sentiment_negative :: "event_facts \<Rightarrow> thresholds \<Rightarrow> bool" where
  "sentiment_negative ev th = (case ev_sentiment ev of None \<Rightarrow> False
     | Some sf \<Rightarrow> sf_ok sf \<and>
        (case (sf_bearish_percent sf, sf_articles sf, sf_age_days sf) of
           (Some bearish, Some articles, Some age) \<Rightarrow>
              fle (news_sentiment_bearish_min_percent th) bearish
              \<and> fle (fint (news_sentiment_min_articles th)) articles
              \<and> fle age (fint (news_sentiment_max_age_days th))
         | _ \<Rightarrow> False))"

definition event_codes :: "event_facts \<Rightarrow> thresholds \<Rightarrow> code list" where
  "event_codes ev th =
     (let status = map_option ef_status (ev_earnings ev) in
      (if (case ev_earnings ev of None \<Rightarrow> False | Some ef \<Rightarrow> ef_within ef) then [EARNINGS_WITHIN_N] else [])
      @ (if status = Some EsRowInvalid \<or> (case ev_earnings ev of None \<Rightarrow> False | Some ef \<Rightarrow> ef_row_invalid ef)
         then [EARNINGS_CALENDAR_ROW_INVALID] else [])
      @ (if status = Some EsEstimated then [EARNINGS_DATE_ESTIMATED]
         else if status \<noteq> Some EsCalendar \<and> status \<noteq> Some EsRowInvalid then [EARNINGS_CALENDAR_UNAVAILABLE] else [])
      @ (if consensus_cut ev th then [CONSENSUS_EPS_CUT_30D] else [])
      @ (if sentiment_negative ev th then [NEWS_SENTIMENT_NEGATIVE] else []))"

datatype staleness_status = StClear | StStale | StUnavailable | StNotApplicable | StOther

datatype source_status = SrcOk | SrcStale | SrcUnavailable | SrcNone

record staleness_state =
  st_status :: staleness_status
  st_source :: source_status

datatype error_status = ErrOk | ErrWarmingUp | ErrUnavailable

record error_state =
  er_status :: error_status
  er_value :: "pyfloat option"

record price_obs =
  po_price :: "pyfloat option"
  po_ask :: "pyfloat option"
  po_session :: "string option"

definition no_price :: price_obs where
  "no_price = \<lparr>po_price = None, po_ask = None, po_session = None\<rparr>"

record outcome =
  oc_verdict :: verdict
  oc_reason_codes :: "code list"
  oc_marks :: "code list"
  oc_verdict_without_events :: verdict
  oc_price :: "pyfloat option"
  oc_e_profile :: "pyfloat option"
  oc_h_market :: "pyfloat option"

definition pos_opt :: "pyfloat option \<Rightarrow> pyfloat option" where
  "pos_opt v = (case v of None \<Rightarrow> None | Some x \<Rightarrow> positive (VFloat x))"

definition num_opt :: "pyfloat option \<Rightarrow> pyfloat option" where
  "num_opt v = (case v of None \<Rightarrow> None | Some x \<Rightarrow> number (VFloat x))"

definition upper_text :: "string \<Rightarrow> string" where
  "upper_text s = map upper_char (strip_text s)"

definition row_market :: "pydict \<Rightarrow> string" where
  "row_market row = (let v = dget row ''official_market'' in
     if truthy v then (case text_of v of None \<Rightarrow> [] | Some t \<Rightarrow> upper_text t) else [])"

definition staleness_codes :: "pydict \<Rightarrow> staleness_state \<Rightarrow> code list" where
  "staleness_codes row st =
     (let status = (if st_status st = StNotApplicable \<and> row_market row \<in> set US_STALENESS_MARKETS then StUnavailable
                    else st_status st) in
      if status = StStale \<or> status = StClear
      then (if status = StStale then [TP_STALE_AFTER_FILING] else [])
           @ (if st_source st = SrcStale then [STALENESS_SOURCE_STALE]
              else if st_source st \<noteq> SrcOk then [STALENESS_SOURCE_UNAVAILABLE] else [])
      else if status \<noteq> StNotApplicable then [STALENESS_SOURCE_UNAVAILABLE] else [])"

definition freshness_codes :: "pydict \<Rightarrow> int \<Rightarrow> int \<Rightarrow> thresholds \<Rightarrow> code list" where
  "freshness_codes row behind expected_day th =
     (if max_tp_age_sessions th < behind then [TP_SESSION_STALE] else [])
     @ (case fundamentals_age_days (dget row ''fundamentals_as_of'') expected_day of
          None \<Rightarrow> [FUNDAMENTALS_DATE_UNKNOWN]
        | Some age \<Rightarrow> if fundamentals_quarter_days th + fundamentals_grace_days th < age then [FUNDAMENTALS_STALE] else [])"

definition price_move :: "pydict \<Rightarrow> price_obs \<Rightarrow> pyfloat option" where
  "price_move row p =
     (case (pos_opt (po_price p), positive (dget row ''price'')) of
        (Some observed, Some before) \<Rightarrow> Some (fmul (fabs (fsub (fdiv observed before) (fint 1))) (fint 100))
      | _ \<Rightarrow> None)"

definition price_codes :: "pydict \<Rightarrow> price_obs \<Rightarrow> string \<Rightarrow> thresholds \<Rightarrow> code list" where
  "price_codes row p expected_session th =
     (case price_move row p of
        None \<Rightarrow> [PRICE_UNAVAILABLE]
      | Some move \<Rightarrow>
          (if (case po_session p of None \<Rightarrow> False | Some s \<Rightarrow> str_le expected_session s) then [] else [PRICE_SESSION_STALE])
          @ (if flt (max_price_move_percent th) move then [PRICE_MOVED_SINCE_CUT] else []))"

definition quality_codes :: "pydict \<Rightarrow> thresholds \<Rightarrow> code list" where
  "quality_codes row th =
     (let field = (if dget row ''tp_validation_status'' \<noteq> VNone then ''tp_validation_status'' else ''signal_quality'') in
      (if dget row field = VStr (validated_status th) then [] else [NOT_VALIDATED])
      @ (case number (dget row ''method_dispersion_percent'') of
           None \<Rightarrow> [METHOD_DISPERSION_UNKNOWN]
         | Some x \<Rightarrow> if flt (max_method_dispersion_percent th) x then [METHOD_DISPERSION_HIGH] else [])
      @ (case number (dget row ''valuation_confidence'') of
           None \<Rightarrow> [CONFIDENCE_UNKNOWN]
         | Some x \<Rightarrow> if flt x (min_valuation_confidence th) then [CONFIDENCE_LOW] else [])
      @ (if list_ex (\<lambda>f. marked (dget row f)) (data_defect_fields th) then [DATA_DEFECT] else []))"

definition e_profile_of :: "error_state \<Rightarrow> pyfloat option" where
  "e_profile_of er = (if er_status er = ErrOk then num_opt (er_value er) else None)"

definition entry_price_of :: "price_obs \<Rightarrow> pyfloat option" where
  "entry_price_of p = (case pos_opt (po_ask p) of Some a \<Rightarrow> Some a | None \<Rightarrow> pos_opt (po_price p))"

definition margin_ok :: "pyfloat \<Rightarrow> pyfloat \<Rightarrow> pyfloat \<Rightarrow> pyfloat \<Rightarrow> bool" where
  "margin_ok entry tp e h = fle (fmul entry (fadd (fint 1) h)) (fmul tp (fsub (fint 1) e))"

definition margin_codes :: "pydict \<Rightarrow> price_obs \<Rightarrow> error_state \<Rightarrow> pyfloat option \<Rightarrow> code list" where
  "margin_codes row p er h_market =
     (if er_status er = ErrWarmingUp then [E_PROFILE_WARMING_UP]
      else if e_profile_of er = None then [E_PROFILE_UNAVAILABLE] else [])
     @ (if h_market = None then [MARKET_RATE_UNAVAILABLE] else [])
     @ (case entry_price_of p of None \<Rightarrow> []
        | Some entry \<Rightarrow>
            (case positive (dget row ''buy_in'') of
               None \<Rightarrow> [PRICE_ABOVE_BUY_IN]
             | Some buy_in \<Rightarrow> if fle entry buy_in then [] else [PRICE_ABOVE_BUY_IN])
            @ (case (positive (dget row ''our_tp''), e_profile_of er, h_market) of
                 (Some tp, Some e, Some h) \<Rightarrow> if margin_ok entry tp e h then [] else [TP_MARGIN_INSUFFICIENT]
               | _ \<Rightarrow> []))"

definition event_market :: "pydict \<Rightarrow> event_facts \<Rightarrow> string option" where
  "event_market row ev =
     map_option upper_text (case (case ev_market ev of None \<Rightarrow> None | Some m \<Rightarrow> text_of (VStr m)) of
        Some m \<Rightarrow> Some m | None \<Rightarrow> text_of (dget row ''official_market''))"

definition gated_market :: "string option \<Rightarrow> thresholds \<Rightarrow> bool" where
  "gated_market market th =
     (case market of None \<Rightarrow> True
      | Some m \<Rightarrow> m \<in> set (earnings_gate_markets th)
          \<or> m = ''US'' \<and> list_ex (\<lambda>e. e \<in> set (earnings_gate_markets th)) [''NASDAQ'', ''NYSE''])"

definition gates_here :: "pydict \<Rightarrow> event_facts \<Rightarrow> thresholds \<Rightarrow> code \<Rightarrow> bool" where
  "gates_here row ev th c =
     (let gated = gated_market (event_market row ev) th in
      if c \<in> set NEVER_GATES then False
      else if c = EARNINGS_CALENDAR_ROW_INVALID
      then map_option ef_status (ev_earnings ev) = Some EsRowInvalid
           \<and> (EARNINGS_WITHIN_N \<in> set (event_gates th) \<or> c \<in> set (event_gates th)) \<and> gated
      else c \<in> set (event_gates th) \<and> (c \<noteq> EARNINGS_WITHIN_N \<or> gated))"

definition data_codes ::
    "pydict \<Rightarrow> string \<Rightarrow> int \<Rightarrow> int \<Rightarrow> price_obs \<Rightarrow> error_state \<Rightarrow> pyfloat option \<Rightarrow> staleness_state \<Rightarrow> thresholds \<Rightarrow> code list" where
  "data_codes row expected_session expected_day behind p er h_market st th =
     (if marked (dget row ''tp_stale'') then [TP_STALE_FLAG] else [])
     @ staleness_codes row st
     @ freshness_codes row behind expected_day th
     @ price_codes row p expected_session th
     @ quality_codes row th
     @ margin_codes row p er h_market"

text \<open>\<open>None\<close> is the \<open>ValueError\<close> of an expected session that is no ISO date.\<close>

definition decide ::
    "pydict \<Rightarrow> string \<Rightarrow> int \<Rightarrow> price_obs option \<Rightarrow> error_state \<Rightarrow> pyfloat option \<Rightarrow> staleness_state \<Rightarrow> event_facts \<Rightarrow>
      thresholds \<Rightarrow> outcome option" where
  "decide row expected_session behind price er rate st ev th = do {
     expected_day \<leftarrow> date_fromisoformat expected_session;
     let p = (case price of None \<Rightarrow> no_price | Some p \<Rightarrow> p);
     let h_market = num_opt rate;
     let codes = data_codes row expected_session expected_day behind p er h_market st th;
     let raised = event_codes ev th;
     let gates = filter (gates_here row ev th) raised;
     let (verdict, reason_codes) = verdict_of (codes @ gates);
     Some \<lparr>oc_verdict = verdict, oc_reason_codes = reason_codes, oc_marks = filter (\<lambda>c. c \<notin> set gates) raised,
       oc_verdict_without_events = fst (verdict_of codes), oc_price = entry_price_of p, oc_e_profile = e_profile_of er,
       oc_h_market = h_market\<rparr> }"

section \<open>Properties\<close>

text \<open>The strictness of the verdicts, as an order: the permission is the least, the veto the greatest.\<close>

fun strictness :: "verdict \<Rightarrow> nat" where
  "strictness COMPRA_PERMITIDA = 0"
| "strictness OBSERVAR = 1"
| "strictness VETO = 2"

lemma strictness_inject: "strictness a = strictness b \<Longrightarrow> a = b"
  by (cases a; cases b) auto

instantiation verdict :: linorder
begin

definition less_eq_verdict :: "verdict \<Rightarrow> verdict \<Rightarrow> bool" where
  "less_eq_verdict a b \<longleftrightarrow> strictness a \<le> strictness b"

definition less_verdict :: "verdict \<Rightarrow> verdict \<Rightarrow> bool" where
  "less_verdict a b \<longleftrightarrow> strictness a < strictness b"

instance
  by standard (auto simp: less_eq_verdict_def less_verdict_def intro: strictness_inject)

end

definition code_class :: "code \<Rightarrow> verdict" where
  "code_class c = (if c \<in> set VETO_CODES then VETO else OBSERVAR)"

lemma verdict_le: "COMPRA_PERMITIDA \<le> v" "v \<le> VETO"
  by (cases v; simp add: less_eq_verdict_def)+

text \<open>The verdict is the strictest class of its codes.\<close>

lemma verdict_of_strictest: "fst (verdict_of codes) = Max (insert COMPRA_PERMITIDA (code_class ` set codes))"
proof (rule Max_eqI [symmetric])
  show "finite (insert COMPRA_PERMITIDA (code_class ` set codes))" by simp
  show "fst (verdict_of codes) \<in> insert COMPRA_PERMITIDA (code_class ` set codes)"
    by (cases codes) (auto simp: verdict_of_def list_ex_iff code_class_def image_iff split: if_splits)
  fix v assume "v \<in> insert COMPRA_PERMITIDA (code_class ` set codes)"
  then show "v \<le> fst (verdict_of codes)"
    by (auto simp: verdict_of_def list_ex_iff code_class_def verdict_le)
qed

lemma verdict_of_cases:
  "fst (verdict_of codes) = COMPRA_PERMITIDA \<longleftrightarrow> codes = []"
  "fst (verdict_of codes) = VETO \<longleftrightarrow> (\<exists>c\<in>set codes. c \<in> set VETO_CODES)"
  by (auto simp: verdict_of_def list_ex_iff)

lemma event_codes_subset: "set (event_codes ev th) \<subseteq> set EVENT_CODES"
  by (auto simp: event_codes_def EVENT_CODES_def Let_def)

lemma event_codes_no_veto: "c \<in> set (event_codes ev th) \<Longrightarrow> c \<notin> set VETO_CODES"
  using event_codes_subset [of ev th] by (auto simp: EVENT_CODES_def VETO_CODES_def)

lemma decide_elim:
  assumes "decide row expected behind price er rate st ev th = Some oc"
  obtains day gates codes where "date_fromisoformat expected = Some day"
    and "codes = data_codes row expected day behind (case price of None \<Rightarrow> no_price | Some p \<Rightarrow> p) er (num_opt rate) st th"
    and "gates = filter (gates_here row ev th) (event_codes ev th)"
    and "oc_verdict oc = fst (verdict_of (codes @ gates))" and "oc_reason_codes oc = snd (verdict_of (codes @ gates))"
    and "oc_marks oc = filter (\<lambda>c. c \<notin> set gates) (event_codes ev th)"
    and "oc_verdict_without_events oc = fst (verdict_of codes)"
  using assms that unfolding decide_def
  by (auto simp: Let_def split: prod.splits elim!: steps)

text \<open>What a permission guarantees about the row, the price and the margin.\<close>

definition permission_sound ::
    "pydict \<Rightarrow> string \<Rightarrow> int \<Rightarrow> price_obs \<Rightarrow> error_state \<Rightarrow> pyfloat option \<Rightarrow> staleness_state \<Rightarrow> thresholds \<Rightarrow> bool" where
  "permission_sound row expected behind p er rate st th \<longleftrightarrow>
     \<not> marked (dget row ''tp_stale'') \<and> behind \<le> max_tp_age_sessions th
     \<and> (row_market row \<in> set US_STALENESS_MARKETS \<longrightarrow> st_status st = StClear \<and> st_source st = SrcOk)
     \<and> (\<exists>s. po_session p = Some s \<and> str_le expected s)
     \<and> (\<exists>move. price_move row p = Some move \<and> \<not> flt (max_price_move_percent th) move)
     \<and> (\<exists>x. number (dget row ''method_dispersion_percent'') = Some x \<and> \<not> flt (max_method_dispersion_percent th) x)
     \<and> (\<exists>x. number (dget row ''valuation_confidence'') = Some x \<and> \<not> flt x (min_valuation_confidence th))
     \<and> (\<forall>f\<in>set (data_defect_fields th). \<not> marked (dget row f))
     \<and> (\<exists>entry buy_in e h. entry_price_of p = Some entry \<and> positive (dget row ''buy_in'') = Some buy_in \<and> fle entry buy_in
          \<and> e_profile_of er = Some e \<and> num_opt rate = Some h
          \<and> (\<forall>tp. positive (dget row ''our_tp'') = Some tp \<longrightarrow> margin_ok entry tp e h))"

lemma staleness_clean:
  "staleness_codes row st = [] \<Longrightarrow> row_market row \<in> set US_STALENESS_MARKETS \<Longrightarrow> st_status st = StClear \<and> st_source st = SrcOk"
  by (auto simp: staleness_codes_def Let_def split: if_splits)

lemma price_clean:
  "price_codes row p expected th = [] \<Longrightarrow>
     (\<exists>s. po_session p = Some s \<and> str_le expected s) \<and> (\<exists>m. price_move row p = Some m \<and> \<not> flt (max_price_move_percent th) m)"
  by (auto simp: price_codes_def split: option.splits if_splits)

lemma quality_clean:
  "quality_codes row th = [] \<Longrightarrow>
     (\<exists>x. number (dget row ''method_dispersion_percent'') = Some x \<and> \<not> flt (max_method_dispersion_percent th) x)
     \<and> (\<exists>x. number (dget row ''valuation_confidence'') = Some x \<and> \<not> flt x (min_valuation_confidence th))
     \<and> (\<forall>f\<in>set (data_defect_fields th). \<not> marked (dget row f))"
  unfolding quality_codes_def Let_def append_is_Nil_conv
  by (auto simp: list_ex_iff split: option.splits if_splits)

lemma entry_known: "price_move row p = Some m \<Longrightarrow> \<exists>entry. entry_price_of p = Some entry"
  by (auto simp: price_move_def entry_price_of_def split: option.splits)

lemma margin_clean:
  "margin_codes row p er h = [] \<Longrightarrow> entry_price_of p = Some entry \<Longrightarrow>
     \<exists>buy_in e hm. positive (dget row ''buy_in'') = Some buy_in \<and> fle entry buy_in \<and> e_profile_of er = Some e \<and> h = Some hm
       \<and> (\<forall>tp. positive (dget row ''our_tp'') = Some tp \<longrightarrow> margin_ok entry tp e hm)"
  by (auto simp: margin_codes_def split: option.splits if_splits)


definition sample_row :: pydict where
  "sample_row = map_of [(''official_market'', VStr ''NYSE''), (''fundamentals_as_of'', VStr ''2026-06-30''),
     (''price'', VInt 100), (''our_tp'', VInt 150), (''buy_in'', VInt 120), (''signal_quality'', VStr ''validated''),
     (''method_dispersion_percent'', VInt 20), (''valuation_confidence'', VInt 80)]"

definition sample_events :: event_facts where
  "sample_events = \<lparr>ev_market = Some ''NYSE'', ev_earnings = Some \<lparr>ef_status = EsCalendar, ef_within = False, ef_row_invalid = False\<rparr>,
     ev_consensus = None, ev_sentiment = None\<rparr>"

definition sample_price :: price_obs where
  "sample_price = \<lparr>po_price = Some (Fin 101), po_ask = None, po_session = Some ''2026-07-31''\<rparr>"

definition sample_outcome :: "outcome option" where
  "sample_outcome = decide sample_row ''2026-07-31'' 0 (Some sample_price) \<lparr>er_status = ErrOk, er_value = Some (Fin (1 / 8))\<rparr>
     (Some (Fin (1 / 16))) \<lparr>st_status = StClear, st_source = SrcOk\<rparr> sample_events THRESHOLDS"

lemma sample_outcome_value: "map_option oc_verdict sample_outcome = Some COMPRA_PERMITIDA"
  by code_simp


text \<open>
  Events only withhold: with the event gates a name is vetoed exactly when it is vetoed without
  them, is permitted only when it is permitted without them, and becomes \<open>OBSERVAR\<close> exactly when a
  gating event was raised on a name otherwise permitted or it was \<open>OBSERVAR\<close> already.
\<close>

theorem events_only_withhold:
  assumes "decide row expected behind price er rate st ev th = Some oc"
  shows "(oc_verdict oc = VETO \<longleftrightarrow> oc_verdict_without_events oc = VETO)
    \<and> (oc_verdict oc = COMPRA_PERMITIDA \<longleftrightarrow>
         oc_verdict_without_events oc = COMPRA_PERMITIDA \<and> (\<forall>c\<in>set (event_codes ev th). \<not> gates_here row ev th c))"
  using assms
proof (elim decide_elim)
  fix day gates codes
  assume d: "gates = filter (gates_here row ev th) (event_codes ev th)" "oc_verdict oc = fst (verdict_of (codes @ gates))"
    "oc_verdict_without_events oc = fst (verdict_of codes)"
  have "c \<notin> set VETO_CODES" if "c \<in> set gates" for c using that d(1) event_codes_no_veto by auto
  then show ?thesis unfolding d(2,3) verdict_of_cases by (auto simp: d(1) filter_empty_conv)
qed

lemma events_only_withhold_witness:
  "\<exists>oc. sample_outcome = Some oc \<and> (oc_verdict oc = VETO \<longleftrightarrow> oc_verdict_without_events oc = VETO)"
proof -
  obtain oc where oc: "sample_outcome = Some oc" using sample_outcome_value by (cases sample_outcome) auto
  then show ?thesis using events_only_withhold [OF oc [unfolded sample_outcome_def]] by blast
qed

text \<open>
  the news sentiment, whose source overwrites itself, never changes a verdict or its reasons,
  whatever it reads and whatever codes the thresholds block lists as gates.
\<close>

theorem sentiment_never_decides:
  "map_option (\<lambda>oc. (oc_verdict oc, oc_reason_codes oc, oc_verdict_without_events oc))
     (decide row expected behind price er rate st (ev\<lparr>ev_sentiment := s\<rparr>) th)
   = map_option (\<lambda>oc. (oc_verdict oc, oc_reason_codes oc, oc_verdict_without_events oc))
     (decide row expected behind price er rate st ev th)"
proof -
  have g: "gates_here row (ev\<lparr>ev_sentiment := s\<rparr>) th = gates_here row ev th"
    by (rule ext) (simp add: gates_here_def event_market_def Let_def)
  have "\<not> gates_here row ev th NEWS_SENTIMENT_NEGATIVE" by (simp add: gates_here_def NEVER_GATES_def Let_def)
  then have "filter (gates_here row ev th) (event_codes (ev\<lparr>ev_sentiment := s\<rparr>) th) = filter (gates_here row ev th) (event_codes ev th)"
    by (simp add: event_codes_def consensus_cut_def Let_def)
  then show ?thesis unfolding decide_def g by (simp add: Let_def split: prod.split bind_split option.split)
qed

text \<open>
  the margin gate is skipped when the row carries no positive target: a row without one is still
  permitted, on its buy-in alone, although the rule asks for the target to clear the entry price.
\<close>

theorem permission_without_target:
  "positive (dget (sample_row(''our_tp'' := None)) ''our_tp'') = None
   \<and> map_option oc_verdict
      (decide (sample_row(''our_tp'' := None)) ''2026-07-31'' 0 (Some sample_price) \<lparr>er_status = ErrOk, er_value = Some (Fin (1 / 8))\<rparr>
        (Some (Fin (1 / 16))) \<lparr>st_status = StClear, st_source = SrcOk\<rparr> sample_events THRESHOLDS)
      = Some COMPRA_PERMITIDA"
  by code_simp

end
