(* ===== verification/DecisorInputs.thy ===== *)
theory DecisorInputs
  imports Decisor
begin

text \<open>
  \<open>c3po/backend/app/valuation_decision.py\<close>, the inputs of a verdict: the measured error, the price
  observation, the as-filed poll and its coverage, the filings state of a name, the earnings facts
  (calendars and the cadence estimate), the consensus and the sentiment.  Instants are microseconds,
  dates ordinals; snapshots are what the database methods return.  The exchange calendars (a
  third-party package) are the fields of \<open>exchange\<close>, the New York day of an instant is \<open>ny_day\<close>, and
  the natural logarithm of the C library is \<open>log_e\<close> where it appears.
\<close>

section \<open>Time\<close>

definition seconds_us :: "int \<Rightarrow> int" where "seconds_us n = n * 1000000"
definition minutes_us :: "int \<Rightarrow> int" where "minutes_us n = seconds_us (n * 60)"
definition hours_us :: "int \<Rightarrow> int" where "hours_us n = seconds_us (n * 3600)"
definition days_us :: "int \<Rightarrow> int" where "days_us n = seconds_us (n * 86400)"

section \<open>The measured error of a profile\<close>

record calibration_snapshot =
  cal_published_at :: int
  cal_outputs :: pydict
  cal_metrics :: "string \<Rightarrow> pydict option"

definition entry_samples :: "pydict option \<Rightarrow> pyfloat option" where
  "entry_samples e = (case e of None \<Rightarrow> None | Some d \<Rightarrow> number (dget d ''samples''))"

definition below_min_samples :: "pyfloat option \<Rightarrow> thresholds \<Rightarrow> bool" where
  "below_min_samples s th = (case s of None \<Rightarrow> True | Some x \<Rightarrow> flt x (fint (min_profile_samples th)))"

definition profile_error :: "calibration_snapshot option \<Rightarrow> string \<Rightarrow> int \<Rightarrow> thresholds \<Rightarrow> error_state" where
  "profile_error snapshot profile now th =
     (let unavailable = \<lparr>er_status = ErrUnavailable, er_value = None\<rparr>;
          warming = \<lparr>er_status = ErrWarmingUp, er_value = None\<rparr> in
      case snapshot of
        None \<Rightarrow> unavailable
      | Some snap \<Rightarrow>
          let horizon = number (dget (cal_outputs snap) ''observed_horizon_days'') in
          if days_us (calibration_max_age_days th) < now - cal_published_at snap then unavailable
          else if dget (cal_outputs snap) ''status'' \<noteq> VStr ''active''
            \<or> (case horizon of None \<Rightarrow> True
               | Some h \<Rightarrow> \<not> between (fint (calibration_min_horizon_days th)) h (fint (calibration_max_horizon_days th)))
          then warming
          else
            let e0 = cal_metrics snap profile;
                e = (if below_min_samples (entry_samples e0) th \<and> allow_global_error_fallback th
                     then cal_metrics snap ''global'' else e0) in
            if below_min_samples (entry_samples e) th then warming
            else case (case e of None \<Rightarrow> None | Some d \<Rightarrow> number (dget d ''median_absolute_error_percent'')) of
                None \<Rightarrow> unavailable
              | Some measured \<Rightarrow> if flt measured (fint 0) then unavailable
                  else \<lparr>er_status = ErrOk, er_value = Some (fdiv measured (fint 100))\<rparr>)"

section \<open>The price observation\<close>

record quote =
  qt_price :: pyval
  qt_ask :: pyval
  qt_as_of :: "int option"

datatype price_source = QuoteSource | LatestUniverse | OfficialCut | NoSource

datatype refusal = NoPositivePrice | NoAsOf | AsOfAfterClock | QuoteTooOld

record universe_snapshot =
  un_id :: string
  un_published_at :: "int option"
  un_rows :: "pydict list"

record served_row =
  sr_fields :: pydict
  sr_cycle_id :: string
  sr_prediction_instant :: int
  sr_session_date :: "string option"

record observation =
  ob_price :: price_obs
  ob_source :: price_source
  ob_refused :: "refusal option"

definition quote_answer :: "(int \<Rightarrow> string option) \<Rightarrow> quote \<Rightarrow> int \<Rightarrow> thresholds \<Rightarrow> refusal + observation" where
  "quote_answer session_of q now th =
     (case positive (qt_price q) of
        None \<Rightarrow> Inl NoPositivePrice
      | Some price \<Rightarrow>
          (case qt_as_of q of
             None \<Rightarrow> Inl NoAsOf
           | Some quoted_at \<Rightarrow>
               if now < quoted_at then Inl AsOfAfterClock
               else if minutes_us (max_quote_age_minutes th) < now - quoted_at then Inl QuoteTooOld
               else Inr \<lparr>ob_price = \<lparr>po_price = Some price, po_ask = positive (qt_ask q), po_session = session_of quoted_at\<rparr>,
                         ob_source = QuoteSource, ob_refused = None\<rparr>))"

definition symbol_of :: "pydict \<Rightarrow> string" where
  "symbol_of d = (let v = dget d ''symbol'' in if truthy v then (case text_of v of None \<Rightarrow> [] | Some t \<Rightarrow> upper_text t) else [])"

definition cut_answer :: "served_row \<Rightarrow> refusal option \<Rightarrow> observation" where
  "cut_answer row refused =
     (case positive (dget (sr_fields row) ''price'') of
        None \<Rightarrow> \<lparr>ob_price = no_price, ob_source = NoSource, ob_refused = refused\<rparr>
      | Some price \<Rightarrow> \<lparr>ob_price = \<lparr>po_price = Some price, po_ask = None, po_session = sr_session_date row\<rparr>,
                        ob_source = OfficialCut, ob_refused = refused\<rparr>)"

definition price_observation ::
    "(int \<Rightarrow> string option) \<Rightarrow> served_row \<Rightarrow> string \<Rightarrow> int \<Rightarrow> quote option \<Rightarrow> universe_snapshot option \<Rightarrow> thresholds \<Rightarrow> observation" where
  "price_observation session_of row symbol now q latest th =
     (let answered = map_option (\<lambda>q. quote_answer session_of q now th) q;
          refused = (case answered of Some (Inl r) \<Rightarrow> Some r | _ \<Rightarrow> None) in
      case answered of
        Some (Inr ob) \<Rightarrow> ob
      | _ \<Rightarrow>
          (case latest of
             Some u \<Rightarrow>
               (case un_published_at u of
                  Some published \<Rightarrow>
                    if un_id u \<noteq> sr_cycle_id row \<and> sr_prediction_instant row < published
                    then (case find (\<lambda>c. symbol_of c = symbol \<and> positive (dget c ''price'') \<noteq> None) (un_rows u) of
                            Some c \<Rightarrow> \<lparr>ob_price = \<lparr>po_price = positive (dget c ''price''), po_ask = None, po_session = session_of published\<rparr>,
                                       ob_source = LatestUniverse, ob_refused = refused\<rparr>
                          | None \<Rightarrow> cut_answer row refused)
                    else cut_answer row refused
                | None \<Rightarrow> cut_answer row refused)
           | None \<Rightarrow> cut_answer row refused))"

section \<open>The as-filed poll and the filings state\<close>

record poll_run =
  pr_started_at :: "int option"
  pr_completed_at :: "int option"
  pr_failed_issuers :: "string list option"
  pr_unattributed_failures :: "int option"
  pr_observed_issuers :: "string list option"

record coverage =
  cv_known :: bool
  cv_failed :: "string list"
  cv_unattributed :: int
  cv_observed :: "string list option"

definition poll_coverage :: "poll_run option \<Rightarrow> coverage" where
  "poll_coverage run =
     (case run of
        None \<Rightarrow> \<lparr>cv_known = False, cv_failed = [], cv_unattributed = 0, cv_observed = None\<rparr>
      | Some r \<Rightarrow> \<lparr>cv_known = (pr_failed_issuers r \<noteq> None \<and> pr_unattributed_failures r \<noteq> None),
                   cv_failed = (case pr_failed_issuers r of None \<Rightarrow> [] | Some xs \<Rightarrow> xs),
                   cv_unattributed = (case pr_unattributed_failures r of None \<Rightarrow> 0 | Some n \<Rightarrow> n),
                   cv_observed = pr_observed_issuers r\<rparr>)"

definition poll_fresh :: "poll_run option \<Rightarrow> int option \<Rightarrow> thresholds \<Rightarrow> bool" where
  "poll_fresh poll known_at th =
     (case (poll, known_at) of
        (Some r, Some clock) \<Rightarrow>
          (case (pr_started_at r, pr_completed_at r) of
             (Some started, Some completed) \<Rightarrow>
               clock - hours_us (staleness_poll_max_age_hours th) \<le> started \<and> started \<le> completed
               \<and> completed \<le> clock - seconds_us (insert_margin_seconds th)
           | _ \<Rightarrow> False)
      | _ \<Rightarrow> False)"

record staleness_read =
  rd_status_ok :: bool
  rd_known_at :: "int option"
  rd_poll :: "poll_run option"
  rd_coverage :: coverage
  rd_pending :: "string \<Rightarrow> pydict list"

definition covered :: "coverage \<Rightarrow> string option \<Rightarrow> bool" where
  "covered cv issuer =
     (if \<not> cv_known cv then False
      else if 0 < cv_unattributed cv then False
      else case cv_observed cv of
          Some observed \<Rightarrow> (case issuer of None \<Rightarrow> False | Some i \<Rightarrow> i \<in> set observed)
        | None \<Rightarrow> \<not> (cv_failed cv \<noteq> [] \<and> (case issuer of None \<Rightarrow> True | Some i \<Rightarrow> i \<in> set (cv_failed cv))))"

definition name_staleness ::
    "staleness_read option \<Rightarrow> string \<Rightarrow> string \<Rightarrow> string option \<Rightarrow> thresholds \<Rightarrow> staleness_state" where
  "name_staleness source market symbol issuer th =
     (if market \<notin> set US_STALENESS_MARKETS then \<lparr>st_status = StNotApplicable, st_source = SrcNone\<rparr>
      else case source of
          None \<Rightarrow> \<lparr>st_status = StClear, st_source = SrcStale\<rparr>
        | Some read \<Rightarrow>
            let live = poll_fresh (rd_poll read) (rd_known_at read) th;
                fresh = live \<and> covered (rd_coverage read) issuer;
                pending = (if \<not> fresh \<and> \<not> rd_status_ok read then [] else rd_pending read symbol) in
            if fresh \<and> \<not> rd_status_ok read then \<lparr>st_status = StUnavailable, st_source = SrcUnavailable\<rparr>
            else \<lparr>st_status = (if pending \<noteq> [] then StStale else StClear), st_source = (if fresh then SrcOk else SrcStale)\<rparr>)"

section \<open>Earnings: the exchange sessions\<close>

record exchange =
  ex_window :: "string \<Rightarrow> nat \<Rightarrow> string list option"
  ex_on_or_after :: "string \<Rightarrow> string option"
  ex_next_session :: "string \<Rightarrow> string option"

definition calendar_sessions :: "exchange \<Rightarrow> string \<Rightarrow> int \<Rightarrow> string list option" where
  "calendar_sessions ex expected count =
     (if count \<le> 0 then Some []
      else case ex_window ex expected (nat (count + 1)) of
          None \<Rightarrow> None
        | Some sessions \<Rightarrow>
            if length sessions \<noteq> nat (count + 1) \<or> hd sessions \<noteq> expected then None else Some (tl sessions))"

definition reaction_sessions :: "exchange \<Rightarrow> string \<Rightarrow> string option \<Rightarrow> string option \<times> string option" where
  "reaction_sessions ex report_date timing =
     (case ex_on_or_after ex report_date of
        None \<Rightarrow> (None, None)
      | Some report \<Rightarrow>
          if timing = Some ''BeforeMarket'' then (Some report, Some report)
          else if report \<noteq> report_date then (Some report, Some report)
          else (Some report, ex_next_session ex report_date))"

definition reaches :: "(string \<Rightarrow> bool) \<Rightarrow> string option \<times> string option \<Rightarrow> bool" where
  "reaches inside sessions \<longleftrightarrow>
     (case fst sessions of None \<Rightarrow> False | Some s \<Rightarrow> inside s) \<or> (case snd sessions of None \<Rightarrow> False | Some s \<Rightarrow> inside s)"

definition provider_codes :: "string \<Rightarrow> string \<Rightarrow> string list" where
  "provider_codes market symbol =
     (if market = ''B3'' then [symbol @ ''.SA'']
      else let a = symbol @ ''.US''; b = map (\<lambda>c. if c = CHR ''.'' then CHR ''-'' else c) symbol @ ''.US''
           in if a = b then [a] else [a, b])"

section \<open>Earnings: the calendars\<close>

record calendar_event =
  ce_report_date :: string
  ce_timing :: "string option"

record calendar =
  cl_snapshot_id :: string
  cl_received_at :: string
  cl_us_events :: int
  cl_invalid_share :: pyfloat
  cl_request_from :: string
  cl_request_to :: string
  cl_by_code :: "string \<Rightarrow> calendar_event list"
  cl_blocking :: "string \<Rightarrow> bool"

record calendars =
  cs_recent :: "calendar list"
  cs_older :: "calendar option"

definition text_or :: "string \<Rightarrow> string \<Rightarrow> string" where
  "text_or t d = (if t = [] then d else t)"

definition calendar_usable :: "calendar \<Rightarrow> string list \<Rightarrow> thresholds \<Rightarrow> bool" where
  "calendar_usable c window th \<longleftrightarrow>
     \<not> cl_us_events c < max (earnings_calendar_min_us_events th) 1
     \<and> \<not> flt (earnings_calendar_max_invalid_share th) (cl_invalid_share c)
     \<and> (window = [] \<or> str_le (text_or (cl_request_from c) ''9999'') (hd window) \<and> str_le (last window) (cl_request_to c))"

fun insert_calendar :: "calendar \<Rightarrow> calendar list \<Rightarrow> calendar list" where
  "insert_calendar c [] = [c]"
| "insert_calendar c (d # ds) =
     (if str_less (cl_received_at c) (cl_received_at d) then c # d # ds else d # insert_calendar c ds)"

definition oldest_first :: "calendar list \<Rightarrow> calendar list" where
  "oldest_first cs = foldl (\<lambda>acc c. insert_calendar c acc) [] cs"

section \<open>Earnings: the cadence estimate\<close>

record filing =
  fg_form :: string
  fg_items :: string
  fg_accepted_at :: int
  fg_period :: "string option"

definition filing_period :: "filing \<Rightarrow> int option" where
  "filing_period f = (case fg_period f of None \<Rightarrow> None | Some t \<Rightarrow> date_fromisoformat (take 10 t))"

fun split_on :: "char \<Rightarrow> string \<Rightarrow> string \<Rightarrow> string list" where
  "split_on c acc [] = [rev acc]"
| "split_on c acc (x # xs) = (if x = c then rev acc # split_on c [] xs else split_on c (x # acc) xs)"

fun insert_filing :: "filing \<Rightarrow> filing list \<Rightarrow> filing list" where
  "insert_filing f [] = [f]"
| "insert_filing f (g # gs) = (if fg_accepted_at f < fg_accepted_at g then f # g # gs else g # insert_filing f gs)"

definition by_acceptance :: "filing list \<Rightarrow> filing list" where
  "by_acceptance fs = foldl (\<lambda>acc f. insert_filing f acc) [] fs"

definition period_or :: "filing \<Rightarrow> int" where
  "period_or f = (case filing_period f of None \<Rightarrow> 0 | Some d \<Rightarrow> d)"

text \<open>\<open>min(prior, key=...)\<close> and \<open>max(candidates, key=...)\<close>: the first of the extreme ones.\<close>

fun min_by :: "('a \<Rightarrow> int) \<Rightarrow> 'a \<Rightarrow> 'a list \<Rightarrow> 'a" where
  "min_by key best [] = best"
| "min_by key best (x # xs) = (if key x < key best then min_by key x xs else min_by key best xs)"

definition releases_of :: "filing list \<Rightarrow> filing list" where
  "releases_of fs = by_acceptance (filter (\<lambda>f. fg_form f = ''8-K'' \<and> ''2.02'' \<in> set (split_on (CHR '','') [] (fg_items f))) fs)"

definition statements_of :: "filing list \<Rightarrow> filing list" where
  "statements_of fs = by_acceptance (filter (\<lambda>f. (fg_form f = ''10-Q'' \<or> fg_form f = ''10-K'') \<and> filing_period f \<noteq> None) fs)"

definition last_where :: "('a \<Rightarrow> bool) \<Rightarrow> 'a list \<Rightarrow> 'a option" where
  "last_where P xs = find P (rev xs)"

definition seasonal_estimate :: "(int \<Rightarrow> int) \<Rightarrow> filing list \<Rightarrow> filing list \<Rightarrow> thresholds \<Rightarrow> int option" where
  "seasonal_estimate ny_day releases statements th =
     (case statements of
        [] \<Rightarrow> None
      | s # ss \<Rightarrow>
          let latest = foldl max (period_or s) (map period_or ss);
              target = next_quarter_end latest - earnings_estimate_seasonal_days th;
              distance = (\<lambda>f. \<bar>period_or f - target\<bar>);
              prior = filter (\<lambda>f. distance f \<le> earnings_estimate_period_match_days th) statements in
          (case prior of
             [] \<Rightarrow> None
           | p # ps \<Rightarrow>
               let statement = min_by distance p ps;
                   prior_end = period_or statement;
                   base = (case find (\<lambda>f. prior_end < ny_day (fg_accepted_at f)
                                        \<and> ny_day (fg_accepted_at f) \<le> next_quarter_end prior_end) releases of
                             Some r \<Rightarrow> r | None \<Rightarrow> statement)
               in Some (ny_day (fg_accepted_at base) + earnings_estimate_seasonal_days th)))"

definition recent_estimate :: "(int \<Rightarrow> int) \<Rightarrow> filing list \<Rightarrow> filing list \<Rightarrow> thresholds \<Rightarrow> int option" where
  "recent_estimate ny_day releases statements th =
     (let quarterly = last_where (\<lambda>f. fg_form f = ''10-Q'') statements;
          annual = last_where (\<lambda>f. fg_form f = ''10-K'') statements;
          candidates = List.map_filter id [if releases = [] then None else Some (last releases), quarterly, annual] in
      case candidates of
        [] \<Rightarrow> None
      | c # cs \<Rightarrow>
          let base = min_by (\<lambda>f. - fg_accepted_at f) c cs in
          if fg_form base = ''10-K'' \<and> filing_period base \<noteq> None
          then let lag = (case quarterly of None \<Rightarrow> earnings_estimate_default_10q_lag_days th
                          | Some q \<Rightarrow> ny_day (fg_accepted_at q) - period_or q)
               in Some (period_or base + earnings_estimate_offset_days th + lag)
          else Some (ny_day (fg_accepted_at base) + earnings_estimate_offset_days th))"

definition cadence_estimate :: "(int \<Rightarrow> int) \<Rightarrow> filing list \<Rightarrow> thresholds \<Rightarrow> int option" where
  "cadence_estimate ny_day filings th =
     (let originals = filter (\<lambda>f. fg_form f \<in> {''8-K'', ''10-Q'', ''10-K''}) filings;
          releases = releases_of originals; statements = statements_of originals in
      case seasonal_estimate ny_day releases statements th of
        Some d \<Rightarrow> Some d
      | None \<Rightarrow> recent_estimate ny_day releases statements th)"

definition estimate_within :: "exchange \<Rightarrow> int \<Rightarrow> string list \<Rightarrow> thresholds \<Rightarrow> bool" where
  "estimate_within ex estimated window th =
     (let tol = earnings_estimate_tolerance_days th;
          day = (\<lambda>t. case date_fromisoformat t of None \<Rightarrow> 0 | Some d \<Rightarrow> d);
          low = iso_text (day (hd window) - tol); high = iso_text (day (last window) + tol)
      in reaches (\<lambda>s. str_le low s \<and> str_le s high) (reaction_sessions ex (iso_text estimated) None))"

section \<open>Earnings of a name\<close>

definition name_earnings ::
    "exchange \<Rightarrow> (int \<Rightarrow> int) \<Rightarrow> calendars \<Rightarrow> filing list option \<Rightarrow> string \<Rightarrow> string \<Rightarrow> string \<Rightarrow> thresholds \<Rightarrow> earnings_facts" where
  "name_earnings ex ny_day cals filings market symbol expected th =
     (case calendar_sessions ex expected (earnings_window_sessions th) of
        None \<Rightarrow> \<lparr>ef_status = EsUnavailable, ef_within = False, ef_row_invalid = False\<rparr>
      | Some window \<Rightarrow>
          let recent = oldest_first (cs_recent cals);
              pool = (case cs_older cals of None \<Rightarrow> [] | Some c \<Rightarrow> [c]) @ recent;
              codes = provider_codes market symbol;
              events = concat (map (\<lambda>c. concat (map (cl_by_code c) codes)) pool);
              in_window = list_ex (\<lambda>e. reaches (\<lambda>s. s \<in> set window) (reaction_sessions ex (ce_report_date e) (ce_timing e))) events;
              blocked = list_ex (\<lambda>c. list_ex (cl_blocking c) codes) pool;
              usable = filter (\<lambda>c. calendar_usable c window th
                                 \<and> cl_snapshot_id c \<in> set (map cl_snapshot_id recent)) pool;
              newest_lists = (usable \<noteq> [] \<and> list_ex (\<lambda>code. cl_by_code (last usable) code \<noteq> []) codes);
              estimate = (if market \<in> set US_STALENESS_MARKETS \<and> window \<noteq> []
                          then (case filings of None \<Rightarrow> None
                                | Some fs \<Rightarrow> map_option (\<lambda>d. estimate_within ex d window th) (cadence_estimate ny_day fs th))
                          else None)
          in if in_window then \<lparr>ef_status = EsCalendar, ef_within = True, ef_row_invalid = blocked\<rparr>
             else if newest_lists \<and> \<not> blocked then \<lparr>ef_status = EsCalendar, ef_within = False, ef_row_invalid = blocked\<rparr>
             else case estimate of
                 Some hit \<Rightarrow> \<lparr>ef_status = EsEstimated, ef_within = hit, ef_row_invalid = blocked\<rparr>
               | None \<Rightarrow> \<lparr>ef_status = (if blocked then EsRowInvalid else EsUnavailable), ef_within = False, ef_row_invalid = blocked\<rparr>)"

section \<open>Consensus and sentiment\<close>

record packet =
  pk_fy1 :: "pydict option"
  pk_forward :: "pydict list"

datatype consensus_status = CsOk | CsNotComparable | CsUnavailable

record consensus =
  co_status :: consensus_status
  co_log_change :: "pyfloat option"
  co_turned :: bool

definition eps_of :: "pydict \<Rightarrow> pyfloat option" where
  "eps_of d = number (dget d ''eps_avg'')"

definition name_consensus ::
    "(pyfloat \<Rightarrow> pyfloat) \<Rightarrow> (string \<Rightarrow> packet option) option \<Rightarrow> (string \<Rightarrow> packet option) option \<Rightarrow> string \<Rightarrow> consensus" where
  "name_consensus log_e current past symbol =
     (let unavailable = \<lparr>co_status = CsUnavailable, co_log_change = None, co_turned = False\<rparr>;
          not_comparable = \<lparr>co_status = CsNotComparable, co_log_change = None, co_turned = False\<rparr> in
      case (current, past) of
        (Some cur, Some pst) \<Rightarrow>
          (case (case pst symbol of None \<Rightarrow> None | Some pk \<Rightarrow> pk_fy1 pk) of
             None \<Rightarrow> unavailable
           | Some fy1 \<Rightarrow>
               (case eps_of fy1 of
                  None \<Rightarrow> unavailable
                | Some past_eps \<Rightarrow>
                    let fiscal = text_of (dget fy1 ''fiscal_year_end'');
                        rows = (case cur symbol of None \<Rightarrow> []
                                | Some pk \<Rightarrow> (case pk_fy1 pk of None \<Rightarrow> [] | Some d \<Rightarrow> [d]) @ pk_forward pk) in
                    (case find (\<lambda>d. text_of (dget d ''fiscal_year_end'') = fiscal \<and> eps_of d \<noteq> None) rows of
                       None \<Rightarrow> not_comparable
                     | Some same \<Rightarrow>
                         if fle past_eps (fint 0) then not_comparable
                         else (case eps_of same of
                             None \<Rightarrow> \<lparr>co_status = CsOk, co_log_change = None, co_turned = True\<rparr>
                           | Some now \<Rightarrow>
                               if fle now (fint 0) then \<lparr>co_status = CsOk, co_log_change = None, co_turned = True\<rparr>
                               else \<lparr>co_status = CsOk, co_log_change = Some (log_e (fdiv now past_eps)), co_turned = False\<rparr>))))
      | _ \<Rightarrow> unavailable)"

record sentiment_row =
  sn_published_at :: "int option"
  sn_metadata :: pydict

definition name_sentiment :: "sentiment_row option \<Rightarrow> string \<Rightarrow> int \<Rightarrow> sentiment_facts" where
  "name_sentiment read market now =
     (let absent = \<lparr>sf_ok = False, sf_bearish_percent = None, sf_articles = None, sf_age_days = None\<rparr> in
      if market \<notin> set US_STALENESS_MARKETS then absent
      else case read of None \<Rightarrow> absent
        | Some r \<Rightarrow>
            \<lparr>sf_ok = True, sf_bearish_percent = number (dget (sn_metadata r) ''bearish_percent''),
             sf_articles = number (dget (sn_metadata r) ''articles_last_week''),
             sf_age_days = (case sn_published_at r of None \<Rightarrow> None
               | Some p \<Rightarrow> Some (fdiv (fl (of_int (now - p) / 1000000)) (fint 86400)))\<rparr>)"

section \<open>Serving a verdict\<close>

record view =
  vw_current :: bool
  vw_verdict :: verdict
  vw_codes :: "code list"

definition view_of :: "string option \<Rightarrow> string \<Rightarrow> string option \<Rightarrow> string \<Rightarrow> verdict \<Rightarrow> code list \<Rightarrow> view" where
  "view_of session_now record_session served_sha record_sha v codes =
     (let session_current = (session_now = Some record_session);
          tp_served = (served_sha = Some record_sha);
          downgrades = (if session_current then [] else [VERDICT_NOT_CURRENT]) @ (if tp_served then [] else [VERDICT_TP_NOT_SERVED])
      in \<lparr>vw_current = (downgrades = []), vw_verdict = (if downgrades \<noteq> [] then VETO else v),
          vw_codes = (if downgrades \<noteq> [] then downgrades else codes)\<rparr>)"

definition not_before :: "int option \<Rightarrow> int \<Rightarrow> thresholds \<Rightarrow> int option" where
  "not_before latest now th =
     (let margin = seconds_us (insert_margin_seconds th) in
      case latest of None \<Rightarrow> None | Some l \<Rightarrow> if now + margin < l then None else Some (l + margin))"

section \<open>Properties\<close>

text \<open>
  A US name is answered clear by a live source only when the run's poll succeeded recently enough
  and before the margin, covered the name's issuer, the staleness table was read, and no mark of the
  name is pending; everything else fails closed.
\<close>

theorem staleness_fails_closed:
  assumes "market \<in> set US_STALENESS_MARKETS"
  shows "name_staleness source market symbol issuer th = \<lparr>st_status = StClear, st_source = SrcOk\<rparr> \<longleftrightarrow>
    (case source of None \<Rightarrow> False
     | Some read \<Rightarrow> poll_fresh (rd_poll read) (rd_known_at read) th \<and> covered (rd_coverage read) issuer
         \<and> rd_status_ok read \<and> rd_pending read symbol = [])"
  using assms by (auto simp: name_staleness_def Let_def split: option.split)

definition live_read :: staleness_read where
  "live_read = \<lparr>rd_status_ok = True, rd_known_at = Some (hours_us 10),
     rd_poll = Some \<lparr>pr_started_at = Some (hours_us 8), pr_completed_at = Some (hours_us 9), pr_failed_issuers = Some [],
       pr_unattributed_failures = Some 0, pr_observed_issuers = Some [''320193'']\<rparr>,
     rd_coverage = \<lparr>cv_known = True, cv_failed = [], cv_unattributed = 0, cv_observed = Some [''320193'']\<rparr>, rd_pending = (\<lambda>_. [])\<rparr>"

lemma staleness_fails_closed_witness:
  "name_staleness (Some live_read) ''NYSE'' ''A'' (Some ''320193'') THRESHOLDS = \<lparr>st_status = StClear, st_source = SrcOk\<rparr>
   \<and> name_staleness (Some live_read) ''NYSE'' ''A'' None THRESHOLDS \<noteq> \<lparr>st_status = StClear, st_source = SrcOk\<rparr>"
  using staleness_fails_closed [of "''NYSE''" "Some live_read" "''A''" "Some ''320193''" THRESHOLDS]
    staleness_fails_closed [of "''NYSE''" "Some live_read" "''A''" None THRESHOLDS]
  by (simp add: US_STALENESS_MARKETS_def live_read_def poll_fresh_def covered_def THRESHOLDS_def hours_us_def seconds_us_def)

lemma quote_answer_sound:
  "quote_answer session_of q now th = Inr ob \<Longrightarrow>
     \<exists>t p. qt_as_of q = Some t \<and> t \<le> now \<and> now - t \<le> minutes_us (max_quote_age_minutes th)
       \<and> po_price (ob_price ob) = Some p \<and> flt (Fin 0) p \<and> po_session (ob_price ob) = session_of t"
  by (auto simp: quote_answer_def positive_def split: option.splits if_splits)

text \<open>
  No look-ahead in the price: the observed price is positive; a quote used was taken at or before
  the run's clock and within the age limit; a universe price comes from another cycle published after
  the target's own; and the session claimed is that of the instant the price belongs to.
\<close>

theorem price_observation_causal:
  "case ob_source (price_observation session_of row symbol now q latest th) of
     QuoteSource \<Rightarrow> (\<exists>t quote. q = Some quote \<and> qt_as_of quote = Some t \<and> t \<le> now
         \<and> now - t \<le> minutes_us (max_quote_age_minutes th)
         \<and> po_session (ob_price (price_observation session_of row symbol now q latest th)) = session_of t)
   | LatestUniverse \<Rightarrow> (\<exists>u t. latest = Some u \<and> un_published_at u = Some t \<and> sr_prediction_instant row < t \<and> un_id u \<noteq> sr_cycle_id row
         \<and> po_session (ob_price (price_observation session_of row symbol now q latest th)) = session_of t)
   | OfficialCut \<Rightarrow> po_session (ob_price (price_observation session_of row symbol now q latest th)) = sr_session_date row
   | NoSource \<Rightarrow> po_price (ob_price (price_observation session_of row symbol now q latest th)) = None"
  by (auto simp: price_observation_def quote_answer_def cut_answer_def no_price_def Let_def
      split: option.split sum.split)

definition calendar_pool :: "calendars \<Rightarrow> calendar list" where
  "calendar_pool cals = (case cs_older cals of None \<Rightarrow> [] | Some c \<Rightarrow> [c]) @ oldest_first (cs_recent cals)"

lemma set_insert_calendar [simp]: "set (insert_calendar c cs) = insert c (set cs)"
  by (induction cs) auto

lemma set_oldest_first [simp]: "set (oldest_first cs) = set cs"
proof -
  have "set (foldl (\<lambda>acc c. insert_calendar c acc) acc cs) = set acc \<union> set cs" for acc
    by (induction cs arbitrary: acc) auto
  then show ?thesis by (simp add: oldest_first_def)
qed

text \<open>
  The earnings window: whenever any calendar read, usable or not, recent or not, lists an event of
  the name whose report or reaction session falls in the window, the name reads as within and the code is
  raised, whatever the other calendars and the filings say.
\<close>

theorem earnings_gate_complete:
  assumes "calendar_sessions ex expected (earnings_window_sessions th) = Some window"
    and "c \<in> set (cs_recent cals) \<or> cs_older cals = Some c" and "code \<in> set (provider_codes market symbol)"
    and "e \<in> set (cl_by_code c code)" and "reaches (\<lambda>s. s \<in> set window) (reaction_sessions ex (ce_report_date e) (ce_timing e))"
  shows "ef_within (name_earnings ex ny_day cals filings market symbol expected th)
    \<and> EARNINGS_WITHIN_N \<in> set (event_codes (ev\<lparr>ev_earnings := Some (name_earnings ex ny_day cals filings market symbol expected th)\<rparr>) th)"
proof -
  let ?events = "concat (map (\<lambda>c. concat (map (cl_by_code c) (provider_codes market symbol))) (calendar_pool cals))"
  have "c \<in> set (calendar_pool cals)" using assms(2) by (auto simp: calendar_pool_def)
  then have "e \<in> set ?events" using assms(3,4) by auto
  then have "list_ex (\<lambda>e. reaches (\<lambda>s. s \<in> set window) (reaction_sessions ex (ce_report_date e) (ce_timing e))) ?events"
    using assms(5) by (auto simp: list_ex_iff)
  then have "ef_within (name_earnings ex ny_day cals filings market symbol expected th)"
    unfolding name_earnings_def assms(1) calendar_pool_def [symmetric] Let_def by simp
  then show ?thesis by (simp add: event_codes_def Let_def)
qed

definition sample_exchange :: exchange where
  "sample_exchange = \<lparr>ex_window = (\<lambda>s n. Some [''2026-07-31'', ''2026-08-03'', ''2026-08-04'']), ex_on_or_after = Some,
     ex_next_session = (\<lambda>s. Some ''2026-08-04'')\<rparr>"

definition sample_calendar :: calendar where
  "sample_calendar = \<lparr>cl_snapshot_id = ''s'', cl_received_at = ''2026-07-01'', cl_us_events = 0, cl_invalid_share = Fin 1,
     cl_request_from = [], cl_request_to = [],
     cl_by_code = (\<lambda>code. if code = ''A.US'' then [\<lparr>ce_report_date = ''2026-08-03'', ce_timing = None\<rparr>] else []), cl_blocking = (\<lambda>_. False)\<rparr>"

lemma earnings_gate_complete_witness:
  "ef_within (name_earnings sample_exchange id \<lparr>cs_recent = [], cs_older = Some sample_calendar\<rparr> None ''NYSE'' ''A'' ''2026-07-31'' THRESHOLDS)"
  using earnings_gate_complete [of sample_exchange "''2026-07-31''" THRESHOLDS "[''2026-08-03'', ''2026-08-04'']" sample_calendar
      "\<lparr>cs_recent = [], cs_older = Some sample_calendar\<rparr>" "''A.US''" "''NYSE''" "''A''"
      "\<lparr>ce_report_date = ''2026-08-03'', ce_timing = None\<rparr>"]
  by (simp add: sample_exchange_def sample_calendar_def calendar_sessions_def THRESHOLDS_def provider_codes_def reaction_sessions_def
      reaches_def)

text \<open>
  A served verdict outlives neither its night nor its target: the effective verdict permits only
  when the session is the last completed one and the generation in force still serves the same row.
\<close>

theorem view_never_outlives_session:
  "vw_verdict (view_of session_now record_session served_sha record_sha v codes) = COMPRA_PERMITIDA \<longleftrightarrow>
     session_now = Some record_session \<and> served_sha = Some record_sha \<and> v = COMPRA_PERMITIDA"
  by (simp add: view_of_def Let_def)

end
