(* ===== verification/PyDecimal.thy ===== *)
theory PyDecimal
  imports PyDate "HOL-Library.Char_ord" "HOL-Library.List_Lexorder" "HOL-Library.Product_Lexorder" "HOL-Library.AList"
begin

text \<open>
  \<open>decimal.Decimal\<close> under the default context: 28 significant digits, round half even, least
  exponent \<open>-1000026\<close>.  A finite \<open>Decimal\<close> is its exact rational value (\<open>-0\<close> is \<open>0\<close>; the
  number of trailing zeros only shows in print).  The constructor and the comparisons are exact;
  every arithmetic operation rounds its exact result with \<open>dec\<close>.  The overflow signal (a value of
  a million digits) is out of reach of the ledgers modelled: the request schema admits numbers of
  at most 18 digits before and 10 after the point.
\<close>

definition dec :: "rat \<Rightarrow> rat" where
  "dec x = rnd 10 28 (- 1000026) x"

lemma dec_0 [simp]: "dec 0 = 0"
  by (simp add: dec_def)

lemma dec_minus [simp]: "dec (- x) = - dec x"
  by (simp add: dec_def)

lemma dec_mono: "x \<le> y \<Longrightarrow> dec x \<le> dec y"
  by (simp add: dec_def rnd_mono)

lemma dec_nonneg [simp, intro]: "0 \<le> x \<Longrightarrow> 0 \<le> dec x"
  by (simp add: dec_def rnd_nonneg)

lemma dec_dec [simp]: "dec (dec x) = dec x"
  by (simp add: dec_def)

definition dec_rep :: "rat \<Rightarrow> bool" where
  "dec_rep x \<longleftrightarrow> representable 10 28 (- 1000026) x"

lemma dec_exact: "dec_rep x \<Longrightarrow> dec x = x"
  unfolding dec_def dec_rep_def by (rule rnd_representable) auto

lemma dec_rep_dec [simp, intro]: "dec_rep (dec x)"
  unfolding dec_def dec_rep_def by (rule representable_rnd) auto

lemma dec_code [code]: "dec x = (case quotient_of x of (n, d) \<Rightarrow> rnd_frac 10 28 (- 1000026) n d)"
proof (cases "quotient_of x")
  case (Pair n d)
  then show ?thesis using rnd_eq [of 10 x n d 28 "- 1000026"] by (simp add: dec_def)
qed

section \<open>\<open>Decimal(text)\<close>\<close>

definition is_nan_text :: "string \<Rightarrow> bool" where
  "is_nan_text w = (let v = (if w \<noteq> [] \<and> hd w = CHR ''s'' then tl w else w)
     in take 3 v = ''nan'' \<and> list_all (\<lambda>c. digit_of c \<noteq> None) (drop 3 v))"

datatype dec_text = DecFinite rat | DecInfinite | DecNaN | DecInvalid

definition parse_decimal :: "string \<Rightarrow> dec_text" where
  "parse_decimal t =
     (case sign_of (filter (\<lambda>c. c \<noteq> CHR ''_'') (strip_text t)) of (neg, s) \<Rightarrow>
      let w = map lower_char s in
      if w = ''inf'' \<or> w = ''infinity'' then DecInfinite
      else if is_nan_text w then DecNaN
      else case parse_unsigned s of None \<Rightarrow> DecInvalid | Some r \<Rightarrow> DecFinite (if neg then - r else r))"

end
