(* ===== verification/Portfolio.thy ===== *)
theory Portfolio
  imports Contracts PyDecimal
begin

text \<open>
  The portfolio ledger: native-currency position accounting (\<open>portfolio_accounting.py\<close>), the
  split basis of historical prices (\<open>portfolio_split_basis.py\<close>) and the validated event store
  (\<open>Database.write_portfolio_event\<close>, \<open>void_portfolio_event\<close>).  Numbers travel as texts and are
  read with \<open>amount\<close>; positions are a dictionary in insertion order.  A raise is a value of
  \<open>ledger_error\<close>; \<open>DecimalSignal\<close> stands for the \<open>ArithmeticError\<close> signals of \<open>decimal\<close>
  (division by zero, invalid operation), the other ones are the \<open>ValueError\<close>s of the code.
\<close>

section \<open>Events and positions\<close>

datatype ledger_error =
    InvalidNumber | NotFiniteOrNegative | DenominatorOnlyInSplit | FeesIntoPosition
  | EmptyPositionWithCost | BuyNotPositive | SaleExceedsHolding | SaleFeesExceedTotal
  | DividendShape | SplitShape | InvalidKind | InvalidDate | AmbiguousDay string | IncompatibleMoves
  | ConflictingSplitBases | BasisRequiresConfirmation | DivergentMarket | IdentifierTaken | AlreadyVoided
  | NotFound | MissingKey | DecimalSignal

definition is_value_error :: "ledger_error \<Rightarrow> bool" where
  "is_value_error e \<longleftrightarrow> e \<notin> {NotFound, MissingKey, DecimalSignal}"

definition amount :: "string \<Rightarrow> ledger_error + rat" where
  "amount t = (case parse_decimal t of
     DecInvalid \<Rightarrow> Inl InvalidNumber
   | DecFinite r \<Rightarrow> if r < 0 then Inl NotFiniteOrNegative else Inr r
   | _ \<Rightarrow> Inl NotFiniteOrNegative)"

record event =
  ev_seq :: int
  ev_request :: string
  ev_symbol :: string
  ev_market :: string
  ev_kind :: string
  ev_date :: string
  ev_quantity :: string
  ev_total :: string
  ev_fees :: string
  ev_denominator :: "string option"

definition denominator_text :: "event \<Rightarrow> string" where
  "denominator_text e = (case ev_denominator e of None \<Rightarrow> ''1'' | Some t \<Rightarrow> t)"

record position =
  quantity :: rat
  basis :: rat
  realized :: rat
  dividends :: rat

definition fresh_position :: position where
  "fresh_position = \<lparr>quantity = 0, basis = 0, realized = 0, dividends = 0\<rparr>"

type_synonym positions = "(string \<times> position) list"

definition position_of :: "positions \<Rightarrow> string \<Rightarrow> position" where
  "position_of ps s = (case map_of ps s of None \<Rightarrow> fresh_position | Some p \<Rightarrow> p)"

definition sorted_events :: "event list \<Rightarrow> event list" where
  "sorted_events es = sort_key (\<lambda>e. (ev_date e, ev_seq e)) es"

section \<open>\<open>replay\<close>\<close>

definition movement :: "string \<Rightarrow> rat \<Rightarrow> rat \<Rightarrow> rat \<Rightarrow> rat \<Rightarrow> position \<Rightarrow> ledger_error + position" where
  "movement kind q t f d p =
     (if kind = ''position'' then
        (if f \<noteq> 0 then Inl FeesIntoPosition
         else if q = 0 \<and> t \<noteq> 0 then Inl EmptyPositionWithCost
         else Inr (p\<lparr>quantity := q, basis := t\<rparr>))
      else if kind = ''buy'' then
        (if q \<le> 0 then Inl BuyNotPositive
         else Inr (p\<lparr>quantity := dec (quantity p + q), basis := dec (basis p + dec (t + f))\<rparr>))
      else if kind = ''sell'' then
        (if q \<le> 0 \<or> quantity p < q then Inl SaleExceedsHolding
         else if t < f then Inl SaleFeesExceedTotal
         else let sold = dec (dec (basis p * q) / quantity p) in
           Inr (p\<lparr>quantity := dec (quantity p - q), basis := dec (basis p - sold),
                  realized := dec (realized p + dec (dec (t - f) - sold))\<rparr>))
      else if kind = ''dividend'' then
        (if q \<noteq> 0 \<or> t < f then Inl DividendShape
         else Inr (p\<lparr>dividends := dec (dividends p + dec (t - f))\<rparr>))
      else if kind = ''split'' then
        (if q \<le> 0 \<or> quantity p \<le> 0 \<or> t \<noteq> 0 \<or> f \<noteq> 0 then Inl SplitShape
         else Inr (p\<lparr>quantity := dec (dec (quantity p * q) / d)\<rparr>))
      else Inl InvalidKind)"

definition apply_event :: "event \<Rightarrow> position \<Rightarrow> ledger_error + position" where
  "apply_event e p =
     ebind (amount (ev_quantity e)) (\<lambda>q. ebind (amount (ev_total e)) (\<lambda>t. ebind (amount (ev_fees e)) (\<lambda>f.
     ebind (amount (denominator_text e)) (\<lambda>d.
       if d \<le> 0 \<or> ev_kind e \<noteq> ''split'' \<and> d \<noteq> 1 then Inl DenominatorOnlyInSplit
       else movement (ev_kind e) q t f d p))))"

definition replay_step :: "int option \<Rightarrow> event \<Rightarrow> positions \<Rightarrow> ledger_error + positions" where
  "replay_step through e ps =
     (let go = ebind (apply_event e (position_of ps (ev_symbol e))) (\<lambda>p. Inr (AList.update (ev_symbol e) p ps)) in
      case through of None \<Rightarrow> go
      | Some day \<Rightarrow> (case date_fromisoformat (ev_date e) of None \<Rightarrow> Inl InvalidDate
          | Some d \<Rightarrow> if day < d then Inr ps else go))"

definition replay :: "event list \<Rightarrow> int option \<Rightarrow> ledger_error + positions" where
  "replay es through = efold (replay_step through) (sorted_events es) []"

section \<open>\<open>current_values\<close>\<close>

record live_quote =
  q_status :: string
  q_price :: "string option"
  q_currency :: string

record value_row =
  row_position :: position
  row_value :: "rat option"
  row_profit :: "rat option"
  row_percent :: "rat option"

record value_totals =
  tot_rows :: "(string \<times> value_row) list"
  tot_value :: rat
  tot_basis :: rat
  tot_missing :: "string list"

definition bare_row :: "position \<Rightarrow> value_row" where
  "bare_row p = \<lparr>row_position = p, row_value = None, row_profit = None, row_percent = None\<rparr>"

definition usable_price :: "live_quote option \<Rightarrow> rat option" where
  "usable_price quote = (case quote of None \<Rightarrow> None
     | Some q \<Rightarrow> if q_status q = ''stale'' then None else
        (case q_price q of None \<Rightarrow> None
         | Some t \<Rightarrow> (case amount t of Inl _ \<Rightarrow> None | Inr r \<Rightarrow> if r \<le> 0 then None else Some r)))"

definition usd_rate :: "live_quote option \<Rightarrow> rat option \<Rightarrow> rat option" where
  "usd_rate quote brl_per_usd = (case quote of None \<Rightarrow> None
     | Some q \<Rightarrow>
        let rate = (if q_currency q = ''USD'' then Some 1 else if q_currency q = ''BRL'' then brl_per_usd else None) in
        case rate of None \<Rightarrow> None | Some r \<Rightarrow> if r \<le> 0 then None else Some r)"

definition value_step :: "(string \<Rightarrow> live_quote option) \<Rightarrow> rat option \<Rightarrow> string \<times> position \<Rightarrow> value_totals \<Rightarrow> value_totals" where
  "value_step quotes brl_per_usd sp acc =
     (case sp of (symbol, p) \<Rightarrow>
      let put = (\<lambda>row. tot_rows_update (\<lambda>rows. rows @ [(symbol, row)]));
          miss = tot_missing_update (\<lambda>ms. ms @ [symbol]) in
      if quantity p = 0 then put ((bare_row p)\<lparr>row_value := Some 0, row_profit := Some 0\<rparr>) acc
      else (case usable_price (quotes symbol) of
        None \<Rightarrow> miss (put (bare_row p) acc)
      | Some price \<Rightarrow>
          let value = dec (quantity p * price); profit = dec (value - basis p);
              acc = put ((bare_row p)\<lparr>row_value := Some value, row_profit := Some profit,
                row_percent := (if basis p \<noteq> 0 then Some (dec (dec (profit / basis p) * 100)) else None)\<rparr>) acc in
          (case usd_rate (quotes symbol) brl_per_usd of
             None \<Rightarrow> miss acc
           | Some rate \<Rightarrow> acc\<lparr>tot_value := dec (tot_value acc + dec (value / rate)),
                               tot_basis := dec (tot_basis acc + dec (basis p / rate))\<rparr>)))"

record valuation =
  val_rows :: "(string \<times> value_row) list"
  val_complete :: bool
  val_missing :: "string list"
  val_value_usd :: "rat option"
  val_cost_usd :: "rat option"
  val_profit_usd :: "rat option"
  val_profit_percent :: "rat option"

definition current_values :: "event list \<Rightarrow> (string \<Rightarrow> live_quote option) \<Rightarrow> rat option \<Rightarrow> ledger_error + valuation" where
  "current_values es quotes brl_per_usd = ebind (replay es None) (\<lambda>ps.
     let acc = fold (value_step quotes brl_per_usd) ps \<lparr>tot_rows = [], tot_value = 0, tot_basis = 0, tot_missing = []\<rparr>;
         complete = (tot_missing acc = []);
         v = tot_value acc; b = tot_basis acc in
     Inr \<lparr>val_rows = tot_rows acc, val_complete = complete, val_missing = tot_missing acc,
       val_value_usd = (if complete then Some v else None),
       val_cost_usd = (if complete then Some b else None),
       val_profit_usd = (if complete then Some (dec (v - b)) else None),
       val_profit_percent = (if complete \<and> b \<noteq> 0 then Some (dec (dec (dec (v / b) - 1) * 100)) else None)\<rparr>)"

section \<open>\<open>restatements\<close>\<close>

record informed =
  inf_quantity :: "rat option"
  inf_day :: "string option"
  inf_moved :: bool
  inf_found :: "(string \<times> string) list"

definition restate_step :: "event \<Rightarrow> informed \<Rightarrow> ledger_error + informed" where
  "restate_step e a =
     (if ev_kind e = ''position'' then
        ebind (amount (ev_quantity e)) (\<lambda>q.
          let same_day_fix = (inf_day a = Some (ev_date e) \<and> \<not> inf_moved a);
              differs = (case inf_quantity a of None \<Rightarrow> False | Some old \<Rightarrow> q \<noteq> old) in
          Inr \<lparr>inf_quantity = Some q, inf_day = Some (ev_date e), inf_moved = False,
               inf_found = inf_found a @ (if differs \<and> \<not> same_day_fix then [(ev_symbol e, ev_date e)] else [])\<rparr>)
      else
        let a = (if ev_kind e \<noteq> ''dividend'' then a\<lparr>inf_moved := True\<rparr> else a) in
        case inf_quantity a of None \<Rightarrow> Inr a
        | Some old \<Rightarrow>
            if ev_kind e = ''buy'' then ebind (amount (ev_quantity e)) (\<lambda>q. Inr (a\<lparr>inf_quantity := Some (dec (old + q))\<rparr>))
            else if ev_kind e = ''sell'' then ebind (amount (ev_quantity e)) (\<lambda>q. Inr (a\<lparr>inf_quantity := Some (dec (old - q))\<rparr>))
            else if ev_kind e = ''split'' then
              ebind (amount (ev_quantity e)) (\<lambda>q. ebind (amount (denominator_text e)) (\<lambda>d.
                if d = 0 then Inl DecimalSignal else Inr (a\<lparr>inf_quantity := Some (dec (dec (old * q) / d))\<rparr>)))
            else Inr a)"

text \<open>\<open>{e['symbol'] for e in events}\<close> is iterated in no fixed order: \<open>order\<close> lists the set.\<close>

definition restatements :: "string list \<Rightarrow> event list \<Rightarrow> ledger_error + (string \<times> string) list" where
  "restatements order es = efold (\<lambda>symbol found.
       ebind (efold restate_step (sorted_events (filter (\<lambda>e. ev_symbol e = symbol) es))
                \<lparr>inf_quantity = None, inf_day = None, inf_moved = False, inf_found = []\<rparr>)
         (\<lambda>a. Inr (found @ inf_found a))) order []"

section \<open>\<open>holdings_at\<close>\<close>

definition later_step :: "int \<Rightarrow> event \<Rightarrow> (string \<times> event) list \<Rightarrow> (string \<times> event) list" where
  "later_step day e m =
     (if ev_kind e = ''position'' \<and> iso_text day < ev_date e then
        (case map_of m (ev_symbol e) of
           None \<Rightarrow> AList.update (ev_symbol e) e m
         | Some first \<Rightarrow> if ev_date e = ev_date first then AList.update (ev_symbol e) e m else m)
      else m)"

definition later_snapshot :: "int \<Rightarrow> event list \<Rightarrow> (string \<times> event) list" where
  "later_snapshot day ordered = fold (later_step day) ordered []"

definition anchored :: "int \<Rightarrow> event list \<Rightarrow> string \<Rightarrow> bool" where
  "anchored day ordered s \<longleftrightarrow>
     list_ex (\<lambda>e. ev_symbol e = s \<and> ev_kind e = ''position'' \<and> ev_date e \<le> iso_text day) ordered"

definition undo_step :: "event \<Rightarrow> rat \<Rightarrow> ledger_error + rat" where
  "undo_step e q =
     ebind
       (if ev_kind e = ''buy'' then ebind (amount (ev_quantity e)) (\<lambda>a. Inr (dec (q - a)))
        else if ev_kind e = ''sell'' then ebind (amount (ev_quantity e)) (\<lambda>a. Inr (dec (q + a)))
        else if ev_kind e = ''split'' then
          ebind (amount (denominator_text e)) (\<lambda>d. ebind (amount (ev_quantity e)) (\<lambda>a.
            if a = 0 then Inl DecimalSignal else Inr (dec (dec (q * d) / a))))
        else Inr q)
       (\<lambda>q'. if q' < 0 then Inl IncompatibleMoves else Inr q')"

definition moves_between :: "int \<Rightarrow> event list \<Rightarrow> string \<Rightarrow> event \<Rightarrow> event list" where
  "moves_between day ordered symbol snap =
     filter (\<lambda>e. ev_symbol e = symbol \<and> ev_kind e \<notin> {''position'', ''dividend''}
       \<and> iso_text day < ev_date e \<and> ev_date e \<le> ev_date snap) ordered"

definition before_year_of :: "int \<Rightarrow> int" where
  "before_year_of d = (case civil_of d of (y, _, _) \<Rightarrow> ordinal y 1 1 - 1)"

definition reconstruct_step :: "int \<Rightarrow> bool \<Rightarrow> event list \<Rightarrow> string \<times> event \<Rightarrow> positions \<Rightarrow> ledger_error + positions" where
  "reconstruct_step day closing ordered entry ps =
     (case entry of (symbol, snap) \<Rightarrow>
      if anchored day ordered symbol then Inr ps
      else case date_fromisoformat (ev_date snap) of None \<Rightarrow> Inl InvalidDate
      | Some d \<Rightarrow>
        let cutoff = before_year_of d in
        if day < cutoff \<or> closing \<and> day = cutoff then Inr ps
        else
          let moves = moves_between day ordered symbol snap in
          if list_ex (\<lambda>e. ev_date e = ev_date snap) moves then Inl (AmbiguousDay symbol)
          else ebind (amount (ev_quantity snap)) (\<lambda>q. ebind (efold undo_step (rev moves) q) (\<lambda>q'.
            Inr (AList.update symbol ((position_of ps symbol)\<lparr>quantity := q'\<rparr>) ps))))"

definition holdings_at :: "event list \<Rightarrow> int \<Rightarrow> bool \<Rightarrow> ledger_error + positions" where
  "holdings_at es day closing =
     (let ordered = sorted_events es in
      ebind (replay es (Some day)) (efold (reconstruct_step day closing ordered) (later_snapshot day ordered)))"

section \<open>What the accounting keeps\<close>

lemma amount_nonneg: "amount t = Inr r \<Longrightarrow> 0 \<le> r"
  by (auto simp: amount_def split: dec_text.splits if_splits)

definition wf_position :: "position \<Rightarrow> bool" where
  "wf_position p \<longleftrightarrow> 0 \<le> quantity p \<and> 0 \<le> dividends p"

lemma wf_fresh [simp, keeps]: "wf_position fresh_position"
  by (simp add: wf_position_def fresh_position_def)

lemma movement_wf [keeps]:
  "movement kind q t f d p = Inr p' \<Longrightarrow> wf_position p \<Longrightarrow> 0 \<le> q \<Longrightarrow> 0 \<le> d \<Longrightarrow> wf_position p'"
  by (auto simp: movement_def wf_position_def Let_def split: if_splits)

lemma apply_event_wf [keeps]: "apply_event e p = Inr p' \<Longrightarrow> wf_position p \<Longrightarrow> wf_position p'"
  unfolding apply_event_def by (elim ebind_Inr if_Inr) (erule movement_wf, auto dest: amount_nonneg)

lemma replay_step_cases:
  assumes "replay_step through e ps = Inr qs"
  obtains "qs = ps"
  | p where "apply_event e (position_of ps (ev_symbol e)) = Inr p" "qs = AList.update (ev_symbol e) p ps"
proof (cases "apply_event e (position_of ps (ev_symbol e))")
  case (Inl err)
  then show ?thesis using assms that(1) by (auto simp: replay_step_def Let_def split: option.splits if_splits)
next
  case (Inr p)
  then show ?thesis using assms that by (auto simp: replay_step_def Let_def split: option.splits if_splits)
qed

lemma position_of_wf: "\<forall>p\<in>set (map snd ps). wf_position p \<Longrightarrow> wf_position (position_of ps s)"
  by (auto simp: position_of_def split: option.splits dest!: map_of_SomeD)

lemma all_snd_update: "P v \<Longrightarrow> \<forall>p\<in>set (map snd ps). P p \<Longrightarrow> \<forall>p\<in>set (map snd (AList.update k v ps)). P p"
  by (induction ps) auto

lemma replay_step_wf [keeps]:
  "replay_step through e ps = Inr qs \<Longrightarrow> \<forall>p\<in>set (map snd ps). wf_position p \<Longrightarrow> \<forall>p\<in>set (map snd qs). wf_position p"
proof (elim replay_step_cases)
  fix p
  assume wf: "\<forall>p\<in>set (map snd ps). wf_position p" and p: "apply_event e (position_of ps (ev_symbol e)) = Inr p"
    and qs: "qs = AList.update (ev_symbol e) p ps"
  have "wf_position p" using apply_event_wf [OF p] position_of_wf [OF wf] by blast
  then show "\<forall>p\<in>set (map snd qs). wf_position p" using wf unfolding qs by (rule all_snd_update)
qed simp

interpretation rp: keyed_step ev_symbol "replay_step through" for through
proof unfold_locales
  fix e :: event and m m' :: positions and k :: string
  assume "replay_step through e m = Inr m'" and "k \<noteq> ev_symbol e"
  then show "map_of m' k = map_of m k" by (elim replay_step_cases) (auto simp: update_conv)
next
  fix e :: event and m m' n :: positions
  assume s: "replay_step through e m = Inr m'" and n: "map_of n (ev_symbol e) = map_of m (ev_symbol e)"
  then have pos: "position_of n (ev_symbol e) = position_of m (ev_symbol e)" by (simp add: position_of_def)
  show "\<exists>n'. replay_step through e n = Inr n' \<and> map_of n' (ev_symbol e) = map_of m' (ev_symbol e)"
  proof (cases "apply_event e (position_of m (ev_symbol e))")
    case (Inl err)
    then show ?thesis using s n by (auto simp: replay_step_def Let_def pos split: option.splits if_splits)
  next
    case (Inr p)
    then show ?thesis using s n by (auto simp: replay_step_def Let_def pos update_conv split: option.splits if_splits)
  qed
qed

lemma sorted_events_filter: "sorted_events (filter P es) = filter P (sorted_events es)"
  by (simp add: sorted_events_def filter_sort)

lemma replay_wf: "replay es through = Inr ps \<Longrightarrow> \<forall>p\<in>set (map snd ps). wf_position p"
proof -
  assume "replay es through = Inr ps"
  then have "efold (replay_step through) (sorted_events es) [] = Inr ps" by (simp add: replay_def)
  then show ?thesis
    by (rule efold_invariant [where I = "\<lambda>ps. \<forall>p\<in>set (map snd ps). wf_position p"]) (use replay_step_wf in blast, simp)
qed

text \<open>
  The quantities and dividends of a replayed ledger are never negative, and the position of a
  symbol is decided by that symbol's own events: replaying only those gives the same position.
\<close>

theorem replay_sound:
  assumes "replay es through = Inr ps"
  shows "(\<forall>(s, p) \<in> set ps. 0 \<le> quantity p \<and> 0 \<le> dividends p) \<and>
    (\<exists>qs. replay (filter (\<lambda>e. ev_symbol e = s) es) through = Inr qs \<and> map_of qs s = map_of ps s)"
proof
  show "\<forall>(s, p) \<in> set ps. 0 \<le> quantity p \<and> 0 \<le> dividends p" using replay_wf [OF assms] by (auto simp: wf_position_def)
  show "\<exists>qs. replay (filter (\<lambda>e. ev_symbol e = s) es) through = Inr qs \<and> map_of qs s = map_of ps s"
    using rp.fold_by_key [OF assms [unfolded replay_def], of "[]" s]
    by (simp add: replay_def sorted_events_filter)
qed

section \<open>Reconstructing a holding backwards\<close>

text \<open>The numbers the request schema admits: at most 18 digits before the point and 10 after it.\<close>

definition on_grid :: "rat \<Rightarrow> bool" where
  "on_grid x \<longleftrightarrow> x * 10 ^ 10 \<in> \<int>"

lemma on_grid_add [simp, intro]: "on_grid x \<Longrightarrow> on_grid y \<Longrightarrow> on_grid (x + y)"
  by (simp add: on_grid_def distrib_right)

lemma on_grid_diff [simp, intro]: "on_grid x \<Longrightarrow> on_grid y \<Longrightarrow> on_grid (x - y)"
  by (simp add: on_grid_def left_diff_distrib)

lemma dec_on_grid: "on_grid x \<Longrightarrow> \<bar>x\<bar> \<le> 10 ^ 18 \<Longrightarrow> dec x = x"
proof (rule dec_exact)
  assume g: "on_grid x" and b: "\<bar>x\<bar> \<le> 10 ^ 18"
  from g obtain k where k: "x * 10 ^ 10 = of_int k" by (auto simp: on_grid_def elim: Ints_cases)
  have "\<bar>x * 10 ^ 10\<bar> \<le> 10 ^ 18 * 10 ^ 10" using b by (simp only: abs_mult) simp
  then have "\<bar>of_int k :: rat\<bar> \<le> of_int (10 ^ 28)" unfolding k by simp
  then have "\<bar>k\<bar> \<le> 10 ^ 28" by (simp only: of_int_abs [symmetric] of_int_le_iff)
  moreover have "x = of_int k * scale 10 (- 10)" using k by (simp add: scale_def field_simps)
  ultimately show "dec_rep x" unfolding dec_rep_def representable_def
    by (intro exI [of _ k] exI [of _ "- 10"]) simp
qed

definition plain_trade :: "event \<Rightarrow> rat \<Rightarrow> bool" where
  "plain_trade e a \<longleftrightarrow> (ev_kind e = ''buy'' \<or> ev_kind e = ''sell'') \<and> amount (ev_quantity e) = Inr a \<and> 0 < a \<and> on_grid a
     \<and> (\<exists>t f. amount (ev_total e) = Inr t \<and> amount (ev_fees e) = Inr f \<and> f \<le> t) \<and> amount (denominator_text e) = Inr 1"

lemma undo_one:
  assumes e: "plain_trade e a" and q: "on_grid q" "0 \<le> q" "q + a \<le> 10 ^ 18" and u: "undo_step e q = Inr r"
  shows "on_grid r \<and> 0 \<le> r \<and> r \<le> q + a \<and> (\<forall>p. quantity p = r \<longrightarrow> (\<exists>p'. apply_event e p = Inr p' \<and> quantity p' = q))"
proof (cases "ev_kind e = ''buy''")
  case True
  have exact: "dec (q - a) = q - a" "dec q = q" using e q by (auto intro!: dec_on_grid simp: plain_trade_def)
  have r: "r = q - a" "0 \<le> r" using u True e exact by (auto simp: undo_step_def plain_trade_def split: if_splits)
  show ?thesis using r e True q exact by (auto simp: plain_trade_def apply_event_def movement_def)
next
  case False
  then have k: "ev_kind e = ''sell''" using e by (simp add: plain_trade_def)
  have exact: "dec (q + a) = q + a" "dec q = q" using e q by (auto intro!: dec_on_grid simp: plain_trade_def)
  have r: "r = q + a" using u k e exact by (auto simp: undo_step_def plain_trade_def split: if_splits)
  show ?thesis using r e k q exact by (auto simp: plain_trade_def apply_event_def movement_def Let_def)
qed

text \<open>
  C18: Reconstructing backwards and replaying forwards are inverse: where undoing buys and sells
  from an informed quantity succeeds, replaying the same trades from the reconstructed quantity
  succeeds, never sells more than is held, and arrives at the informed quantity exactly.
\<close>

theorem undo_then_replay:
  assumes "list_all2 plain_trade moves amounts" and "on_grid q" and "0 \<le> q" and "q + sum_list amounts \<le> 10 ^ 18"
    and "efold undo_step (rev moves) q = Inr r" and "quantity p = r"
  shows "\<exists>p'. efold apply_event moves p = Inr p' \<and> quantity p' = q"
proof -
  have "on_grid r \<and> 0 \<le> r \<and> r \<le> q + sum_list amounts
    \<and> (\<forall>p. quantity p = r \<longrightarrow> (\<exists>p'. efold apply_event moves p = Inr p' \<and> quantity p' = q))"
    using assms(1-5)
  proof (induction moves amounts arbitrary: r rule: list_all2_induct)
    case (Cons e es a as)
    from Cons.prems(4) obtain m where m: "efold undo_step (rev es) q = Inr m" "undo_step e m = Inr r"
      by (auto simp: ebind_def split: sum.splits)
    have a: "0 < a" using Cons.hyps(1) by (simp add: plain_trade_def)
    have IH: "on_grid m" "0 \<le> m" "m \<le> q + sum_list as"
      "\<And>p. quantity p = m \<Longrightarrow> \<exists>p'. efold apply_event es p = Inr p' \<and> quantity p' = q"
      using Cons.IH [OF Cons.prems(1,2) _ m(1)] Cons.prems(3) a by auto
    from undo_one [OF Cons.hyps(1) IH(1,2) _ m(2)] IH(3) Cons.prems(3)
    have r: "on_grid r" "0 \<le> r" "r \<le> m + a"
      "\<And>p. quantity p = r \<Longrightarrow> \<exists>p'. apply_event e p = Inr p' \<and> quantity p' = m" by auto
    have "\<exists>p'. efold apply_event (e # es) p = Inr p' \<and> quantity p' = q" if "quantity p = r" for p
      using r(4) [OF that] IH(4) by auto
    then show ?case using r IH(3) by auto
  qed auto
  then show ?thesis using assms(6) by blast
qed

definition sample_event :: "string \<Rightarrow> string \<Rightarrow> string \<Rightarrow> string \<Rightarrow> event" where
  "sample_event kind day q t = \<lparr>ev_seq = 1, ev_request = ''r'', ev_symbol = ''PETR4'', ev_market = ''B3'',
     ev_kind = kind, ev_date = day, ev_quantity = q, ev_total = t, ev_fees = ''0'', ev_denominator = None\<rparr>"

lemma undo_then_replay_witness:
  "\<exists>p'. efold apply_event [sample_event ''buy'' ''2025-03-03'' ''2'' ''8''] (fresh_position\<lparr>quantity := 3\<rparr>) = Inr p' \<and> quantity p' = 5"
proof (rule undo_then_replay)
  have a: "amount ''2'' = Inr 2" "amount ''8'' = Inr 8" "amount ''0'' = Inr 0" "amount ''1'' = Inr 1" by code_simp+
  show "list_all2 plain_trade [sample_event ''buy'' ''2025-03-03'' ''2'' ''8''] [2]"
    by (simp add: plain_trade_def sample_event_def denominator_text_def a on_grid_def)
  have "dec 3 = 3" by code_simp
  then show "efold undo_step (rev [sample_event ''buy'' ''2025-03-03'' ''2'' ''8'']) 5 = Inr 3"
    by (simp add: undo_step_def sample_event_def a)
qed (simp_all add: on_grid_def)

text \<open>
  Selling a whole holding in parts need not return its cost to zero: the rounded shares of the
  cost leave a residue.  Three shares bought for 1, then one and two sold, leave nothing held at a
  cost of \<open>2E-28\<close>.
\<close>

theorem full_sale_leaves_residue:
  "map_sum id (\<lambda>p. (quantity p, basis p)) (efold apply_event
     [sample_event ''buy'' ''2025-03-03'' ''3'' ''1'', sample_event ''sell'' ''2025-03-04'' ''1'' ''1'',
      sample_event ''sell'' ''2025-03-05'' ''2'' ''2''] fresh_position)
   = Inr (0, 2 / 10 ^ 28)"
  by code_simp

text \<open>A one-event ledger for the witnesses.\<close>

definition sample_ledger :: "event list" where
  "sample_ledger = [sample_event ''buy'' ''2025-03-03'' ''3'' ''1'']"

lemma replay_sound_witness:
  "\<exists>ps. replay sample_ledger None = Inr ps \<and> (\<forall>(s, p) \<in> set ps. 0 \<le> quantity p \<and> 0 \<le> dividends p)"
proof -
  have "replay sample_ledger None = Inr [(''PETR4'', \<lparr>quantity = 3, basis = 1, realized = 0, dividends = 0\<rparr>)]"
    by code_simp
  from replay_sound [OF this] this show ?thesis by blast
qed

section \<open>The holdings on a day\<close>

text \<open>A symbol may be reconstructed on a day from an informed position dated after it.\<close>

definition projects :: "event list \<Rightarrow> int \<Rightarrow> bool \<Rightarrow> string \<Rightarrow> bool" where
  "projects es day closing s \<longleftrightarrow> \<not> anchored day (sorted_events es) s \<and>
     (\<exists>snap\<in>set es. ev_symbol snap = s \<and> ev_kind snap = ''position'' \<and> iso_text day < ev_date snap \<and>
       (\<exists>d. date_fromisoformat (ev_date snap) = Some d \<and> before_year_of d \<le> day \<and> (closing \<longrightarrow> before_year_of d < day)))"

lemma later_snapshot_entries:
  "(s, snap) \<in> set (later_snapshot day ordered) \<Longrightarrow>
   snap \<in> set ordered \<and> ev_symbol snap = s \<and> ev_kind snap = ''position'' \<and> iso_text day < ev_date snap"
proof -
  define I where "I m \<longleftrightarrow> (\<forall>(s, snap) \<in> set m. snap \<in> set ordered \<and> ev_symbol snap = s \<and> ev_kind snap = ''position''
      \<and> iso_text day < ev_date snap)" for m :: "(string \<times> event) list"
  have upd: "I (AList.update (ev_symbol e) e m)" if "I m" "e \<in> set ordered" "ev_kind e = ''position''" "iso_text day < ev_date e" for e m
    using that by (induction m) (auto simp: I_def)
  have "I (later_snapshot day ordered)" unfolding later_snapshot_def
  proof (rule fold_invariant)
    show "I []" by (simp add: I_def)
    show "I (later_step day e m)" if "e \<in> set ordered" "I m" for e m
      using that upd by (simp add: later_step_def split: option.split)
  qed
  then show "(s, snap) \<in> set (later_snapshot day ordered) \<Longrightarrow>
    snap \<in> set ordered \<and> ev_symbol snap = s \<and> ev_kind snap = ''position'' \<and> iso_text day < ev_date snap"
    unfolding I_def by blast
qed

lemma undo_step_nonneg: "undo_step e q = Inr r \<Longrightarrow> 0 \<le> r"
  unfolding undo_step_def by (elim ebind_Inr if_Inr) auto

lemma undo_fold_nonneg: "efold undo_step es q = Inr r \<Longrightarrow> 0 \<le> q \<Longrightarrow> 0 \<le> r"
  by (rule efold_invariant [of undo_step es q r "\<lambda>q. 0 \<le> q"]) (auto intro: undo_step_nonneg)

lemma reconstruct_step_cases:
  assumes "reconstruct_step day closing ordered (s, snap) ps = Inr qs"
  obtains "qs = ps"
  | d q where "\<not> anchored day ordered s" "date_fromisoformat (ev_date snap) = Some d"
      "before_year_of d \<le> day" "closing \<longrightarrow> before_year_of d < day" "0 \<le> q"
      "qs = AList.update s ((position_of ps s)\<lparr>quantity := q\<rparr>) ps"
proof -
  have "qs = ps \<or> (\<exists>d q. \<not> anchored day ordered s \<and> date_fromisoformat (ev_date snap) = Some d \<and>
      before_year_of d \<le> day \<and> (closing \<longrightarrow> before_year_of d < day) \<and> 0 \<le> q \<and>
      qs = AList.update s ((position_of ps s)\<lparr>quantity := q\<rparr>) ps)"
    using assms
    by (auto simp: reconstruct_step_def Let_def ebind_def dest: undo_fold_nonneg [OF _ amount_nonneg]
        split: if_splits option.splits sum.splits)
  then show ?thesis using that by blast
qed

text \<open>
  The holdings on a day are the ledger replayed through it, except for a symbol with no
  informed position up to the day and one after it, dated no later than the year that follows:
  no informed position is projected before 31/12 of the year before its own, nor onto that day
  when a period closes there.  Every quantity is non-negative.
\<close>

theorem holdings_at_sound:
  assumes "holdings_at es day closing = Inr ps"
  shows "\<exists>rs. replay es (Some day) = Inr rs \<and>
    (\<forall>(s, p) \<in> set ps. 0 \<le> quantity p) \<and> (\<forall>s. map_of ps s = map_of rs s \<or> projects es day closing s)"
proof -
  from assms obtain rs where rs: "replay es (Some day) = Inr rs"
    and f: "efold (reconstruct_step day closing (sorted_events es)) (later_snapshot day (sorted_events es)) rs = Inr ps"
    unfolding holdings_at_def Let_def by (rule ebind_Inr)
  define I where "I qs \<longleftrightarrow> (\<forall>p\<in>set (map snd qs). wf_position p) \<and> (\<forall>s. map_of qs s = map_of rs s \<or> projects es day closing s)"
    for qs
  have "I ps" using f
  proof (rule efold_invariant)
    show "I rs" using replay_wf [OF rs] by (simp add: I_def)
    fix entry qs qs'
    assume entry: "entry \<in> set (later_snapshot day (sorted_events es))" and qs: "I qs"
      and step: "reconstruct_step day closing (sorted_events es) entry qs = Inr qs'"
    obtain s snap where e: "entry = (s, snap)" by (cases entry)
    from step [unfolded e] show "I qs'"
    proof (cases rule: reconstruct_step_cases)
      case 1
      then show ?thesis using qs by simp
    next
      case (2 d q)
      have "projects es day closing s"
        using later_snapshot_entries [of s snap day "sorted_events es"] entry 2(1-4)
        by (auto simp: projects_def e sorted_events_def)
      moreover have "wf_position ((position_of qs s)\<lparr>quantity := q\<rparr>)"
        using position_of_wf [of qs s] qs 2(5) by (simp add: I_def wf_position_def)
      moreover have "\<forall>p\<in>set (map snd qs'). wf_position p"
        unfolding 2(6) by (rule all_snd_update) (use calculation(2) qs in \<open>auto simp: I_def\<close>)
      ultimately show ?thesis using qs by (auto simp: I_def 2(6) update_conv)
    qed
  qed
  then show ?thesis using rs by (auto simp: I_def wf_position_def)
qed

lemma holdings_at_sound_witness:
  "\<exists>ps rs. holdings_at sample_ledger (ordinal 2025 3 4) False = Inr ps \<and> replay sample_ledger (Some (ordinal 2025 3 4)) = Inr rs"
proof -
  have "holdings_at sample_ledger (ordinal 2025 3 4) False = Inr [(''PETR4'', \<lparr>quantity = 3, basis = 1, realized = 0, dividends = 0\<rparr>)]"
    by code_simp
  from holdings_at_sound [OF this] this show ?thesis by blast
qed

end
