(* ===== verification/PortfolioPeriods.thy ===== *)
theory PortfolioPeriods
  imports Portfolio
begin

text \<open>
  Period results (\<open>period_result\<close>, modified Dietz over the holdings), the split basis of historical
  prices and the split-consistency screen of the valuation service.  The valuation of a day and
  the exchange rate are the functions \<open>value_at\<close> and \<open>rate_at\<close> the code receives as arguments.
\<close>

section \<open>\<open>period_result\<close>\<close>

datatype period_reason =
    NoOpeningPosition
  | PositionCorrected string string
  | NotProjectedBefore int
  | SameDayMovement string
  | MovesIncompatible
  | HistoryUnavailable
  | CapitalInsufficient

record period =
  per_start :: string
  per_end :: string
  per_profit :: "rat option"
  per_return :: "rat option"
  per_reason :: "period_reason option"

definition withheld :: "int \<Rightarrow> int \<Rightarrow> period_reason \<Rightarrow> period" where
  "withheld start stop why = \<lparr>per_start = iso_text start, per_end = iso_text stop,
     per_profit = None, per_return = None, per_reason = Some why\<rparr>"

definition opening_unproven :: "event list \<Rightarrow> int \<Rightarrow> bool" where
  "opening_unproven es before \<longleftrightarrow>
     \<not> list_ex (\<lambda>e. ev_kind e = ''position'') es \<and>
     (case sorted_events es of [] \<Rightarrow> True | first # _ \<Rightarrow> iso_text before < ev_date first \<and> ev_kind first \<noteq> ''buy'')"

definition crossed_of :: "int \<Rightarrow> int \<Rightarrow> (string \<times> string) list \<Rightarrow> (string \<times> string) list" where
  "crossed_of before stop found = sort_key snd (filter (\<lambda>(_, day). iso_text before < day \<and> day \<le> iso_text stop) found)"

definition held :: "positions \<Rightarrow> (string \<times> rat) list" where
  "held ps = map (\<lambda>(s, p). (s, quantity p)) (filter (\<lambda>(_, p). quantity p \<noteq> 0) ps)"

text \<open>The cutoffs, one 31/12 before each year with an informed position; a year that is no year raises.\<close>

definition cutoff_of :: "event \<Rightarrow> ledger_error + int" where
  "cutoff_of e = (case digits (take 4 (ev_date e)) of None \<Rightarrow> Inl InvalidDate | Some y \<Rightarrow> Inr (ordinal y 1 1 - 1))"

definition cutoffs_of :: "event list \<Rightarrow> ledger_error + int list" where
  "cutoffs_of es = ebind (efold (\<lambda>e cs. ebind (cutoff_of e) (\<lambda>c. Inr (c # cs))) (filter (\<lambda>e. ev_kind e = ''position'') es) [])
     (\<lambda>cs. Inr (sort (remdups cs)))"

text \<open>The first cutoff at which the two bases disagree, as the year it closes.\<close>

definition basis_switch :: "event list \<Rightarrow> int list \<Rightarrow> ledger_error + int option" where
  "basis_switch es cutoffs = efold (\<lambda>cutoff found.
     if found \<noteq> None then Inr found
     else ebind (holdings_at es cutoff True) (\<lambda>a. ebind (holdings_at es cutoff False) (\<lambda>b.
       Inr (if set (held a) \<noteq> set (held b) then Some (fst (civil_of cutoff)) else None)))) cutoffs None"

text \<open>
  The block that values the holdings: either the reason it stops with, or the holdings at both
  ends.  The handlers turn \<open>AmbiguousDay\<close> and every other \<open>ValueError\<close> into a reason; an
  arithmetic signal leaves the function.
\<close>

definition period_ends :: "event list \<Rightarrow> int list \<Rightarrow> int \<Rightarrow> int \<Rightarrow> ledger_error + (period_reason + positions \<times> positions)" where
  "period_ends es cutoffs before stop =
     (case ebind (basis_switch es (filter (\<lambda>c. before < c \<and> c < stop) cutoffs)) (\<lambda>switch.
        case switch of Some y \<Rightarrow> Inr (Inl (NotProjectedBefore (y + 1)))
        | None \<Rightarrow> ebind (holdings_at es before False) (\<lambda>a. ebind (holdings_at es stop True) (\<lambda>b. Inr (Inr (a, b))))) of
       Inr r \<Rightarrow> Inr r
     | Inl (AmbiguousDay s) \<Rightarrow> Inr (Inl (SameDayMovement s))
     | Inl e \<Rightarrow> if is_value_error e then Inr (Inl MovesIncompatible) else Inl e)"

definition flow_of :: "event \<Rightarrow> rat \<Rightarrow> rat \<Rightarrow> rat" where
  "flow_of e tot fees =
     (if ev_kind e = ''buy'' then dec (tot + fees)
      else if ev_kind e = ''sell'' \<or> ev_kind e = ''dividend'' then dec (- dec (tot - fees)) else 0)"

definition flow_step ::
    "int \<Rightarrow> int \<Rightarrow> (string \<Rightarrow> int \<Rightarrow> ledger_error + rat) \<Rightarrow> event \<Rightarrow> rat \<times> rat \<Rightarrow> ledger_error + rat \<times> rat" where
  "flow_step before stop rate_at e acc =
     (case acc of (flows, weighted) \<Rightarrow>
      ebind (amount (ev_total e)) (\<lambda>tot. ebind (amount (ev_fees e)) (\<lambda>fees.
        let flow = flow_of e tot fees in
        if flow = 0 then Inr acc
        else case date_fromisoformat (ev_date e) of None \<Rightarrow> Inl InvalidDate
        | Some day \<Rightarrow> ebind (rate_at (ev_market e) day) (\<lambda>fx.
            if fx = 0 then Inl DecimalSignal
            else let flow = dec (flow / fx) in
              if stop = before then Inl DecimalSignal
              else Inr (dec (flows + flow),
                        dec (weighted + dec (dec (flow * of_int (stop - day)) / of_int (stop - before))))))))"

definition period_numbers ::
    "event list \<Rightarrow> int \<Rightarrow> int \<Rightarrow> positions \<times> positions \<Rightarrow> (positions \<Rightarrow> int \<Rightarrow> ledger_error + rat) \<Rightarrow>
     (string \<Rightarrow> int \<Rightarrow> ledger_error + rat) \<Rightarrow> ledger_error + rat \<times> rat" where
  "period_numbers selected before stop ends value_at rate_at =
     ebind (value_at (fst ends) before) (\<lambda>opening. ebind (value_at (snd ends) stop) (\<lambda>closing.
     ebind (efold (flow_step before stop rate_at) selected (0, 0)) (\<lambda>(flows, weighted).
       Inr (dec (dec (closing - opening) - flows), dec (opening + weighted)))))"

definition period_result ::
    "string list \<Rightarrow> event list \<Rightarrow> int \<Rightarrow> int \<Rightarrow> (positions \<Rightarrow> int \<Rightarrow> ledger_error + rat) \<Rightarrow>
     (string \<Rightarrow> int \<Rightarrow> ledger_error + rat) \<Rightarrow> ledger_error + period" where
  "period_result order es start stop value_at rate_at =
     (let before = start - 1;
          selected = filter (\<lambda>e. iso_text start \<le> ev_date e \<and> ev_date e \<le> iso_text stop) es in
      if opening_unproven es before then Inr (withheld start stop NoOpeningPosition)
      else ebind (restatements order es) (\<lambda>found.
        case crossed_of before stop found of
          (symbol, day) # _ \<Rightarrow>
            (case date_fromisoformat day of None \<Rightarrow> Inl InvalidDate
             | Some _ \<Rightarrow> Inr (withheld start stop (PositionCorrected symbol day)))
        | [] \<Rightarrow> ebind (cutoffs_of es) (\<lambda>cutoffs. ebind (period_ends es cutoffs before stop) (\<lambda>ends.
            case ends of Inl why \<Rightarrow> Inr (withheld start stop why)
            | Inr ends \<Rightarrow>
                (case period_numbers selected before stop ends value_at rate_at of
                   Inl e \<Rightarrow> if is_value_error e \<or> e = MissingKey then Inr (withheld start stop HistoryUnavailable) else Inl e
                 | Inr (profit, capital) \<Rightarrow>
                     Inr \<lparr>per_start = iso_text start, per_end = iso_text stop, per_profit = Some profit,
                       per_return = (if 0 < capital then Some (dec (dec (profit / capital) * 100)) else None),
                       per_reason = (if capital \<le> 0 then Some CapitalInsufficient else None)\<rparr>)))))"

section \<open>The split basis of historical prices\<close>

definition AMZN_SPLIT_DAY :: int where
  "AMZN_SPLIT_DAY = ordinal 2022 6 6"

definition AMZN_FACTOR :: rat where
  "AMZN_FACTOR = 20"

definition decimal_text :: "string \<Rightarrow> ledger_error + rat" where
  "decimal_text t = (case parse_decimal t of DecFinite r \<Rightarrow> Inr r | _ \<Rightarrow> Inl DecimalSignal)"

definition split_factor :: "event \<Rightarrow> ledger_error + rat" where
  "split_factor e = ebind (decimal_text (ev_quantity e)) (\<lambda>q. ebind (decimal_text (denominator_text e)) (\<lambda>d.
     if d = 0 then Inl DecimalSignal else Inr (dec (q / d))))"

definition historical_price :: "string \<Rightarrow> int \<Rightarrow> rat \<Rightarrow> event list \<Rightarrow> string list \<Rightarrow> ledger_error + rat" where
  "historical_price symbol observed close_price es adjusted_symbols =
     (if symbol \<noteq> ''AMZN'' then Inr close_price
      else if AMZN_SPLIT_DAY \<le> observed then Inr close_price
      else
        let explicit = filter (\<lambda>e. ev_symbol e = symbol \<and> ev_kind e = ''split'' \<and> ev_date e = iso_text AMZN_SPLIT_DAY) es in
        if symbol \<in> set adjusted_symbols then
          (if explicit \<noteq> [] then Inl ConflictingSplitBases else Inr (dec (close_price / AMZN_FACTOR)))
        else case explicit of
          [e] \<Rightarrow> ebind (split_factor e) (\<lambda>f. if f \<noteq> AMZN_FACTOR then Inl BasisRequiresConfirmation else Inr close_price)
        | _ \<Rightarrow> Inl BasisRequiresConfirmation)"

section \<open>The screen for splits the price history contradicts\<close>

text \<open>
  \<open>rows\<close> are the sorted daily bars of the event's symbol: the text of the day and of the close.
  \<open>bisect_right\<close> over the sorted dates is the number of dates up to the key.
\<close>

definition bars_through :: "(string \<times> string) list \<Rightarrow> string \<Rightarrow> nat" where
  "bars_through rows day = length (takeWhile (\<lambda>r. fst r \<le> day) rows)"

definition date_of :: "string \<Rightarrow> ledger_error + int" where
  "date_of t = (case date_fromisoformat t of None \<Rightarrow> Inl InvalidDate | Some d \<Rightarrow> Inr d)"

definition split_inconsistent :: "event \<Rightarrow> (string \<times> string) list \<Rightarrow> ledger_error + bool" where
  "split_inconsistent e rows =
     (if ev_kind e \<noteq> ''split'' then Inr False
      else ebind (amount (ev_quantity e)) (\<lambda>q. ebind (amount (denominator_text e)) (\<lambda>d.
        if d = 0 then Inl DecimalSignal
        else let factor = dec (q / d) in
        case date_fromisoformat (ev_date e) of None \<Rightarrow> Inl InvalidDate
        | Some split_day \<Rightarrow>
          let after = bars_through rows (iso_text (split_day - 1)) in
          if after = 0 \<or> length rows \<le> after then Inr False
          else ebind (date_of (fst (rows ! (after - 1)))) (\<lambda>d0.
            if 7 < split_day - d0 then Inr False
            else ebind (date_of (fst (rows ! after))) (\<lambda>d1.
              if 7 < d1 - split_day then Inr False
              else ebind (amount (snd (rows ! (after - 1)))) (\<lambda>old. ebind (amount (snd (rows ! after))) (\<lambda>new.
                Inr (old \<le> 0 \<or> (2 \<le> factor \<or> factor \<le> 1 / 2)
                  \<and> \<not> (1 / 2 \<le> dec (dec (factor * new) / old) \<and> dec (dec (factor * new) / old) \<le> 2)))))))))"

section \<open>The value of the holdings on a day\<close>

text \<open>
  \<open>session m d\<close> is the exchange calendar's last session up to \<open>d\<close> (\<open>date_to_session\<close>), \<open>bars\<close> the
  sorted rows of a symbol and market, \<open>inconsistent\<close> the symbols the screen rejects.
\<close>

definition historic ::
    "string list \<Rightarrow> (string \<Rightarrow> string \<Rightarrow> (string \<times> string) list option) \<Rightarrow> (string \<Rightarrow> int \<Rightarrow> int) \<Rightarrow> event list \<Rightarrow> string list \<Rightarrow>
     string \<Rightarrow> string \<Rightarrow> int \<Rightarrow> ledger_error + rat" where
  "historic inconsistent bars session es adjusted_symbols symbol market day =
     (if symbol \<in> set inconsistent then Inl InvalidNumber
      else case bars symbol market of None \<Rightarrow> Inl MissingKey
      | Some rows \<Rightarrow>
        let n = bars_through rows (iso_text day) in
        if n = 0 then Inl InvalidNumber
        else ebind (date_of (fst (rows ! (n - 1)))) (\<lambda>observed.
          if (if symbol = ''USDBRL.FOREX'' then 4 < day - observed
              else observed \<noteq> session (if market = ''B3'' then ''BVMF'' else ''XNYS'') day) then Inl InvalidNumber
          else ebind (amount (snd (rows ! (n - 1)))) (\<lambda>v.
            if v \<le> 0 then Inl InvalidNumber
            else historical_price symbol observed v es adjusted_symbols)))"

definition rate_on :: "(string \<Rightarrow> string \<Rightarrow> int \<Rightarrow> ledger_error + rat) \<Rightarrow> int \<Rightarrow> rat option \<Rightarrow> string \<Rightarrow> int \<Rightarrow> ledger_error + rat" where
  "rate_on historic_at today rate market day =
     (if market \<noteq> ''B3'' then Inr 1
      else if day = today then (case rate of None \<Rightarrow> Inl InvalidNumber | Some r \<Rightarrow> Inr r)
      else historic_at ''USDBRL.FOREX'' ''FX'' day)"

definition price_on ::
    "(string \<Rightarrow> string \<Rightarrow> int \<Rightarrow> ledger_error + rat) \<Rightarrow> (string \<Rightarrow> live_quote option) \<Rightarrow> int \<Rightarrow> string \<Rightarrow> string \<Rightarrow> int \<Rightarrow>
     ledger_error + rat" where
  "price_on historic_at quotes today symbol market day =
     (if day = today then
        (case quotes symbol of None \<Rightarrow> Inl InvalidNumber
         | Some q \<Rightarrow> if q_status q = ''stale'' then Inl InvalidNumber
             else ebind (case q_price q of None \<Rightarrow> Inl InvalidNumber | Some t \<Rightarrow> amount t) (\<lambda>price.
               if price \<le> 0 then Inl InvalidNumber else Inr price))
      else historic_at symbol market day)"

definition value_on ::
    "(string \<Rightarrow> string \<Rightarrow> int \<Rightarrow> ledger_error + rat) \<Rightarrow> (string \<Rightarrow> live_quote option) \<Rightarrow> (string \<Rightarrow> string option) \<Rightarrow> int \<Rightarrow> rat option \<Rightarrow>
     positions \<Rightarrow> int \<Rightarrow> ledger_error + rat" where
  "value_on historic_at quotes markets today rate ps day =
     efold (\<lambda>(symbol, p) v.
       if quantity p = 0 then Inr v
       else case markets symbol of None \<Rightarrow> Inl MissingKey
       | Some market \<Rightarrow>
         ebind (price_on historic_at quotes today symbol market day) (\<lambda>price.
         ebind (rate_on historic_at today rate market day) (\<lambda>r.
           if r = 0 then Inl DecimalSignal else Inr (dec (v + dec (dec (quantity p * price) / r)))))) ps 0"

end
