(* ===== verification/PortfolioLedger.thy ===== *)
theory PortfolioLedger
  imports PortfolioPeriods
begin

text \<open>
  The event store of the personal portfolio (\<open>Database.write_portfolio_event\<close> and
  \<open>void_portfolio_event\<close>, the store in memory; the SQL store runs the same checks under an
  advisory lock).  Every write and every cancellation runs under one lock, so the store is a
  state and the operations are functions on it.
\<close>

section \<open>The store\<close>

record ledger_row =
  row_event :: event
  row_voided :: bool

type_synonym ledger = "ledger_row list"

definition live_events :: "ledger \<Rightarrow> event list" where
  "live_events L = map row_event (filter (\<lambda>r. \<not> row_voided r) L)"

definition same_number :: "string \<Rightarrow> string \<Rightarrow> ledger_error + bool" where
  "same_number a b = ebind (if parse_decimal a = DecInvalid then Inl DecimalSignal else Inr (parse_decimal a)) (\<lambda>x.
     ebind (if parse_decimal b = DecInvalid then Inl DecimalSignal else Inr (parse_decimal b)) (\<lambda>y.
       Inr (x = y \<and> x \<noteq> DecNaN)))"

fun same_numbers :: "(string \<times> string) list \<Rightarrow> ledger_error + bool" where
  "same_numbers [] = Inr True"
| "same_numbers ((a, b) # ps) = ebind (same_number a b) (\<lambda>eq. if eq then same_numbers ps else Inr False)"

definition same_movement :: "event \<Rightarrow> event \<Rightarrow> ledger_error + bool" where
  "same_movement a b =
     (if ev_request a \<noteq> ev_request b \<or> ev_symbol a \<noteq> ev_symbol b \<or> ev_market a \<noteq> ev_market b \<or> ev_kind a \<noteq> ev_kind b
       \<or> ev_date a \<noteq> ev_date b then Inr False
      else same_numbers [(ev_quantity a, ev_quantity b), (ev_total a, ev_total b), (ev_fees a, ev_fees b),
        (denominator_text a, denominator_text b)])"

text \<open>\<open>validate\<close>: whether the event is to be stored; a repeated request is accepted and not stored.\<close>

definition next_seq :: "event list \<Rightarrow> int" where
  "next_seq es = (if es = [] then 0 else Max (ev_seq ` set es)) + 1"

definition validate_event :: "event list \<Rightarrow> event \<Rightarrow> ledger_error + bool" where
  "validate_event existing e =
     (if list_ex (\<lambda>x. ev_symbol x = ev_symbol e \<and> ev_market x \<noteq> ev_market e) existing then Inl DivergentMarket
      else case find (\<lambda>x. ev_request x = ev_request e) existing of
        Some x \<Rightarrow> ebind (same_movement x e) (\<lambda>same. if same then Inr False else Inl IdentifierTaken)
      | None \<Rightarrow> ebind (replay (existing @ [e\<lparr>ev_seq := next_seq existing\<rparr>]) None) (\<lambda>_. Inr True))"

definition write_event :: "event \<Rightarrow> ledger \<Rightarrow> ledger_error + ledger" where
  "write_event e0 L =
     (let e = e0\<lparr>ev_denominator := Some (denominator_text e0)\<rparr> in
      ebind (validate_event (live_events L) e) (\<lambda>store.
        if \<not> store then Inr L
        else if list_ex (\<lambda>r. ev_request (row_event r) = ev_request e) L then Inl AlreadyVoided
        else Inr (L @ [\<lparr>row_event = e\<lparr>ev_seq := int (length L) + 1\<rparr>, row_voided = False\<rparr>])))"

definition void_event :: "string \<Rightarrow> ledger \<Rightarrow> ledger_error + ledger" where
  "void_event rid L =
     (if \<not> list_ex (\<lambda>r. ev_request (row_event r) = rid) L then Inl NotFound
      else ebind (replay (filter (\<lambda>e. ev_request e \<noteq> rid) (live_events L)) None) (\<lambda>_.
        Inr (map (\<lambda>r. if ev_request (row_event r) = rid then r\<lparr>row_voided := True\<rparr> else r) L)))"

text \<open>A request that raises leaves the store as it was.\<close>

datatype ledger_op = Write event | Void string

fun ledger_step :: "ledger_op \<Rightarrow> ledger \<Rightarrow> ledger" where
  "ledger_step (Write e) L = (case write_event e L of Inl _ \<Rightarrow> L | Inr L' \<Rightarrow> L')"
| "ledger_step (Void rid) L = (case void_event rid L of Inl _ \<Rightarrow> L | Inr L' \<Rightarrow> L')"

section \<open>The check does not depend on the number of the new event\<close>

definition unnumbered :: "event \<Rightarrow> event" where
  "unnumbered e = e\<lparr>ev_seq := 0\<rparr>"

lemma unnumbered_fields:
  "ev_symbol (unnumbered e) = ev_symbol e" "ev_date (unnumbered e) = ev_date e" "ev_kind (unnumbered e) = ev_kind e"
  "ev_quantity (unnumbered e) = ev_quantity e" "ev_total (unnumbered e) = ev_total e" "ev_fees (unnumbered e) = ev_fees e"
  "denominator_text (unnumbered e) = denominator_text e"
  by (simp_all add: unnumbered_def denominator_text_def)

lemma apply_event_seq: "apply_event (unnumbered e) = apply_event e"
  unfolding fun_eq_iff apply_event_def unnumbered_fields by simp

lemma replay_step_seq [simp]: "replay_step through (unnumbered e) = replay_step through e"
  unfolding fun_eq_iff replay_step_def unnumbered_fields apply_event_seq by simp

lemma replay_unnumbered:
  assumes "map unnumbered (sorted_events xs) = map unnumbered (sorted_events ys)"
  shows "replay xs through = replay ys through"
proof -
  have "replay zs through = efold (replay_step through) (map unnumbered (sorted_events zs)) []" for zs
    by (simp add: replay_def efold_map)
  with assms show ?thesis by simp
qed

lemma sorted_events_snoc:
  "\<forall>x\<in>set es. ev_seq x < ev_seq e \<Longrightarrow>
   sorted_events (es @ [e]) = insort_key (\<lambda>x. (ev_date x, ev_seq x)) e (sorted_events es)"
  unfolding sorted_events_def by (rule sort_key_snoc) force

lemma replay_restamp:
  assumes i: "\<forall>x\<in>set es. ev_seq x < i" and j: "\<forall>x\<in>set es. ev_seq x < j"
  shows "replay (es @ [e\<lparr>ev_seq := i\<rparr>]) through = replay (es @ [e\<lparr>ev_seq := j\<rparr>]) through"
proof (rule replay_unnumbered)
  have "map unnumbered (insort_key (\<lambda>x. (ev_date x, ev_seq x)) (e\<lparr>ev_seq := i\<rparr>) (sorted_events es))
      = map unnumbered (insort_key (\<lambda>x. (ev_date x, ev_seq x)) (e\<lparr>ev_seq := j\<rparr>) (sorted_events es))"
  proof (rule map_insort_key)
    fix y
    assume "y \<in> set (sorted_events es)"
    then have "ev_seq y < i" and "ev_seq y < j" using i j by (simp_all add: sorted_events_def)
    then show "((ev_date (e\<lparr>ev_seq := i\<rparr>), ev_seq (e\<lparr>ev_seq := i\<rparr>)) \<le> (ev_date y, ev_seq y))
        = ((ev_date (e\<lparr>ev_seq := j\<rparr>), ev_seq (e\<lparr>ev_seq := j\<rparr>)) \<le> (ev_date y, ev_seq y))"
      by (simp add: less_eq_prod_def)
  qed (simp add: unnumbered_def)
  then show "map unnumbered (sorted_events (es @ [e\<lparr>ev_seq := i\<rparr>]))
      = map unnumbered (sorted_events (es @ [e\<lparr>ev_seq := j\<rparr>]))"
    using i j by (simp add: sorted_events_snoc)
qed

definition replays :: "event list \<Rightarrow> bool" where
  "replays es \<longleftrightarrow> (\<exists>ps. replay es None = Inr ps)"

interpretation lc: log_check ev_seq "\<lambda>i e. e\<lparr>ev_seq := i\<rparr>" replays
proof unfold_locales
  show "replays []" by (simp add: replays_def replay_def sorted_events_def)
next
  fix es :: "event list" and i j :: int and e :: event
  assume "replays (es @ [e\<lparr>ev_seq := i\<rparr>])" "\<forall>x\<in>set es. ev_seq x < i" "\<forall>x\<in>set es. ev_seq x < j"
  then show "replays (es @ [e\<lparr>ev_seq := j\<rparr>])" unfolding replays_def using replay_restamp by metis
qed

section \<open>The invariant of the store\<close>

definition one_market :: "event list \<Rightarrow> bool" where
  "one_market es \<longleftrightarrow> (\<forall>a\<in>set es. \<forall>b\<in>set es. ev_symbol a = ev_symbol b \<longrightarrow> ev_market a = ev_market b)"

definition ledger_ok :: "ledger \<Rightarrow> bool" where
  "ledger_ok L \<longleftrightarrow> replays (live_events L) \<and> one_market (live_events L)
     \<and> distinct (map (\<lambda>r. ev_request (row_event r)) L)
     \<and> map (\<lambda>r. ev_seq (row_event r)) L = map int [1 ..< Suc (length L)]"

lemma one_market_snoc:
  "one_market es \<Longrightarrow> \<forall>x\<in>set es. ev_symbol x = ev_symbol e \<longrightarrow> ev_market x = ev_market e \<Longrightarrow>
   one_market (es @ [e\<lparr>ev_seq := i\<rparr>])"
proof -
  assume es: "one_market es" and e: "\<forall>x\<in>set es. ev_symbol x = ev_symbol e \<longrightarrow> ev_market x = ev_market e"
  define c where "c = e\<lparr>ev_seq := i\<rparr>"
  have "\<forall>x\<in>set es. ev_symbol x = ev_symbol c \<longrightarrow> ev_market x = ev_market c" using e by (simp add: c_def)
  with es have "\<forall>a\<in>insert c (set es). \<forall>b\<in>insert c (set es). ev_symbol a = ev_symbol b \<longrightarrow> ev_market a = ev_market b"
    unfolding one_market_def by (metis insert_iff)
  then show ?thesis by (simp only: one_market_def c_def [symmetric] set_append list.set Un_insert_right Un_empty_right)
qed

lemma one_market_filter: "one_market es \<Longrightarrow> one_market (filter P es)"
  unfolding one_market_def by (meson filter_is_subset subsetD)

lemma live_snoc [simp]:
  "live_events (L @ [\<lparr>row_event = e, row_voided = False\<rparr>]) = live_events L @ [e]"
  by (simp add: live_events_def)

lemma seqs_bounded: "map (\<lambda>r. ev_seq (row_event r)) L = map int [1 ..< Suc (length L)] \<Longrightarrow> x \<in> set (live_events L) \<Longrightarrow> ev_seq x \<le> int (length L)"
proof -
  assume m: "map (\<lambda>r. ev_seq (row_event r)) L = map int [1 ..< Suc (length L)]" and "x \<in> set (live_events L)"
  then obtain r where "r \<in> set L" "x = row_event r" by (auto simp: live_events_def)
  then have "ev_seq x \<in> set (map (\<lambda>r. ev_seq (row_event r)) L)" by auto
  then have "ev_seq x \<in> set (map int [1 ..< Suc (length L)])" by (simp only: m)
  then show ?thesis by auto
qed

lemma validate_event_True:
  assumes "validate_event es e = Inr True"
  shows "replays (es @ [e\<lparr>ev_seq := next_seq es\<rparr>])"
    and "\<forall>x\<in>set es. ev_symbol x = ev_symbol e \<longrightarrow> ev_market x = ev_market e"
  using assms
  by (auto simp: validate_event_def replays_def list_ex_iff ebind_def split: if_splits option.splits sum.splits)

lemma write_event_cases:
  assumes "write_event e0 L = Inr L'"
  obtains (again) "L' = L" "validate_event (live_events L) (e0\<lparr>ev_denominator := Some (denominator_text e0)\<rparr>) = Inr False"
  | (stored) e where "e = e0\<lparr>ev_denominator := Some (denominator_text e0)\<rparr>" "validate_event (live_events L) e = Inr True"
      "\<forall>r\<in>set L. ev_request (row_event r) \<noteq> ev_request e"
      "L' = L @ [\<lparr>row_event = e\<lparr>ev_seq := int (length L) + 1\<rparr>, row_voided = False\<rparr>]"
proof -
  let ?e = "e0\<lparr>ev_denominator := Some (denominator_text e0)\<rparr>"
  from assms obtain store where v: "validate_event (live_events L) ?e = Inr store"
    and rest: "(if \<not> store then Inr L
        else if list_ex (\<lambda>r. ev_request (row_event r) = ev_request ?e) L then Inl AlreadyVoided
        else Inr (L @ [\<lparr>row_event = ?e\<lparr>ev_seq := int (length L) + 1\<rparr>, row_voided = False\<rparr>])) = Inr L'"
    unfolding write_event_def Let_def by (rule ebind_Inr)
  show ?thesis
  proof (cases store)
    case False
    then show ?thesis using rest v again by simp
  next
    case True
    with rest have "\<forall>r\<in>set L. ev_request (row_event r) \<noteq> ev_request ?e"
      and "L' = L @ [\<lparr>row_event = ?e\<lparr>ev_seq := int (length L) + 1\<rparr>, row_voided = False\<rparr>]"
      by (auto simp: list_ex_iff split: if_splits)
    then show ?thesis using stored [OF refl] v True by simp
  qed
qed

lemma write_event_ok [keeps]: "write_event e0 L = Inr L' \<Longrightarrow> ledger_ok L \<Longrightarrow> ledger_ok L'"
proof (elim write_event_cases)
  fix e
  assume ok: "ledger_ok L" and v: "validate_event (live_events L) e = Inr True"
    and new: "\<forall>r\<in>set L. ev_request (row_event r) \<noteq> ev_request e"
    and L': "L' = L @ [\<lparr>row_event = e\<lparr>ev_seq := int (length L) + 1\<rparr>, row_voided = False\<rparr>]"
  have "replays (live_events L @ [e\<lparr>ev_seq := int (length L) + 1\<rparr>])"
    by (rule lc.store_checked)
      (use validate_event_True(1) [OF v] ok seqs_bounded in \<open>auto simp: next_seq_def ledger_ok_def\<close>)
  moreover have "one_market (live_events L @ [e\<lparr>ev_seq := int (length L) + 1\<rparr>])"
    using validate_event_True(2) [OF v] ok by (intro one_market_snoc) (auto simp only: ledger_ok_def)
  ultimately show "ledger_ok L'" using ok new by (force simp: ledger_ok_def L')
qed simp

lemma live_voided:
  "live_events (map (\<lambda>r. if ev_request (row_event r) = rid then r\<lparr>row_voided := True\<rparr> else r) L)
   = filter (\<lambda>e. ev_request e \<noteq> rid) (live_events L)"
  by (induction L) (auto simp: live_events_def)

lemma void_event_ok [keeps]: "void_event rid L = Inr L' \<Longrightarrow> ledger_ok L \<Longrightarrow> ledger_ok L'"
proof -
  assume v: "void_event rid L = Inr L'" and ok: "ledger_ok L"
  from v have L': "L' = map (\<lambda>r. if ev_request (row_event r) = rid then r\<lparr>row_voided := True\<rparr> else r) L"
    and r: "replays (filter (\<lambda>e. ev_request e \<noteq> rid) (live_events L))"
    unfolding void_event_def replays_def by (elim if_Inr ebind_Inr; simp)+
  have ev: "map (\<lambda>r. g (row_event r)) L' = map (\<lambda>r. g (row_event r)) L" for g :: "event \<Rightarrow> 'b"
    by (simp add: L')
  have len: "length L' = length L" by (simp add: L')
  show ?thesis
    using r ok unfolding ledger_ok_def ev len by (simp add: L' live_voided one_market_filter)
qed

lemma ledger_step_ok [keeps]: "ledger_ok L \<Longrightarrow> ledger_ok (ledger_step x L)"
  by (cases x) (auto split: sum.splits intro: write_event_ok void_event_ok)

text \<open>
  C14: Whatever writes and cancellations are requested, in any order, the stored ledger stays one
  that replays without an error, with one market per symbol, no request identifier used twice and
  the sequence numbers 1, 2, 3, ...: a request that would break it is refused and changes nothing.
\<close>

theorem ledger_always_replays: "ledger_ok (run_ops ledger_step ops [])"
proof (rule run_ops_invariant)
  show "ledger_ok []" by (simp add: ledger_ok_def lc.ok_nil one_market_def live_events_def)
qed (rule ledger_step_ok)

section \<open>Retries\<close>

lemma same_number_refl: "amount t = Inr r \<Longrightarrow> same_number t t = Inr True"
  by (auto simp: amount_def same_number_def split: dec_text.splits)

lemma replayed_numbers:
  assumes "replays (es @ [e])"
  shows "same_movement e e = Inr True"
proof -
  from assms obtain ps where "efold (replay_step None) (sorted_events (es @ [e])) [] = Inr ps"
    by (auto simp: replays_def replay_def)
  then obtain u v where "replay_step None e u = Inr v"
    using efold_each [of "replay_step None" "sorted_events (es @ [e])" "[]" ps e] by (auto simp: sorted_events_def)
  then obtain p where p: "apply_event e (position_of u (ev_symbol e)) = Inr p"
    by (auto simp: replay_step_def Let_def elim: ebind_Inr)
  obtain q t f d where "amount (ev_quantity e) = Inr q" "amount (ev_total e) = Inr t" "amount (ev_fees e) = Inr f"
      "amount (denominator_text e) = Inr d"
    using p unfolding apply_event_def by (elim ebind_Inr) blast
  then show ?thesis by (simp add: same_movement_def same_number_refl)
qed

lemma find_snoc: "\<forall>x\<in>set xs. \<not> P x \<Longrightarrow> P y \<Longrightarrow> find P (xs @ [y]) = Some y"
  by (induction xs) auto

text \<open>
  A write that was accepted may be retried: repeating it succeeds, stores nothing more, and
  the store holds exactly one row with its identifier.
\<close>

theorem write_retry:
  assumes w: "write_event e L = Inr L'" and ok: "ledger_ok L"
  shows "write_event e L' = Inr L' \<and> length (filter (\<lambda>r. ev_request (row_event r) = ev_request e) L') = 1"
  using w
proof (cases rule: write_event_cases)
  case again
  let ?e = "e\<lparr>ev_denominator := Some (denominator_text e)\<rparr>"
  obtain x where "x \<in> set (live_events L)" and x: "ev_request x = ev_request ?e"
    using again(2)
    by (auto simp: validate_event_def ebind_def find_Some_iff intro: nth_mem split: if_splits option.splits sum.splits)
  then obtain r where r: "r \<in> set L" "ev_request (row_event r) = ev_request e" by (auto simp: live_events_def)
  have "distinct (map (\<lambda>r. ev_request (row_event r)) L)" using ok by (simp add: ledger_ok_def)
  from filter_unique [OF this r(1)] r(2) have "length (filter (\<lambda>r. ev_request (row_event r) = ev_request e) L) = 1" by simp
  then show ?thesis using w again(1) by simp
next
  case (stored c)
  define c1 where "c1 = c\<lparr>ev_seq := int (length L) + 1\<rparr>"
  have L': "live_events L' = live_events L @ [c1]" by (simp add: stored(4) c1_def)
  have req: "ev_request c = ev_request e" by (simp add: stored(1))
  have den: "c\<lparr>ev_denominator := Some (denominator_text c)\<rparr> = c" "e\<lparr>ev_denominator := Some (denominator_text e)\<rparr> = c"
    by (simp_all add: stored(1) denominator_text_def)
  have markets: "\<not> list_ex (\<lambda>x. ev_symbol x = ev_symbol c \<and> ev_market x \<noteq> ev_market c) (live_events L')"
    using validate_event_True(2) [OF stored(2)] by (auto simp: L' list_ex_iff c1_def)
  have "same_movement (c\<lparr>ev_seq := next_seq (live_events L)\<rparr>) (c\<lparr>ev_seq := next_seq (live_events L)\<rparr>) = Inr True"
    by (rule replayed_numbers [OF validate_event_True(1) [OF stored(2)]])
  then have same: "same_movement c1 c = Inr True" by (simp add: same_movement_def denominator_text_def c1_def)
  have found: "find (\<lambda>x. ev_request x = ev_request c) (live_events L') = Some c1"
    unfolding L' by (rule find_snoc) (use stored(3) in \<open>auto simp: live_events_def c1_def\<close>)
  have "validate_event (live_events L') c = Inr False"
    using markets by (simp add: validate_event_def found same)
  then have "write_event e L' = Inr L'" by (simp add: write_event_def den(2))
  moreover have "filter (\<lambda>r. ev_request (row_event r) = ev_request e) L' = [\<lparr>row_event = c1, row_voided = False\<rparr>]"
    using stored(3) req by (simp add: stored(4) c1_def filter_empty_conv)
  ultimately show ?thesis by simp
qed

lemma write_retry_witness:
  "\<exists>L'. write_event (sample_event ''buy'' ''2025-03-03'' ''3'' ''1'') [] = Inr L' \<and> L' \<noteq> []
     \<and> write_event (sample_event ''buy'' ''2025-03-03'' ''3'' ''1'') L' = Inr L'"
proof -
  have w: "write_event (sample_event ''buy'' ''2025-03-03'' ''3'' ''1'') []
      = Inr [\<lparr>row_event = (sample_event ''buy'' ''2025-03-03'' ''3'' ''1'')\<lparr>ev_denominator := Some ''1''\<rparr>, row_voided = False\<rparr>]"
    by code_simp
  have ok: "ledger_ok []" by (simp add: ledger_ok_def lc.ok_nil one_market_def live_events_def)
  show ?thesis using w write_retry [OF w ok] by blast
qed

end
