(* ===== verification/LiveTape.thy ===== *)
theory LiveTape
  imports PyFloat
begin

text \<open>
  The tapes of the live engine (\<open>r2d2_live_engine.py\<close>: \<open>Tape\<close>, \<open>LiveEngineStream\<close>,
  \<open>MarketView\<close>): per symbol the session's VWAP accumulators, the opening print, the last trade and
  the last completed minute; the holding of trades during a restart; the reads of the engine.
  Instants are integers (microseconds since the epoch); the New York wall clock of an instant is
  the function \<open>minute_of\<close> given to the operations that need it.
\<close>

section \<open>\<open>Tape\<close>\<close>

record tape =
  tp_pv :: pyfloat
  tp_volume :: pyfloat
  tp_opening :: "pyfloat option"
  tp_opening_at :: "int option"
  tp_last_price :: "pyfloat option"
  tp_last_at :: "int option"
  tp_minute :: int
  tp_closed_minute :: int
  tp_closed_price :: "pyfloat option"
  tp_closed_at :: "int option"
  tp_closed_pv :: pyfloat
  tp_closed_volume :: pyfloat

definition empty_tape :: tape where
  "empty_tape = \<lparr>tp_pv = Fin 0, tp_volume = Fin 0, tp_opening = None, tp_opening_at = None, tp_last_price = None,
     tp_last_at = None, tp_minute = - 1, tp_closed_minute = - 1, tp_closed_price = None, tp_closed_at = None,
     tp_closed_pv = Fin 0, tp_closed_volume = Fin 0\<rparr>"

definition vwap :: "tape \<Rightarrow> pyfloat option" where
  "vwap t = (if flt (Fin 0) (tp_volume t) then Some (fdiv (tp_pv t) (tp_volume t)) else None)"

definition closed_vwap :: "tape \<Rightarrow> pyfloat option" where
  "closed_vwap t = (if flt (Fin 0) (tp_closed_volume t) then Some (fdiv (tp_closed_pv t) (tp_closed_volume t)) else None)"

text \<open>\<open>x < y\<close> and \<open>x \<ge> y\<close> for an optional instant: nothing is before or after \<open>None\<close>'s guards.\<close>

definition before :: "int \<Rightarrow> int option \<Rightarrow> bool" where
  "before stamp at_opt = (case at_opt of None \<Rightarrow> False | Some a \<Rightarrow> stamp < a)"

definition tape_opening :: "pyfloat \<Rightarrow> int \<Rightarrow> tape \<Rightarrow> tape" where
  "tape_opening price stamp t =
     (if tp_opening t = None \<or> before stamp (tp_opening_at t)
      then t\<lparr>tp_opening := Some price, tp_opening_at := Some stamp\<rparr> else t)"

definition tape_in_order :: "pyfloat \<Rightarrow> int \<Rightarrow> int \<Rightarrow> tape \<Rightarrow> tape" where
  "tape_in_order price minute stamp t =
     (let t = (if 0 \<le> tp_minute t \<and> tp_minute t < minute
               then t\<lparr>tp_closed_minute := tp_minute t, tp_closed_price := tp_last_price t, tp_closed_at := tp_last_at t,
                      tp_closed_pv := tp_pv t, tp_closed_volume := tp_volume t\<rparr> else t)
      in t\<lparr>tp_minute := max (tp_minute t) minute, tp_last_price := Some price, tp_last_at := Some stamp\<rparr>)"

definition tape_late :: "pyfloat \<Rightarrow> pyfloat \<Rightarrow> int \<Rightarrow> int \<Rightarrow> tape \<Rightarrow> tape" where
  "tape_late price qty minute stamp t =
     (if minute < tp_minute t then
        (let t = (if flt (Fin 0) qty then t\<lparr>tp_closed_pv := fadd (tp_closed_pv t) (fmul price qty),
                                            tp_closed_volume := fadd (tp_closed_volume t) qty\<rparr> else t)
         in if tp_closed_minute t < minute \<or> minute = tp_closed_minute t \<and> \<not> before stamp (tp_closed_at t)
            then t\<lparr>tp_closed_minute := minute, tp_closed_price := Some price, tp_closed_at := Some stamp\<rparr> else t)
      else t)"

definition tape_add :: "pyfloat \<Rightarrow> pyfloat \<Rightarrow> int \<Rightarrow> int \<Rightarrow> tape \<Rightarrow> tape" where
  "tape_add price qty minute stamp t =
     (let t = tape_opening price stamp t;
          t = (if before stamp (tp_last_at t) then tape_late price qty minute stamp t
               else tape_in_order price minute stamp t)
      in if flt (Fin 0) qty then t\<lparr>tp_pv := fadd (tp_pv t) (fmul price qty), tp_volume := fadd (tp_volume t) qty\<rparr> else t)"

section \<open>The stream's session\<close>

record pending_trade =
  pt_symbol :: string
  pt_price :: pyfloat
  pt_size :: pyfloat
  pt_minute :: int
  pt_stamp :: int

type_synonym quote = "pyfloat \<times> pyfloat \<times> int"

record stream =
  st_session :: "int option"
  st_tapes :: "string \<Rightarrow> tape option"
  st_nbbo :: "string \<Rightarrow> quote option"
  st_pending :: "pending_trade list option"
  st_restored :: "int option"
  st_floor :: "int option"

text \<open>\<open>day_of\<close> and \<open>minute_of\<close>: the New York date and the minute after midnight of an instant.\<close>

definition SESSION_OPEN_MINUTE :: int where
  "SESSION_OPEN_MINUTE = 9 * 60 + 30"

definition put_trade :: "pending_trade \<Rightarrow> (string \<Rightarrow> tape option) \<Rightarrow> string \<Rightarrow> tape option" where
  "put_trade p m = m(pt_symbol p \<mapsto>
     tape_add (pt_price p) (pt_size p) (pt_minute p) (pt_stamp p)
       (case m (pt_symbol p) of None \<Rightarrow> empty_tape | Some t \<Rightarrow> t))"

definition start_session :: "int \<Rightarrow> bool \<Rightarrow> int option \<Rightarrow> stream \<Rightarrow> stream" where
  "start_session day restoring least s =
     s\<lparr>st_session := Some day, st_tapes := Map.empty, st_pending := (if restoring then Some [] else None),
       st_restored := None, st_floor := least\<rparr>"

definition restore :: "(string \<Rightarrow> tape option) \<Rightarrow> int \<Rightarrow> stream \<Rightarrow> stream" where
  "restore context now_minute s =
     (case st_pending s of None \<Rightarrow> s
      | Some pend \<Rightarrow> s\<lparr>st_restored := Some now_minute, st_tapes := fold put_trade pend context, st_pending := None\<rparr>)"

definition record_trade :: "(int \<Rightarrow> int) \<Rightarrow> (int \<Rightarrow> int) \<Rightarrow> string \<Rightarrow> pyfloat \<Rightarrow> pyfloat \<Rightarrow> int \<Rightarrow> stream \<Rightarrow> stream" where
  "record_trade day_of minute_of symbol price qty stamp s =
     (if st_session s \<noteq> Some (day_of stamp) \<or> minute_of stamp < SESSION_OPEN_MINUTE then s
      else if before stamp (st_floor s) then s
      else
        let p = \<lparr>pt_symbol = symbol, pt_price = price, pt_size = qty, pt_minute = minute_of stamp, pt_stamp = stamp\<rparr> in
        case st_pending s of
          Some pend \<Rightarrow> s\<lparr>st_pending := Some (pend @ [p])\<rparr>
        | None \<Rightarrow> s\<lparr>st_tapes := put_trade p (st_tapes s)\<rparr>)"

definition record_quote :: "string \<Rightarrow> quote \<Rightarrow> stream \<Rightarrow> stream" where
  "record_quote symbol q s =
     (case st_nbbo s symbol of
        Some (_, _, at_old) \<Rightarrow> if snd (snd q) < at_old then s else s\<lparr>st_nbbo := (st_nbbo s)(symbol \<mapsto> q)\<rparr>
      | None \<Rightarrow> s\<lparr>st_nbbo := (st_nbbo s)(symbol \<mapsto> q)\<rparr>)"

section \<open>What the engine reads\<close>

record market_view =
  mv_price :: "pyfloat option"
  mv_trade_at :: "int option"
  mv_vwap :: "pyfloat option"
  mv_bid :: "pyfloat option"
  mv_ask :: "pyfloat option"
  mv_quote_at :: "int option"

definition view :: "string \<Rightarrow> stream \<Rightarrow> market_view" where
  "view symbol s =
     (let t = st_tapes s symbol; q = st_nbbo s symbol in
      \<lparr>mv_price = Option.bind t tp_last_price,
       mv_trade_at = Option.bind (Option.bind t tp_last_at) (\<lambda>a. if a = 0 then None else Some a),
       mv_vwap = Option.bind t vwap,
       mv_bid = map_option fst q, mv_ask = map_option (fst \<circ> snd) q, mv_quote_at = map_option (snd \<circ> snd) q\<rparr>)"

definition live_signal :: "string \<Rightarrow> stream \<Rightarrow> (pyfloat \<times> pyfloat) option" where
  "live_signal symbol s = do {
     t \<leftarrow> st_tapes s symbol;
     price \<leftarrow> tp_last_price t;
     w \<leftarrow> vwap t;
     case st_restored s of None \<Rightarrow> Some (price, w)
     | Some r \<Rightarrow> if tp_minute t \<le> r then None else Some (price, w) }"

definition signal_view :: "string \<Rightarrow> int \<Rightarrow> stream \<Rightarrow> (pyfloat \<times> pyfloat) option" where
  "signal_view symbol minute s = do {
     t \<leftarrow> st_tapes s symbol;
     price \<leftarrow> tp_last_price t;
     let least = (case st_restored s of None \<Rightarrow> - 1 | Some r \<Rightarrow> r + 1);
     if tp_minute t < minute
     then (case vwap t of None \<Rightarrow> None | Some w \<Rightarrow> if least \<le> tp_minute t then Some (price, w) else None)
     else if tp_closed_minute t < 0 \<or> minute \<le> tp_closed_minute t \<or> tp_closed_minute t < least then None
     else do { p \<leftarrow> tp_closed_price t; w \<leftarrow> closed_vwap t; Some (p, w) } }"

definition microseconds :: "int \<Rightarrow> int" where
  "microseconds secs = secs * 1000000"

definition QUOTE_MAX_AGE :: int where
  "QUOTE_MAX_AGE = microseconds 5"

definition quote_fresh :: "int \<Rightarrow> market_view \<Rightarrow> bool" where
  "quote_fresh now v = (case (mv_bid v, mv_ask v, mv_quote_at v) of
     (Some b, Some a, Some q) \<Rightarrow> flt (Fin 0) b \<and> fle b a \<and> now - q \<le> QUOTE_MAX_AGE
   | _ \<Rightarrow> False)"

section \<open>A tape does not depend on the order trades arrive in\<close>

record trade =
  tr_price :: pyfloat
  tr_size :: pyfloat
  tr_stamp :: int

definition run_tape :: "(int \<Rightarrow> int) \<Rightarrow> trade list \<Rightarrow> tape" where
  "run_tape minute_of ts = fold (\<lambda>x. tape_add (tr_price x) (tr_size x) (minute_of (tr_stamp x)) (tr_stamp x)) ts empty_tape"

text \<open>The prints and the completed minute: everything but the sums, whose float rounding depends on the order.\<close>

definition prints ::
    "tape \<Rightarrow> (pyfloat option \<times> int option) \<times> (pyfloat option \<times> int option \<times> int) \<times> (int \<times> pyfloat option \<times> int option)" where
  "prints t = ((tp_opening t, tp_opening_at t), (tp_last_price t, tp_last_at t, tp_minute t),
     (tp_closed_minute t, tp_closed_price t, tp_closed_at t))"

text \<open>What the tape of a set of trades must hold: the earliest, the latest, and the latest of the earlier minutes.\<close>

definition latest :: "trade set \<Rightarrow> trade \<Rightarrow> bool" where
  "latest S x \<longleftrightarrow> x \<in> S \<and> (\<forall>y\<in>S. tr_stamp y \<le> tr_stamp x)"

definition earliest :: "trade set \<Rightarrow> trade \<Rightarrow> bool" where
  "earliest S x \<longleftrightarrow> x \<in> S \<and> (\<forall>y\<in>S. tr_stamp x \<le> tr_stamp y)"

definition completed :: "(int \<Rightarrow> int) \<Rightarrow> trade set \<Rightarrow> trade \<Rightarrow> trade set" where
  "completed m S l = {x \<in> S. m (tr_stamp x) < m (tr_stamp l)}"

definition closed_by :: "(int \<Rightarrow> int) \<Rightarrow> trade set \<Rightarrow> int \<times> pyfloat option \<times> int option \<Rightarrow> bool" where
  "closed_by m C r \<longleftrightarrow> C = {} \<and> r = (- 1, None, None)
     \<or> (\<exists>c. latest C c \<and> r = (m (tr_stamp c), Some (tr_price c), Some (tr_stamp c)))"

definition tape_of :: "(int \<Rightarrow> int) \<Rightarrow> trade set \<Rightarrow> tape \<Rightarrow> bool" where
  "tape_of m S t \<longleftrightarrow> (\<exists>e l. earliest S e \<and> latest S l
     \<and> (tp_opening t, tp_opening_at t) = (Some (tr_price e), Some (tr_stamp e))
     \<and> (tp_last_price t, tp_last_at t, tp_minute t) = (Some (tr_price l), Some (tr_stamp l), m (tr_stamp l))
     \<and> closed_by m (completed m S l) (tp_closed_minute t, tp_closed_price t, tp_closed_at t))"

lemma prints_sums [simp]:
  "prints (t\<lparr>tp_pv := a\<rparr>) = prints t" "prints (t\<lparr>tp_volume := a\<rparr>) = prints t"
  "prints (t\<lparr>tp_closed_pv := a\<rparr>) = prints t" "prints (t\<lparr>tp_closed_volume := a\<rparr>) = prints t"
  by (simp_all add: prints_def)

lemma tape_of_prints: "prints t = prints t' \<Longrightarrow> tape_of m S t = tape_of m S t'"
  by (simp add: prints_def tape_of_def)

text \<open>The trades of a tape are told apart by their stamps.\<close>

definition stamped :: "trade set \<Rightarrow> bool" where
  "stamped S \<longleftrightarrow> inj_on tr_stamp S"

lemma latest_unique: "stamped S \<Longrightarrow> latest S x \<Longrightarrow> latest S y \<Longrightarrow> x = y"
  unfolding latest_def stamped_def inj_on_def by (meson order_antisym)

lemma earliest_unique: "stamped S \<Longrightarrow> earliest S x \<Longrightarrow> earliest S y \<Longrightarrow> x = y"
  unfolding earliest_def stamped_def inj_on_def by (meson order_antisym)

lemma stamped_subset: "stamped S \<Longrightarrow> C \<subseteq> S \<Longrightarrow> stamped C"
  by (auto simp: stamped_def inj_on_subset)

lemma closed_by_unique: "stamped C \<Longrightarrow> closed_by m C r \<Longrightarrow> closed_by m C r' \<Longrightarrow> r = r'"
  by (auto simp: closed_by_def latest_def dest: latest_unique [unfolded latest_def])

lemma tape_of_unique:
  assumes "stamped S" and "tape_of m S t" and "tape_of m S t'"
  shows "prints t = prints t'"
proof -
  from assms(2) obtain e l where 1: "earliest S e" "latest S l"
    "(tp_opening t, tp_opening_at t) = (Some (tr_price e), Some (tr_stamp e))"
    "(tp_last_price t, tp_last_at t, tp_minute t) = (Some (tr_price l), Some (tr_stamp l), m (tr_stamp l))"
    "closed_by m (completed m S l) (tp_closed_minute t, tp_closed_price t, tp_closed_at t)" unfolding tape_of_def by blast
  from assms(3) obtain e' l' where 2: "earliest S e'" "latest S l'"
    "(tp_opening t', tp_opening_at t') = (Some (tr_price e'), Some (tr_stamp e'))"
    "(tp_last_price t', tp_last_at t', tp_minute t') = (Some (tr_price l'), Some (tr_stamp l'), m (tr_stamp l'))"
    "closed_by m (completed m S l') (tp_closed_minute t', tp_closed_price t', tp_closed_at t')" unfolding tape_of_def by blast
  have "e = e'" and "l = l'" using 1 2 assms(1) by (auto dest: latest_unique earliest_unique)
  moreover have "stamped (completed m S l)" using assms(1) by (rule stamped_subset) (auto simp: completed_def)
  ultimately show ?thesis using 1 2 closed_by_unique unfolding prints_def by (metis prod.inject)
qed

lemma latest_insert: "latest S l \<Longrightarrow> latest (insert x S) (if tr_stamp l \<le> tr_stamp x then x else l)"
  by (auto simp: latest_def)

lemma earliest_insert: "earliest S e \<Longrightarrow> earliest (insert x S) (if tr_stamp x \<le> tr_stamp e then x else e)"
  by (auto simp: earliest_def)

definition add_trade :: "(int \<Rightarrow> int) \<Rightarrow> trade \<Rightarrow> tape \<Rightarrow> tape" where
  "add_trade m x t = tape_add (tr_price x) (tr_size x) (m (tr_stamp x)) (tr_stamp x) t"

lemma add_trade_prints:
  "prints (add_trade m x t) =
     (let t = tape_opening (tr_price x) (tr_stamp x) t
      in if before (tr_stamp x) (tp_last_at t) then prints (tape_late (tr_price x) (tr_size x) (m (tr_stamp x)) (tr_stamp x) t)
         else prints (tape_in_order (tr_price x) (m (tr_stamp x)) (tr_stamp x) t))"
  by (simp add: add_trade_def tape_add_def Let_def)

lemma late_prints:
  "prints (tape_late p q mn st t) = (fst (prints t), fst (snd (prints t)),
     if mn < tp_minute t \<and> (tp_closed_minute t < mn \<or> mn = tp_closed_minute t \<and> \<not> before st (tp_closed_at t))
     then (mn, Some p, Some st) else (tp_closed_minute t, tp_closed_price t, tp_closed_at t))"
  by (auto simp: tape_late_def Let_def prints_def)

lemma in_order_prints:
  "prints (tape_in_order p mn st t) = (fst (prints t), (Some p, Some st, max (tp_minute t) mn),
     if 0 \<le> tp_minute t \<and> tp_minute t < mn then (tp_minute t, tp_last_price t, tp_last_at t)
     else (tp_closed_minute t, tp_closed_price t, tp_closed_at t))"
  by (auto simp: tape_in_order_def Let_def prints_def)

lemma opening_prints:
  "prints (tape_opening p st t) = (if tp_opening t = None \<or> before st (tp_opening_at t) then (Some p, Some st)
     else (tp_opening t, tp_opening_at t), snd (prints t))"
  by (simp add: tape_opening_def prints_def)

lemma opening_keeps [simp]:
  "tp_last_price (tape_opening p st t) = tp_last_price t" "tp_last_at (tape_opening p st t) = tp_last_at t"
  "tp_minute (tape_opening p st t) = tp_minute t" "tp_closed_minute (tape_opening p st t) = tp_closed_minute t"
  "tp_closed_price (tape_opening p st t) = tp_closed_price t" "tp_closed_at (tape_opening p st t) = tp_closed_at t"
  by (simp_all add: tape_opening_def)

text \<open>The completed minutes after one more trade: after the last one, and late.\<close>

lemma closed_after_last:
  assumes m: "mono m" and S: "latest S l" and x: "tr_stamp l < tr_stamp x"
    and c: "closed_by m (completed m S l) r" and nn: "0 \<le> m (tr_stamp l)"
  shows "closed_by m (completed m (insert x S) x)
    (if m (tr_stamp l) < m (tr_stamp x) then (m (tr_stamp l), Some (tr_price l), Some (tr_stamp l)) else r)"
proof -
  have le: "m (tr_stamp l) \<le> m (tr_stamp x)" using m x by (simp add: monoD)
  have all: "m (tr_stamp y) \<le> m (tr_stamp l)" if "y \<in> S" for y using S that m by (simp add: latest_def monoD)
  show ?thesis
  proof (cases "m (tr_stamp l) < m (tr_stamp x)")
    case True
    have "m (tr_stamp y) < m (tr_stamp x)" if "y \<in> S" for y using all [OF that] True by simp
    then have "completed m (insert x S) x = S" using le x S by (auto simp: completed_def latest_def)
    then show ?thesis using True S by (auto simp: closed_by_def)
  next
    case False
    then have "completed m (insert x S) x = completed m S l" using le by (auto simp: completed_def)
    then show ?thesis using False c by simp
  qed
qed

lemma closed_after_late:
  assumes m: "mono m" and x: "x \<notin> S" "\<forall>y\<in>S. tr_stamp y \<noteq> tr_stamp x" and nn: "\<forall>s. 0 \<le> m s"
    and c: "closed_by m (completed m S l) (cm, cp, ca)"
  shows "closed_by m (completed m (insert x S) l)
    (if m (tr_stamp x) < m (tr_stamp l) \<and> (cm < m (tr_stamp x) \<or> m (tr_stamp x) = cm \<and> \<not> before (tr_stamp x) ca)
     then (m (tr_stamp x), Some (tr_price x), Some (tr_stamp x)) else (cm, cp, ca))"
proof (cases "m (tr_stamp x) < m (tr_stamp l)")
  case True
  then have C: "completed m (insert x S) l = insert x (completed m S l)" by (auto simp: completed_def)
  from c consider "completed m S l = {}" "(cm, cp, ca) = (- 1, None, None)"
    | k where "latest (completed m S l) k" "(cm, cp, ca) = (m (tr_stamp k), Some (tr_price k), Some (tr_stamp k))"
    unfolding closed_by_def by blast
  then show ?thesis
  proof cases
    case 1
    then show ?thesis using True C nn [THEN spec, of "tr_stamp x"] by (auto simp: closed_by_def latest_def)
  next
    case (2 k)
    have k: "k \<in> S" using 2(1) by (simp add: latest_def completed_def)
    then have ne: "tr_stamp k \<noteq> tr_stamp x" using x(2) by blast
    have iff: "(cm < m (tr_stamp x) \<or> m (tr_stamp x) = cm \<and> \<not> before (tr_stamp x) ca) \<longleftrightarrow> tr_stamp k < tr_stamp x"
    proof
      assume "cm < m (tr_stamp x) \<or> m (tr_stamp x) = cm \<and> \<not> before (tr_stamp x) ca"
      then show "tr_stamp k < tr_stamp x"
        using 2(2) ne monoD [OF m, of "tr_stamp x" "tr_stamp k"] by (fastforce simp: before_def)
    next
      assume "tr_stamp k < tr_stamp x"
      then show "cm < m (tr_stamp x) \<or> m (tr_stamp x) = cm \<and> \<not> before (tr_stamp x) ca"
        using 2(2) monoD [OF m, of "tr_stamp k" "tr_stamp x"] by (auto simp: before_def)
    qed
    show ?thesis using latest_insert [OF 2(1), of x] 2(2) ne True unfolding C iff closed_by_def
      by (auto split: if_splits)
  qed
next
  case False
  then have "completed m (insert x S) l = completed m S l" by (auto simp: completed_def)
  then show ?thesis using c False by simp
qed

lemma add_trade_tape_of:
  assumes t: "tape_of m S t" and m: "mono m" "\<forall>s. 0 \<le> m s" and x: "\<forall>y\<in>S. tr_stamp y \<noteq> tr_stamp x"
  shows "tape_of m (insert x S) (add_trade m x t)"
proof -
  from t obtain e l where e: "earliest S e" and l: "latest S l"
    and op: "tp_opening t = Some (tr_price e)" "tp_opening_at t = Some (tr_stamp e)"
    and la: "tp_last_price t = Some (tr_price l)" "tp_last_at t = Some (tr_stamp l)" "tp_minute t = m (tr_stamp l)"
    and c: "closed_by m (completed m S l) (tp_closed_minute t, tp_closed_price t, tp_closed_at t)"
    by (auto simp: tape_of_def)
  have xS: "x \<notin> S" using x by blast
  have ne: "tr_stamp e \<noteq> tr_stamp x" "tr_stamp l \<noteq> tr_stamp x" using x e l by (auto simp: earliest_def latest_def)
  let ?e = "if tr_stamp x \<le> tr_stamp e then x else e"
  have e': "earliest (insert x S) ?e" by (rule earliest_insert [OF e])
  have op': "fst (prints (add_trade m x t)) = (Some (tr_price ?e), Some (tr_stamp ?e))"
    using op ne by (auto simp: add_trade_prints Let_def late_prints in_order_prints opening_prints before_def)
  show ?thesis
  proof (cases "tr_stamp l < tr_stamp x")
    case True
    have l': "latest (insert x S) x" using latest_insert [OF l, of x] True by simp
    have "snd (prints (add_trade m x t)) = ((Some (tr_price x), Some (tr_stamp x), m (tr_stamp x)),
      if m (tr_stamp l) < m (tr_stamp x) then (m (tr_stamp l), Some (tr_price l), Some (tr_stamp l))
      else (tp_closed_minute t, tp_closed_price t, tp_closed_at t))"
      using True la m(2) monoD [OF m(1), of "tr_stamp l" "tr_stamp x"]
      by (auto simp: add_trade_prints Let_def in_order_prints before_def)
    with closed_after_last [OF m(1) l True c] m(2) e' l' op' show ?thesis
      unfolding tape_of_def prints_def by (intro exI [of _ ?e] exI [of _ x]) (auto simp del: if_split)
  next
    case False
    have l': "latest (insert x S) l" using latest_insert [OF l, of x] False ne by simp
    have "snd (prints (add_trade m x t)) = ((Some (tr_price l), Some (tr_stamp l), m (tr_stamp l)),
      if m (tr_stamp x) < m (tr_stamp l) \<and> (tp_closed_minute t < m (tr_stamp x)
          \<or> m (tr_stamp x) = tp_closed_minute t \<and> \<not> before (tr_stamp x) (tp_closed_at t))
      then (m (tr_stamp x), Some (tr_price x), Some (tr_stamp x)) else (tp_closed_minute t, tp_closed_price t, tp_closed_at t))"
      using False la ne by (simp add: add_trade_prints Let_def late_prints opening_prints before_def) (auto simp add: prints_def la)
    with closed_after_late [OF m(1) xS x m(2) c] e' l' op' show ?thesis
      unfolding tape_of_def prints_def by (intro exI [of _ ?e] exI [of _ l]) (auto simp del: if_split)
  qed
qed

lemma first_trade_tape_of:
  assumes "0 \<le> m (tr_stamp x)"
  shows "tape_of m {x} (add_trade m x empty_tape)"
proof -
  have "prints (add_trade m x empty_tape) = ((Some (tr_price x), Some (tr_stamp x)), (Some (tr_price x), Some (tr_stamp x), m (tr_stamp x)), (- 1, None, None))"
    using assms by (simp add: add_trade_prints Let_def in_order_prints opening_prints empty_tape_def before_def tape_opening_def) (simp add: prints_def)
  then show ?thesis
    unfolding tape_of_def prints_def
    by (intro exI [of _ x]) (auto simp: earliest_def latest_def closed_by_def completed_def)
qed

lemma run_tape_of:
  assumes "distinct (map tr_stamp ts)" and "ts \<noteq> []" and m: "mono m" "\<forall>s. 0 \<le> m s"
  shows "tape_of m (set ts) (run_tape m ts)"
  using assms(1,2)
proof (induction ts rule: rev_induct)
  case (snoc x ts)
  have run: "run_tape m (ts @ [x]) = add_trade m x (run_tape m ts)" by (simp add: run_tape_def add_trade_def)
  show ?case
  proof (cases "ts = []")
    case True
    then show ?thesis using first_trade_tape_of [of m x] m(2) run by (simp add: run_tape_def)
  next
    case False
    have "\<forall>y\<in>set ts. tr_stamp y \<noteq> tr_stamp x" using snoc.prems(1) by (simp add: image_iff) metis
    with add_trade_tape_of [OF snoc.IH [OF _ False] m] snoc.prems run show ?thesis by simp
  qed
qed simp



end
