(* ===== verification/LiveRules.thy ===== *)
theory LiveRules
  imports LiveTape
begin

text \<open>
  The rules of the live engine (\<open>r2d2_live_engine.py\<close>): the parameters in force, the ladders and
  stops by rule label, the position size by the spread paid, the level of the profit lock, and the
  tests a quote must pass.  \<open>None\<close> is a raise: \<open>ZeroDivisionError\<close> of a position that cost nothing,
  \<open>ValueError\<close> of an unknown size rule, \<open>math.floor\<close> of a value that is not finite.
\<close>

section \<open>Parameters\<close>

definition FEE_SIDE :: pyfloat where "FEE_SIDE = flit 5 100000"
definition CONFIG :: string where "CONFIG = ''TIT-2S5-F20-L5-S0125''"

definition GAP_MIN_PERCENT :: pyfloat where "GAP_MIN_PERCENT = Fin 1"
definition SLOTS :: nat where "SLOTS = 20"
definition SPREAD_MAX_BPS :: pyfloat where "SPREAD_MAX_BPS = Fin 5"
definition STOP_PERCENT :: pyfloat where "STOP_PERCENT = flit 125 1000"
definition LOCK_MIN :: pyfloat where "LOCK_MIN = flit 10 100"
definition LOCK_STEP :: pyfloat where "LOCK_STEP = flit 5 100"
definition LOCK_WIDE_FROM :: pyfloat where "LOCK_WIDE_FROM = flit 20 100"
definition LOCK_WIDE_STEP :: pyfloat where "LOCK_WIDE_STEP = flit 5 100"
definition CLOSE_FLAT :: bool where "CLOSE_FLAT = False"
definition SIZE_RULE :: string where "SIZE_RULE = ''tiers''"
definition SIZE_TIERS :: "(pyfloat \<times> pyfloat) list" where
  "SIZE_TIERS = [(Fin 2, Fin 1), (Fin 3, flit 8 10), (Fin 5, flit 5 10)]"
definition BOUND_BPS :: pyfloat where "BOUND_BPS = flit 1 1000000"
definition MAX_PRICE :: pyfloat where "MAX_PRICE = flit 1000000 1"

text \<open>Times of the New York day, in microseconds after midnight, and ages in microseconds.\<close>

definition time_of_day :: "int \<Rightarrow> int \<Rightarrow> int \<Rightarrow> int" where
  "time_of_day h m s = microseconds (h * 3600 + m * 60 + s)"

definition LAST_ENTRY :: int where "LAST_ENTRY = time_of_day 16 0 0 - 1"
definition LAST_ENTRY_BY_CONFIG :: "string \<Rightarrow> int option" where
  "LAST_ENTRY_BY_CONFIG = [''TIT-2S3-RT'' \<mapsto> time_of_day 15 29 59, ''TIT-2S5-RT'' \<mapsto> time_of_day 15 29 59]"
definition SELL_POSITIVES_FROM :: int where "SELL_POSITIVES_FROM = time_of_day 15 59 30"
definition FLAT_LAST_ENTRY :: int where "FLAT_LAST_ENTRY = SELL_POSITIVES_FROM - 1"
definition OPENING_WINDOW_END :: int where "OPENING_WINDOW_END = time_of_day 9 31 0"
definition NBBO_MAX_AGE :: int where "NBBO_MAX_AGE = microseconds 60"
definition NBBO_EXIT_MAX_AGE :: int where "NBBO_EXIT_MAX_AGE = microseconds 10"
definition SHADOW_TRADE_MAX_AGE :: int where "SHADOW_TRADE_MAX_AGE = microseconds 10"
definition FUTURE_TOLERANCE :: int where "FUTURE_TOLERANCE = microseconds 5"
definition NBBO_MAX_DEVIATION :: pyfloat where "NBBO_MAX_DEVIATION = flit 2 100"

definition SHADOW_BANDS :: "(string \<times> pyfloat) list" where
  "SHADOW_BANDS = [(''5_8'', Fin 8), (''8_10'', Fin 10), (''gt10'', PInf)]"

section \<open>Size by the spread paid\<close>

definition shadow_band :: "pyfloat \<Rightarrow> string option" where
  "shadow_band spread_bps = map_option fst (find (\<lambda>(_, upper). fle spread_bps upper) SHADOW_BANDS)"

definition tier_weight :: "pyfloat \<Rightarrow> pyfloat" where
  "tier_weight spread_bps = (case find (\<lambda>(bound, _). fle spread_bps (fadd bound BOUND_BPS)) SIZE_TIERS of
     Some (_, weight) \<Rightarrow> weight | None \<Rightarrow> snd (last SIZE_TIERS))"

definition size_weight :: "string \<Rightarrow> pyfloat \<Rightarrow> pyfloat option" where
  "size_weight rule spread_bps =
     (if rule \<notin> {''equal'', ''taper'', ''inverse'', ''tiers''} then None
      else if rule = ''taper'' then
        Some (py_max (flit 4 10) (py_min (Fin 1) (fsub (Fin 1) (fmul (flit 15 100) (fsub spread_bps (Fin 1))))))
      else if rule = ''inverse'' then
        Some (if flt (Fin 0) spread_bps then py_min (Fin 1) (fdiv (Fin 2) spread_bps) else Fin 1)
      else if rule = ''tiers'' then Some (tier_weight spread_bps)
      else Some (Fin 1))"

section \<open>The lock and the stop\<close>

record ladder =
  ld_low :: pyfloat
  ld_step :: pyfloat
  ld_wide_from :: pyfloat
  ld_wide_step :: pyfloat

definition LADDER_IN_FORCE :: ladder where
  "LADDER_IN_FORCE = \<lparr>ld_low = LOCK_MIN, ld_step = LOCK_STEP, ld_wide_from = LOCK_WIDE_FROM, ld_wide_step = LOCK_WIDE_STEP\<rparr>"

definition LOCK_LADDERS :: "string \<Rightarrow> ladder option" where
  "LOCK_LADDERS =
     [''TIT-2S5-F20'' \<mapsto> \<lparr>ld_low = flit 10 100, ld_step = flit 10 100, ld_wide_from = flit 20 100, ld_wide_step = flit 15 100\<rparr>,
      ''TIT-2S5-F20-L5'' \<mapsto> \<lparr>ld_low = flit 10 100, ld_step = flit 5 100, ld_wide_from = flit 20 100, ld_wide_step = flit 5 100\<rparr>,
      ''TIT-2S5-F20-L5-S1'' \<mapsto> \<lparr>ld_low = flit 10 100, ld_step = flit 5 100, ld_wide_from = flit 20 100, ld_wide_step = flit 5 100\<rparr>,
      CONFIG \<mapsto> LADDER_IN_FORCE]"

definition STOPS :: "string \<Rightarrow> pyfloat option" where
  "STOPS = [''TIT-2S5-F20'' \<mapsto> flit 20 100, ''TIT-2S5-F20-L5'' \<mapsto> flit 20 100, ''TIT-2S5-F20-L5-S1'' \<mapsto> Fin 1, CONFIG \<mapsto> STOP_PERCENT]"

definition label_or_current :: "string \<Rightarrow> string" where
  "label_or_current config = (if config = [] then CONFIG else config)"

definition stop_of :: "string \<Rightarrow> pyfloat" where
  "stop_of config = (case STOPS (label_or_current config) of None \<Rightarrow> STOP_PERCENT | Some s \<Rightarrow> s)"

definition ladder_of :: "string \<Rightarrow> ladder" where
  "ladder_of config = (case LOCK_LADDERS (label_or_current config) of None \<Rightarrow> LADDER_IN_FORCE | Some l \<Rightarrow> l)"

definition py_floor :: "pyfloat \<Rightarrow> int option" where
  "py_floor x = (case x of Fin r \<Rightarrow> Some \<lfloor>r\<rfloor> | _ \<Rightarrow> None)"

definition step_level :: "pyfloat \<Rightarrow> pyfloat \<Rightarrow> pyfloat \<Rightarrow> pyfloat option" where
  "step_level base step reached =
     map_option (\<lambda>k. fadd base (fmul step (fint k))) (py_floor (fdiv (fsub reached base) step))"

definition lock_floor :: "pyfloat \<Rightarrow> string \<Rightarrow> pyfloat option" where
  "lock_floor peak config =
     (let l = ladder_of config; reached = fadd peak (flit 1 1000000000) in
      if flt reached (ld_wide_from l) then step_level (ld_low l) (ld_step l) reached
      else step_level (ld_wide_from l) (ld_wide_step l) reached)"

section \<open>Positions\<close>

record live_position =
  lp_symbol :: string
  lp_market :: string
  lp_shares :: pyfloat
  lp_entry :: pyfloat
  lp_cost :: pyfloat
  lp_opened :: int
  lp_peak :: "pyfloat option"
  lp_armed :: bool
  lp_days :: int
  lp_mark :: "pyfloat option"

definition net_percent :: "live_position \<Rightarrow> pyfloat \<Rightarrow> pyfloat option" where
  "net_percent p bid =
     map_option (\<lambda>r. fmul (fsub r (Fin 1)) (Fin 100))
       (py_div (fmul (fmul (lp_shares p) bid) (fsub (Fin 1) FEE_SIDE)) (lp_cost p))"

text \<open>\<open>peak_percent or lock_min_percent\<close>: a peak of zero reads as none.\<close>

definition peak_or_min :: "live_position \<Rightarrow> pyfloat" where
  "peak_or_min p = (case lp_peak p of None \<Rightarrow> LOCK_MIN | Some x \<Rightarrow> if x = Fin 0 then LOCK_MIN else x)"

definition sale_level :: "live_position \<Rightarrow> string \<Rightarrow> pyfloat option" where
  "sale_level p config = (if lp_armed p then lock_floor (peak_or_min p) config else Some (fneg (stop_of config)))"

definition exit_price :: "live_position \<Rightarrow> string \<Rightarrow> pyfloat option" where
  "exit_price p config = do {
     level \<leftarrow> sale_level p config;
     py_div (fmul (lp_cost p) (fadd (Fin 1) (fdiv level (Fin 100)))) (fmul (lp_shares p) (fsub (Fin 1) FEE_SIDE)) }"

section \<open>Quotes\<close>

definition ordered_quote :: "pyfloat \<Rightarrow> pyfloat \<Rightarrow> bool" where
  "ordered_quote bid ask \<longleftrightarrow> finite_float bid \<and> finite_float ask \<and> flt (Fin 0) bid \<and> fle bid ask"

definition mid :: "pyfloat \<Rightarrow> pyfloat \<Rightarrow> pyfloat" where
  "mid bid ask = fdiv (fadd bid ask) (Fin 2)"

definition spread_of :: "pyfloat \<Rightarrow> pyfloat \<Rightarrow> pyfloat" where
  "spread_of bid ask = fmul (fdiv (fsub ask bid) (mid ask bid)) (flit 10000 1)"

definition plausible :: "quote \<Rightarrow> pyfloat \<Rightarrow> bool" where
  "plausible q close_price = (case q of (bid, ask, _) \<Rightarrow>
     ordered_quote bid ask \<and> finite_float close_price \<and> fle ask MAX_PRICE \<and> flt (Fin 0) close_price \<and>
     fle (fabs (fsub (fdiv (mid bid ask) close_price) (Fin 1))) NBBO_MAX_DEVIATION)"

definition exit_bid :: "quote option \<Rightarrow> int \<Rightarrow> pyfloat option" where
  "exit_bid q moment = (case q of None \<Rightarrow> None
     | Some (bid, ask, quoted_at) \<Rightarrow>
        if ordered_quote bid ask \<and> fle ask MAX_PRICE
           \<and> - FUTURE_TOLERANCE \<le> moment - quoted_at \<and> moment - quoted_at \<le> NBBO_EXIT_MAX_AGE
        then Some bid else None)"

datatype exit_reason = HardStop | Lock | T30Positive | T30Flat

definition trade_confirms :: "live_position \<Rightarrow> market_view \<Rightarrow> int \<Rightarrow> exit_reason \<Rightarrow> string \<Rightarrow> bool option" where
  "trade_confirms p market moment reason config =
     (case (mv_price market, mv_trade_at market) of
        (Some price, Some traded_at) \<Rightarrow>
          if - FUTURE_TOLERANCE \<le> moment - traded_at \<and> moment - traded_at \<le> QUOTE_MAX_AGE then do {
            net \<leftarrow> net_percent p price;
            case reason of
              HardStop \<Rightarrow> Some (fle net (fneg (stop_of config)))
            | Lock \<Rightarrow> map_option (\<lambda>l. fle net l)
                (lock_floor (case lp_peak p of None \<Rightarrow> LOCK_MIN | Some x \<Rightarrow> x) config)
            | T30Flat \<Rightarrow> Some True
            | T30Positive \<Rightarrow> Some (flt (Fin 0) net) }
          else Some False
      | _ \<Rightarrow> Some False)"

section \<open>The lock only tightens\<close>

lemma step_level_fin:
  assumes "0 < s" and "step_level (Fin b) (Fin s) x = Some (Fin l)"
  obtains r d q kf t where "x = Fin r" "fl (r - b) = Fin d" "fl (d / s) = Fin q" "fl (of_int \<lfloor>q\<rfloor>) = Fin kf"
    "fl (s * kf) = Fin t" "fl (b + t) = Fin l"
proof -
  obtain k where k: "py_floor (fdiv (fsub x (Fin b)) (Fin s)) = Some k"
    and l: "fadd (Fin b) (fmul (Fin s) (fint k)) = Fin l" using assms(2) by (auto simp: step_level_def)
  obtain q where q: "fdiv (fsub x (Fin b)) (Fin s) = Fin q" "k = \<lfloor>q\<rfloor>" using k by (auto simp: py_floor_def split: pyfloat.splits)
  obtain d where d: "fsub x (Fin b) = Fin d" using q(1) assms(1) by (cases "fsub x (Fin b)") (auto split: if_splits)
  obtain r where r: "x = Fin r" using d by (cases x) (auto simp: fsub_def)
  obtain kf where kf: "fint k = Fin kf" using l assms(1) by (cases "fint k") (auto simp: inf_of_sign_def)
  obtain t where t: "fmul (Fin s) (Fin kf) = Fin t" using l kf by (cases "fmul (Fin s) (Fin kf)") auto
  show ?thesis
    by (rule that [OF r, of d q kf t]) (use r d q kf t l in \<open>auto simp: fsub_def fint_def\<close>)
qed

lemma step_level_mono:
  assumes s: "0 < s" and l: "step_level (Fin b) (Fin s) (Fin r) = Some (Fin l)"
    and l': "step_level (Fin b) (Fin s) (Fin r') = Some (Fin l')" and le: "r \<le> r'"
  shows "l \<le> l'"
proof -
  obtain d q kf t where 1: "fl (r - b) = Fin d" "fl (d / s) = Fin q" "fl (of_int \<lfloor>q\<rfloor>) = Fin kf" "fl (s * kf) = Fin t" "fl (b + t) = Fin l"
    using step_level_fin [OF s l] by (metis pyfloat.inject)
  obtain d' q' kf' t' where 2: "fl (r' - b) = Fin d'" "fl (d' / s) = Fin q'" "fl (of_int \<lfloor>q'\<rfloor>) = Fin kf'" "fl (s * kf') = Fin t'" "fl (b + t') = Fin l'"
    using step_level_fin [OF s l'] by (metis pyfloat.inject)
  have "d \<le> d'" using fl_mono [OF _ 1(1) 2(1)] le by simp
  then have "q \<le> q'" using fl_mono [OF _ 1(2) 2(2)] s by (simp add: divide_right_mono)
  then have "kf \<le> kf'" using fl_mono [OF _ 1(3) 2(3)] by (simp add: floor_mono)
  then have "t \<le> t'" using fl_mono [OF _ 1(4) 2(4)] s by (simp add: mult_left_mono)
  then show ?thesis using fl_mono [OF _ 1(5) 2(5)] by simp
qed

text \<open>What the ladders in use have in common: the first band ends where the second starts.\<close>

definition ladder_sound :: "ladder \<Rightarrow> bool" where
  "ladder_sound ld = (case (ld_low ld, ld_step ld, ld_wide_from ld, ld_wide_step ld) of
     (Fin a, Fin s, Fin w, Fin v) \<Rightarrow> 0 < s \<and> 0 < v \<and> a \<le> w \<and> 0 < a \<and> LOCK_MIN = Fin a
       \<and> (case step_level (Fin a) (Fin s) (Fin w) of Some (Fin x) \<Rightarrow> x \<le> w | _ \<Rightarrow> False)
       \<and> step_level (Fin w) (Fin v) (Fin w) = Some (Fin w) \<and> step_level (Fin a) (Fin s) (Fin a) = Some (Fin a)
   | _ \<Rightarrow> False)"

lemma ladder_cases: "ladder_of config =
     \<lparr>ld_low = flit 10 100, ld_step = flit 10 100, ld_wide_from = flit 20 100, ld_wide_step = flit 15 100\<rparr>
   \<or> ladder_of config = \<lparr>ld_low = flit 10 100, ld_step = flit 5 100, ld_wide_from = flit 20 100, ld_wide_step = flit 5 100\<rparr>"
  by (auto simp: ladder_of_def LOCK_LADDERS_def LADDER_IN_FORCE_def LOCK_MIN_def LOCK_STEP_def LOCK_WIDE_FROM_def
      LOCK_WIDE_STEP_def split: option.splits if_splits)

lemma ladders_sound: "ladder_sound (ladder_of config)"
proof -
  have "ladder_sound \<lparr>ld_low = flit 10 100, ld_step = flit 10 100, ld_wide_from = flit 20 100, ld_wide_step = flit 15 100\<rparr>"
    by code_simp
  moreover have "ladder_sound \<lparr>ld_low = flit 10 100, ld_step = flit 5 100, ld_wide_from = flit 20 100, ld_wide_step = flit 5 100\<rparr>"
    by code_simp
  ultimately show ?thesis using ladder_cases [of config] by auto
qed

lemma ladder_fin:
  obtains a s w v x where "ld_low (ladder_of config) = Fin a" "ld_step (ladder_of config) = Fin s"
    "ld_wide_from (ladder_of config) = Fin w" "ld_wide_step (ladder_of config) = Fin v"
    "0 < s" "0 < v" "a \<le> w" "0 < a" "LOCK_MIN = Fin a" "step_level (Fin a) (Fin s) (Fin w) = Some (Fin x)" "x \<le> w"
    "step_level (Fin w) (Fin v) (Fin w) = Some (Fin w)" "step_level (Fin a) (Fin s) (Fin a) = Some (Fin a)"
  using ladders_sound [of config] by (auto simp: ladder_sound_def split: pyfloat.splits option.splits)

lemma tolerance_nonneg: "\<exists>e. flit 1 1000000000 = Fin e \<and> 0 \<le> e"
proof -
  have "(case flit 1 1000000000 of Fin e \<Rightarrow> 0 \<le> e | _ \<Rightarrow> False)" by code_simp
  then show ?thesis by (auto split: pyfloat.splits)
qed

text \<open>Where the lock has a finite level, the peak with its tolerance is finite; which band it is in.\<close>

lemma lock_floor_fin:
  assumes "lock_floor (Fin p) config = Some (Fin l)" and "flit 1 1000000000 = Fin e"
    and "ld_low (ladder_of config) = Fin a" "ld_step (ladder_of config) = Fin s"
    "ld_wide_from (ladder_of config) = Fin w" "ld_wide_step (ladder_of config) = Fin v" "0 < s" "0 < v"
  obtains r where "fl (p + e) = Fin r" "r < w" "step_level (Fin a) (Fin s) (Fin r) = Some (Fin l)"
  | r where "fl (p + e) = Fin r" "w \<le> r" "step_level (Fin w) (Fin v) (Fin r) = Some (Fin l)"
proof (cases "flt (fl (p + e)) (Fin w)")
  case True
  then have sl: "step_level (Fin a) (Fin s) (fl (p + e)) = Some (Fin l)" using assms by (simp add: lock_floor_def Let_def)
  then obtain r where "fl (p + e) = Fin r" using step_level_fin [OF assms(7)] by metis
  then show ?thesis using that(1) sl True by simp
next
  case False
  then have sl: "step_level (Fin w) (Fin v) (fl (p + e)) = Some (Fin l)" using assms by (simp add: lock_floor_def Let_def)
  then obtain r where "fl (p + e) = Fin r" using step_level_fin [OF assms(8)] by metis
  then show ?thesis using that(2) sl False by simp
qed

lemma lock_floor_mono:
  assumes l: "lock_floor (Fin p) config = Some (Fin l)" and l': "lock_floor (Fin p') config = Some (Fin l')" and le: "p \<le> p'"
  shows "l \<le> l'"
proof -
  obtain a s w v x where ld: "ld_low (ladder_of config) = Fin a" "ld_step (ladder_of config) = Fin s"
    "ld_wide_from (ladder_of config) = Fin w" "ld_wide_step (ladder_of config) = Fin v" and s: "0 < s" "0 < v"
    and x: "step_level (Fin a) (Fin s) (Fin w) = Some (Fin x)" "x \<le> w"
    and w: "step_level (Fin w) (Fin v) (Fin w) = Some (Fin w)" by (rule ladder_fin)
  obtain e where e: "flit 1 1000000000 = Fin e" using tolerance_nonneg by blast
  have mono: "r \<le> r'" if "fl (p + e) = Fin r" "fl (p' + e) = Fin r'" for r r'
    using fl_mono [OF _ that] le by simp
  show ?thesis
  proof (rule lock_floor_fin [OF l e ld s])
    fix r
    assume r: "fl (p + e) = Fin r" "r < w" "step_level (Fin a) (Fin s) (Fin r) = Some (Fin l)"
    show "l \<le> l'"
    proof (rule lock_floor_fin [OF l' e ld s])
      fix r'
      assume r': "fl (p' + e) = Fin r'" "step_level (Fin a) (Fin s) (Fin r') = Some (Fin l')"
      then show ?thesis using step_level_mono [OF s(1) r(3) r'(2)] mono r by blast
    next
      fix r'
      assume r': "fl (p' + e) = Fin r'" "w \<le> r'" "step_level (Fin w) (Fin v) (Fin r') = Some (Fin l')"
      have "l \<le> x" using step_level_mono [OF s(1) r(3) x(1)] r(2) by simp
      also have "x \<le> w" by (rule x(2))
      also have "w \<le> l'" by (rule step_level_mono [OF s(2) w r'(3,2)])
      finally show ?thesis .
    qed
  next
    fix r
    assume r: "fl (p + e) = Fin r" "w \<le> r" "step_level (Fin w) (Fin v) (Fin r) = Some (Fin l)"
    show "l \<le> l'"
    proof (rule lock_floor_fin [OF l' e ld s])
      fix r'
      assume "fl (p' + e) = Fin r'" "r' < w"
      then show ?thesis using mono [OF r(1)] r(2) by fastforce
    next
      fix r'
      assume r': "fl (p' + e) = Fin r'" "step_level (Fin w) (Fin v) (Fin r') = Some (Fin l')"
      then show ?thesis using step_level_mono [OF s(2) r(3) r'(2)] mono r by blast
    qed
  qed
qed

lemma lock_floor_least:
  assumes l: "lock_floor (Fin p) config = Some (Fin l)" and p: "LOCK_MIN = Fin a" "a \<le> p"
  shows "a \<le> l"
proof -
  obtain a' s w v x where ld: "ld_low (ladder_of config) = Fin a'" "ld_step (ladder_of config) = Fin s"
    "ld_wide_from (ladder_of config) = Fin w" "ld_wide_step (ladder_of config) = Fin v" and s: "0 < s" "0 < v" and aw: "a' \<le> w"
    and a': "LOCK_MIN = Fin a'" and w: "step_level (Fin w) (Fin v) (Fin w) = Some (Fin w)"
    and at_a: "step_level (Fin a') (Fin s) (Fin a') = Some (Fin a')" by (rule ladder_fin)
  obtain e where e: "flit 1 1000000000 = Fin e" "0 \<le> e" using tolerance_nonneg by blast
  have aa: "a' = a" using trans [OF a' [symmetric] p(1)] by simp
  have fla: "fl a = Fin a" using p(1) unfolding LOCK_MIN_def flit_def by (rule fl_idem)
  have mono: "a \<le> r" if "fl (p + e) = Fin r" for r using fl_mono [OF _ fla that] p(2) e(2) by simp
  show ?thesis
  proof (rule lock_floor_fin [OF l e(1) ld s])
    fix r
    assume "fl (p + e) = Fin r" "step_level (Fin a') (Fin s) (Fin r) = Some (Fin l)"
    then show ?thesis using step_level_mono [OF s(1) at_a] mono aa by blast
  next
    fix r
    assume "w \<le> r" "step_level (Fin w) (Fin v) (Fin r) = Some (Fin l)"
    then have "w \<le> l" using step_level_mono [OF s(2) w] by blast
    then show ?thesis using aw aa by simp
  qed
qed

end
