(* ===== verification/LiveEngine.thy ===== *)
theory LiveEngine
  imports LiveRules "HOL-Library.AList"
begin

text \<open>
  The live engine (\<open>r2d2_live_engine.py\<close>: \<open>EngineState\<close>, \<open>Engine\<close>): one session of the rule over an
  explicit state.  What the code reads while it runs comes in as arguments: the market view, the
  pushed quote and the effective instant of each check (\<open>reading\<close>), Massive's answers, the buy
  signal.  The passes on pushed quotes that run while a step waits (\<open>between\<close>) are a list of
  readings, run where the code waits.  Instants are microseconds since the epoch; \<open>ses_local\<close> is
  the New York time of day of an instant and \<open>ses_close\<close> the instant of the session's close.
  A step or a pass ends in the engine it leaves, the fills it returns and whether an exception left
  it; the state a raise leaves behind is kept, as the code's is.
\<close>

section \<open>State\<close>

record session =
  ses_day :: string
  ses_local :: "int \<Rightarrow> int"
  ses_close :: int

record member =
  mb_symbol :: string
  mb_market :: string
  mb_prev_close :: pyfloat
  mb_adv :: pyfloat

datatype fill_reason = Bought pyfloat pyfloat bool | SoldFor exit_reason int

record fill =
  fl_buy :: bool
  fl_symbol :: string
  fl_market :: string
  fl_quantity :: pyfloat
  fl_price :: pyfloat
  fl_at :: int
  fl_fees :: pyfloat
  fl_pnl :: "pyfloat option"
  fl_return :: "pyfloat option"
  fl_reason :: fill_reason

record shadow =
  sh_band :: string
  sh_ask :: pyfloat
  sh_spread :: pyfloat
  sh_size :: pyfloat
  sh_peak :: "pyfloat option"
  sh_armed :: bool
  sh_net :: "pyfloat option"
  sh_opened :: int

record band =
  bd_vetoed :: int
  bd_closed :: int
  bd_wins :: int
  bd_net :: pyfloat

record engine_state =
  es_nav :: pyfloat
  es_positions :: "(string \<times> live_position) list"
  es_last_session :: string
  es_session :: string
  es_nav_start :: "pyfloat option"
  es_candidates :: "(string \<times> pyfloat) list"
  es_below :: "string \<Rightarrow> bool"
  es_signals :: int
  es_fills :: "fill list"
  es_last_minute :: int
  es_fixed :: bool
  es_context :: "(string \<times> tape) list"
  es_floor :: "int option"
  es_config :: string
  es_shadow :: "(string \<times> shadow) list"
  es_bands :: "(string \<times> band) list"
  es_bands_closed :: "(string \<times> (string \<times> band) list) option"

record engine =
  en_state :: engine_state
  en_day :: string
  en_members :: "(string \<times> member) list"
  en_resumed :: bool
  en_skips :: "string \<Rightarrow> nat"
  en_sources :: "string \<Rightarrow> nat"
  en_exit_sources :: "string \<Rightarrow> nat"
  en_marked :: "string \<Rightarrow> int option"
  en_last_entry :: int

definition bump :: "string \<Rightarrow> (string \<Rightarrow> nat) \<Rightarrow> string \<Rightarrow> nat" where
  "bump k c = c(k := Suc (c k))"

abbreviation on_state :: "(engine_state \<Rightarrow> engine_state) \<Rightarrow> engine \<Rightarrow> engine" where
  "on_state f \<equiv> en_state_update f"

abbreviation positions_of :: "engine \<Rightarrow> (string \<times> live_position) list" where
  "positions_of g \<equiv> es_positions (en_state g)"

definition without :: "string \<Rightarrow> (string \<times> 'a) list \<Rightarrow> (string \<times> 'a) list" where
  "without k m = filter (\<lambda>e. fst e \<noteq> k) m"

section \<open>Opening a session\<close>

text \<open>\<open>Engine.__init__\<close>.\<close>

definition carried_result :: "live_position \<Rightarrow> pyfloat option" where
  "carried_result p = (case lp_mark p of
     None \<Rightarrow> Some (fmul (lp_cost p) (Fin 0))
   | Some mark \<Rightarrow> if mark = Fin 0 then Some (fmul (lp_cost p) (Fin 0))
       else map_option (\<lambda>net. fmul (lp_cost p) (fdiv net (Fin 100))) (net_percent p mark))"

definition opening_nav :: "engine_state \<Rightarrow> pyfloat option" where
  "opening_nav s = map_option (\<lambda>xs. fadd (es_nav s) (py_sum xs)) (those (map (carried_result \<circ> snd) (es_positions s)))"

definition new_session :: "string \<Rightarrow> engine_state \<Rightarrow> engine_state option" where
  "new_session day s = map_option (\<lambda>nav. s\<lparr>es_session := day, es_candidates := [], es_below := \<lambda>_. False, es_signals := 0,
     es_fills := [], es_last_minute := - 1, es_fixed := False, es_context := [], es_floor := None, es_config := CONFIG,
     es_shadow := [], es_bands := [], es_nav_start := Some nav\<rparr>) (opening_nav s)"

definition add_member :: "string \<times> live_position \<Rightarrow> (string \<times> member) list \<Rightarrow> (string \<times> member) list" where
  "add_member sp m = (case sp of (symbol, p) \<Rightarrow>
     if map_of m symbol = None
     then m @ [(symbol, \<lparr>mb_symbol = symbol, mb_market = lp_market p, mb_prev_close = Fin 0, mb_adv = Fin 0\<rparr>)] else m)"

definition open_engine :: "engine_state \<Rightarrow> string \<Rightarrow> member list \<Rightarrow> engine option" where
  "open_engine s day universe =
     (let resumed = (es_session s = day) in
      map_option (\<lambda>s. \<lparr>en_state = s, en_day = day,
          en_members = fold add_member (es_positions s) (fold (\<lambda>m ms. AList.update (mb_symbol m) m ms) universe []),
          en_resumed = resumed, en_skips = \<lambda>_. 0, en_sources = \<lambda>_. 0, en_exit_sources = \<lambda>_. 0, en_marked = Map.empty,
          en_last_entry = (case LAST_ENTRY_BY_CONFIG (es_config s) of None \<Rightarrow> LAST_ENTRY | Some l \<Rightarrow> l)\<rparr>)
        (if resumed then Some s else new_session day s))"

text \<open>\<open>set_candidates\<close>, \<open>lost_opening\<close>, \<open>adopt_opening\<close>.\<close>

definition gap_of :: "(string \<Rightarrow> pyfloat option) \<Rightarrow> string \<times> member \<Rightarrow> (string \<times> pyfloat) option" where
  "gap_of opening sm = (case sm of (symbol, m) \<Rightarrow>
     case opening symbol of None \<Rightarrow> None
     | Some price \<Rightarrow> if price = Fin 0 \<or> \<not> flt (Fin 0) (mb_prev_close m) then None
         else let gap = fmul (fsub (fdiv price (mb_prev_close m)) (Fin 1)) (Fin 100)
           in if fle gap (fneg GAP_MIN_PERCENT) then Some (symbol, gap) else None)"

definition set_candidates :: "(string \<Rightarrow> pyfloat option) \<Rightarrow> engine \<Rightarrow> engine" where
  "set_candidates opening g =
     (if es_fixed (en_state g) then g
      else on_state (\<lambda>s. s\<lparr>es_fixed := True,
        es_candidates := fold (\<lambda>(k, v) m. AList.update k v m) (List.map_filter (gap_of opening) (en_members g)) (es_candidates s)\<rparr>) g)"

definition lost_opening :: "engine \<Rightarrow> bool" where
  "lost_opening g \<longleftrightarrow> en_resumed g \<and> es_fixed (en_state g)
     \<and> es_candidates (en_state g) = [] \<and> positions_of g = [] \<and> es_fills (en_state g) = []"

definition adopt_opening :: "int \<Rightarrow> (string \<Rightarrow> tape option) \<Rightarrow> engine \<Rightarrow> engine" where
  "adopt_opening window_end tapes g =
     (let g = on_state (\<lambda>s. s\<lparr>es_fixed := False\<rparr>) g;
          g = set_candidates (\<lambda>symbol. case tapes symbol of None \<Rightarrow> None
            | Some t \<Rightarrow> (case tp_opening_at t of None \<Rightarrow> None
                | Some a \<Rightarrow> if a < window_end then tp_opening t else None)) g
      in on_state (\<lambda>s. s\<lparr>es_context := List.map_filter (\<lambda>(k, _). map_option (Pair k) (tapes k)) (es_candidates s)\<rparr>) g)"

section \<open>Selling\<close>

definition after_close :: "session \<Rightarrow> int \<Rightarrow> bool" where
  "after_close ses moment \<longleftrightarrow> ses_close ses \<le> moment"

definition sell :: "live_position \<Rightarrow> pyfloat \<Rightarrow> pyfloat \<Rightarrow> exit_reason \<Rightarrow> int \<Rightarrow> engine \<Rightarrow> engine \<times> fill" where
  "sell p bid net reason now g =
     (let pnl = fdiv (fmul (lp_cost p) net) (Fin 100);
          f = \<lparr>fl_buy = False, fl_symbol = lp_symbol p, fl_market = lp_market p, fl_quantity = lp_shares p, fl_price = bid,
               fl_at = now, fl_fees = fmul (fmul (lp_shares p) bid) FEE_SIDE, fl_pnl = Some pnl, fl_return = Some net,
               fl_reason = SoldFor reason (lp_days p)\<rparr>
      in (on_state (\<lambda>s. s\<lparr>es_nav := fadd (es_nav s) pnl, es_positions := without (lp_symbol p) (es_positions s),
            es_below := (es_below s)(lp_symbol p := False), es_fills := es_fills s @ [f]\<rparr>)
            (g\<lparr>en_marked := (en_marked g)(lp_symbol p := None)\<rparr>), f))"

text \<open>The mark an exit check leaves on the position, and the rule's reason to sell at that mark.\<close>

definition marked_position :: "live_position \<Rightarrow> pyfloat \<Rightarrow> pyfloat \<Rightarrow> live_position" where
  "marked_position p bid net =
     p\<lparr>lp_mark := Some bid,
       lp_peak := Some (case lp_peak p of None \<Rightarrow> net | Some x \<Rightarrow> py_max x net),
       lp_armed := (lp_armed p \<or> fle LOCK_MIN net)\<rparr>"

definition exit_reason_of :: "session \<Rightarrow> string \<Rightarrow> live_position \<Rightarrow> pyfloat \<Rightarrow> int \<Rightarrow> exit_reason option option" where
  "exit_reason_of ses config p net moment =
     (if fle net (fneg (stop_of config)) then Some (Some HardStop)
      else do {
        locked \<leftarrow> (if lp_armed p then Option.bind (lp_peak p) (\<lambda>x. map_option (\<lambda>l. fle net l) (lock_floor x config)) else Some False);
        if locked then Some (Some Lock)
        else if SELL_POSITIVES_FROM \<le> ses_local ses moment \<and> flt (Fin 0) net then Some (Some T30Positive)
        else if SELL_POSITIVES_FROM \<le> ses_local ses moment \<and> CLOSE_FLAT then Some (Some T30Flat)
        else Some None })"

text \<open>A sale on the feed's bid needs the last trade's confirmation; \<open>Some None\<close> is a refused sale.\<close>

definition confirmed_reason ::
    "session \<Rightarrow> string \<Rightarrow> live_position \<Rightarrow> market_view \<Rightarrow> int \<Rightarrow> string \<Rightarrow> exit_reason \<Rightarrow> exit_reason option option" where
  "confirmed_reason ses config p market moment source reason =
     (if source \<noteq> ''stream'' then Some (Some reason)
      else do {
        ok \<leftarrow> trade_confirms p market moment reason config;
        if ok then Some (Some reason)
        else if SELL_POSITIVES_FROM \<le> ses_local ses moment \<and> CLOSE_FLAT then do {
          flat \<leftarrow> trade_confirms p market moment T30Flat config;
          Some (if flat then Some T30Flat else None) }
        else Some None })"

type_synonym outcome = "engine \<times> fill list \<times> bool"

definition exit_check :: "session \<Rightarrow> live_position \<Rightarrow> market_view \<Rightarrow> int \<Rightarrow> pyfloat \<Rightarrow> string \<Rightarrow> engine \<Rightarrow> outcome" where
  "exit_check ses p market moment bid source g =
     (let g = g\<lparr>en_exit_sources := bump source (en_exit_sources g)\<rparr>;
          config = es_config (en_state g) in
      case net_percent p bid of
        None \<Rightarrow> (g, [], True)
      | Some net \<Rightarrow>
        let p = marked_position p bid net;
            g = on_state (\<lambda>s. s\<lparr>es_positions := AList.update (lp_symbol p) p (es_positions s)\<rparr>)
                  (g\<lparr>en_marked := (en_marked g)(lp_symbol p \<mapsto> moment)\<rparr>) in
        case exit_reason_of ses config p net moment of
          None \<Rightarrow> (g, [], True)
        | Some None \<Rightarrow> (g, [], False)
        | Some (Some reason) \<Rightarrow>
          (case confirmed_reason ses config p market moment source reason of
             None \<Rightarrow> (g, [], True)
           | Some None \<Rightarrow> (g\<lparr>en_exit_sources := bump ''unconfirmed'' (en_exit_sources g)\<rparr>, [], False)
           | Some (Some reason) \<Rightarrow> (case sell p bid net reason moment g of (g, f) \<Rightarrow> (g, [f], False))))"

text \<open>One check, then the rest of the loop unless it raised.\<close>

definition and_then :: "outcome \<Rightarrow> (engine \<Rightarrow> outcome) \<Rightarrow> outcome" where
  "and_then out rest = (case out of (g, fs, raised) \<Rightarrow>
     if raised then (g, fs, True) else case rest g of (g, fs', r) \<Rightarrow> (g, fs @ fs', r))"

lemma and_then_cong [fundef_cong]:
  "out = out' \<Longrightarrow> (\<And>g fs. out' = (g, fs, False) \<Longrightarrow> f g = f' g) \<Longrightarrow> and_then out f = and_then out' f'"
  by (auto simp: and_then_def split: prod.split)

section \<open>The passes on pushed quotes\<close>

record reading =
  rd_market :: market_view
  rd_quote :: "quote option"
  rd_moment :: int

text \<open>\<open>fast_exits\<close>: every held name with a usable pushed quote; a read that crossed the close ends the pass.\<close>

fun fast_loop :: "session \<Rightarrow> (string \<Rightarrow> reading) \<Rightarrow> string list \<Rightarrow> engine \<Rightarrow> outcome" where
  "fast_loop ses read [] g = (g, [], False)"
| "fast_loop ses read (symbol # rest) g =
     (case map_of (positions_of g) symbol of None \<Rightarrow> (g, [], True)
      | Some p \<Rightarrow>
        let r = read symbol in
        if after_close ses (rd_moment r) then (g, [], False)
        else case exit_bid (rd_quote r) (rd_moment r) of
          None \<Rightarrow> fast_loop ses read rest g
        | Some bid \<Rightarrow> and_then (exit_check ses p (rd_market r) (rd_moment r) bid ''fast'' g) (fast_loop ses read rest))"

definition fast_exits :: "session \<Rightarrow> (string \<Rightarrow> reading) \<Rightarrow> engine \<Rightarrow> outcome" where
  "fast_exits ses read g = fast_loop ses read (map fst (positions_of g)) g"

text \<open>
  The passes that run while a step waits on Massive (\<open>run_session.during_wait\<close>): none without a
  position, none after one that raised in the wait (what it raised ends the session once the step
  is committed).
\<close>

fun wait_passes :: "session \<Rightarrow> (string \<Rightarrow> reading) list \<Rightarrow> engine \<Rightarrow> engine" where
  "wait_passes ses [] g = g"
| "wait_passes ses (read # rest) g =
     (if positions_of g = [] then wait_passes ses rest g
      else case fast_exits ses read g of (g, _, raised) \<Rightarrow> if raised then g else wait_passes ses rest g)"

section \<open>The full check: exits\<close>

text \<open>The first part, on the pushed quotes: it also gives the names left to Massive (none past the close).\<close>

fun pushed_loop ::
    "session \<Rightarrow> (string \<Rightarrow> reading) \<Rightarrow> string list \<Rightarrow> string list \<Rightarrow> engine \<Rightarrow> outcome \<times> string list" where
  "pushed_loop ses read [] pending g = ((g, [], False), pending)"
| "pushed_loop ses read (symbol # rest) pending g =
     (case map_of (positions_of g) symbol of None \<Rightarrow> ((g, [], True), pending)
      | Some p \<Rightarrow>
        let r = read symbol in
        if after_close ses (rd_moment r) then ((g, [], False), [])
        else case exit_bid (rd_quote r) (rd_moment r) of
          None \<Rightarrow> pushed_loop ses read rest (pending @ [symbol]) g
        | Some bid \<Rightarrow>
          (case exit_check ses p (rd_market r) (rd_moment r) bid ''massive''
                  (g\<lparr>en_exit_sources := bump ''pushed'' (en_exit_sources g)\<rparr>) of
             (g, fs, raised) \<Rightarrow>
               if raised then ((g, fs, True), pending)
               else case pushed_loop ses read rest pending g of ((g, fs', r), pending) \<Rightarrow> ((g, fs @ fs', r), pending)))"

text \<open>The second part, on Massive's answers or the feed's fresh quote.\<close>

definition asked_mark :: "quote option \<Rightarrow> market_view \<Rightarrow> int \<Rightarrow> (pyfloat \<times> string) option" where
  "asked_mark answer market moment =
     (case exit_bid answer moment of Some bid \<Rightarrow> Some (bid, ''massive'')
      | None \<Rightarrow> if quote_fresh moment market then map_option (\<lambda>b. (b, ''stream'')) (mv_bid market) else None)"

fun asked_loop ::
    "session \<Rightarrow> (string \<Rightarrow> quote option) \<Rightarrow> (string \<Rightarrow> reading) \<Rightarrow> (string \<Rightarrow> int option) \<Rightarrow> string list \<Rightarrow> engine \<Rightarrow> outcome" where
  "asked_loop ses answers read marked_before [] g = (g, [], False)"
| "asked_loop ses answers read marked_before (symbol # rest) g =
     (case map_of (positions_of g) symbol of None \<Rightarrow> asked_loop ses answers read marked_before rest g
      | Some p \<Rightarrow>
        if en_marked g symbol \<noteq> marked_before symbol then asked_loop ses answers read marked_before rest g
        else
          let r = read symbol in
          if after_close ses (rd_moment r) then (g, [], False)
          else case asked_mark (answers symbol) (rd_market r) (rd_moment r) of
            None \<Rightarrow> asked_loop ses answers read marked_before rest (g\<lparr>en_exit_sources := bump ''none'' (en_exit_sources g)\<rparr>)
          | Some (bid, source) \<Rightarrow>
              and_then (exit_check ses p (rd_market r) (rd_moment r) bid source g) (asked_loop ses answers read marked_before rest))"

section \<open>The shadows\<close>

definition fresh_band :: band where
  "fresh_band = \<lparr>bd_vetoed = 0, bd_closed = 0, bd_wins = 0, bd_net = Fin 0\<rparr>"

definition band_of :: "string \<Rightarrow> (string \<times> band) list \<Rightarrow> band" where
  "band_of k m = (case map_of m k of None \<Rightarrow> fresh_band | Some b \<Rightarrow> b)"

definition position_size :: "pyfloat \<Rightarrow> pyfloat \<Rightarrow> pyfloat option" where
  "position_size nav spread_bps = map_option (fmul (fdiv nav (fint (int SLOTS)))) (size_weight SIZE_RULE spread_bps)"

text \<open>\<open>None\<close>: the opening raised; the caller logs it and goes on.\<close>

definition shadow_open :: "string \<Rightarrow> pyfloat \<Rightarrow> pyfloat \<Rightarrow> int \<Rightarrow> engine_state \<Rightarrow> engine_state option" where
  "shadow_open symbol ask spread_bps moment s = do {
     k \<leftarrow> shadow_band spread_bps;
     let b = band_of k (es_bands s);
     let s = s\<lparr>es_bands := AList.update k (b\<lparr>bd_vetoed := bd_vetoed b + 1\<rparr>) (es_bands s)\<rparr>;
     if map_of (es_shadow s) symbol \<noteq> None \<or> map_of (es_positions s) symbol \<noteq> None then Some s
     else do {
       money \<leftarrow> position_size (es_nav s) spread_bps;
       Some (s\<lparr>es_shadow := AList.update symbol \<lparr>sh_band = k, sh_ask = ask, sh_spread = spread_bps, sh_size = money,
         sh_peak = None, sh_armed = False, sh_net = None, sh_opened = moment\<rparr> (es_shadow s)\<rparr>) } }"

definition shadow_close :: "string \<Rightarrow> shadow \<Rightarrow> pyfloat \<Rightarrow> engine_state \<Rightarrow> engine_state" where
  "shadow_close symbol row net s =
     (let b = band_of (sh_band row) (es_bands s) in
      s\<lparr>es_shadow := without symbol (es_shadow s),
        es_bands := AList.update (sh_band row) (b\<lparr>bd_closed := bd_closed b + 1,
          bd_wins := bd_wins b + (if flt (Fin 0) net then 1 else 0),
          bd_net := fadd (bd_net b) (fdiv (fmul (sh_size row) net) (Fin 100))\<rparr>) (es_bands s)\<rparr>)"

definition shadow_net :: "shadow \<Rightarrow> pyfloat \<Rightarrow> pyfloat option" where
  "shadow_net row price =
     (let bid = fmul price (fsub (Fin 1) (fdiv (fdiv (sh_spread row) (Fin 2)) (flit 10000 1))) in
      map_option (\<lambda>r. fmul (fsub r (Fin 1)) (Fin 100))
        (py_div (fmul bid (fsub (Fin 1) FEE_SIDE)) (fmul (sh_ask row) (fadd (Fin 1) FEE_SIDE))))"

text \<open>One shadow at one reading of the market; \<open>None\<close> is a raise.\<close>

definition shadow_check :: "bool \<Rightarrow> int \<Rightarrow> market_view \<Rightarrow> string \<Rightarrow> shadow \<Rightarrow> engine_state \<Rightarrow> engine_state option" where
  "shadow_check late now market symbol row s =
     (case (mv_price market, mv_trade_at market) of
        (Some price, Some traded_at) \<Rightarrow>
          if SHADOW_TRADE_MAX_AGE < now - traded_at then Some s
          else do {
            net \<leftarrow> shadow_net row price;
            let row = row\<lparr>sh_net := Some net, sh_peak := Some (case sh_peak row of None \<Rightarrow> net | Some x \<Rightarrow> py_max x net),
              sh_armed := (sh_armed row \<or> fle LOCK_MIN net)\<rparr>;
            let s = s\<lparr>es_shadow := AList.update symbol row (es_shadow s)\<rparr>;
            let stopped = fle net (fneg (stop_of (es_config s)));
            locked \<leftarrow> (if \<not> stopped \<and> sh_armed row
              then Option.bind (sh_peak row) (\<lambda>x. map_option (\<lambda>l. fle net l) (lock_floor x (es_config s))) else Some False);
            if stopped \<or> locked \<or> late \<and> (flt (Fin 0) net \<or> CLOSE_FLAT) then Some (shadow_close symbol row net s) else Some s }
      | _ \<Rightarrow> Some s)"

text \<open>A raise in the loop drops every open shadow, once, and the step goes on.\<close>

fun shadow_loop :: "bool \<Rightarrow> int \<Rightarrow> (string \<Rightarrow> market_view) \<Rightarrow> (string \<times> shadow) list \<Rightarrow> engine_state \<Rightarrow> engine_state" where
  "shadow_loop late now read [] s = s"
| "shadow_loop late now read ((symbol, row) # rest) s =
     (case shadow_check late now (read symbol) symbol row s of
        None \<Rightarrow> s\<lparr>es_shadow := []\<rparr>
      | Some s \<Rightarrow> shadow_loop late now read rest s)"

definition shadow_exits :: "session \<Rightarrow> int \<Rightarrow> (string \<Rightarrow> market_view) \<Rightarrow> engine \<Rightarrow> engine" where
  "shadow_exits ses now read g =
     on_state (\<lambda>s. shadow_loop (SELL_POSITIVES_FROM \<le> ses_local ses now) now read (es_shadow s) s) g"

section \<open>The entries\<close>

text \<open>
  The signal of one candidate: the last trade and the VWAP now, from \<open>signal\<close> when the caller gives
  it, else from the view.  A dip below the VWAP is remembered; a price back above it after a dip is
  a cross.
\<close>

definition signal_of ::
    "(string \<Rightarrow> (pyfloat \<times> pyfloat) option) option \<Rightarrow> (string \<Rightarrow> market_view) \<Rightarrow> string \<Rightarrow> (pyfloat \<times> pyfloat) option" where
  "signal_of signal read symbol = (case signal of
     Some f \<Rightarrow> f symbol
   | None \<Rightarrow> (case (mv_price (read symbol), mv_vwap (read symbol)) of (Some p, Some w) \<Rightarrow> Some (p, w) | _ \<Rightarrow> None))"

definition cross_step ::
    "(string \<Rightarrow> (pyfloat \<times> pyfloat) option) \<Rightarrow> string \<times> pyfloat \<Rightarrow> engine \<times> (string \<times> pyfloat \<times> pyfloat) list \<Rightarrow>
     engine \<times> (string \<times> pyfloat \<times> pyfloat) list" where
  "cross_step signal candidate acc = (case candidate of (symbol, gap) \<Rightarrow> case acc of (g, crosses) \<Rightarrow>
     if map_of (en_members g) symbol = None then acc
     else case signal symbol of None \<Rightarrow> acc
     | Some (price, w) \<Rightarrow>
       if flt price w then (on_state (\<lambda>s. s\<lparr>es_below := (es_below s)(symbol := True)\<rparr>) g, crosses)
       else if fle price w \<or> \<not> es_below (en_state g) symbol then acc
       else
         let g = on_state (\<lambda>s. s\<lparr>es_below := (es_below s)(symbol := False), es_signals := es_signals s + 1\<rparr>) g in
         if map_of (positions_of g) symbol \<noteq> None then (g\<lparr>en_skips := bump ''held'' (en_skips g)\<rparr>, crosses)
         else (g, crosses @ [(symbol, gap, price)]))"

definition buy :: "string \<Rightarrow> member \<Rightarrow> pyfloat \<Rightarrow> pyfloat \<Rightarrow> pyfloat \<Rightarrow> int \<Rightarrow> string \<Rightarrow> pyfloat \<Rightarrow> pyfloat \<Rightarrow> engine \<Rightarrow> engine \<times> fill" where
  "buy symbol m ask gap spread_bps now source bid money g =
     (let shares = fdiv money (fmul ask (fadd (Fin 1) FEE_SIDE));
          p = \<lparr>lp_symbol = symbol, lp_market = mb_market m, lp_shares = shares, lp_entry = ask, lp_cost = money, lp_opened = now,
               lp_peak = None, lp_armed = False, lp_days = 0, lp_mark = Some bid\<rparr>;
          f = \<lparr>fl_buy = True, fl_symbol = symbol, fl_market = mb_market m, fl_quantity = shares, fl_price = ask, fl_at = now,
               fl_fees = fmul (fmul shares ask) FEE_SIDE, fl_pnl = None, fl_return = None,
               fl_reason = Bought gap spread_bps (source = ''massive'')\<rparr>
      in (on_state (\<lambda>s. s\<lparr>es_positions := AList.update symbol p (es_positions s), es_fills := es_fills s @ [f]\<rparr>) g, f))"

definition stream_quote :: "market_view \<Rightarrow> quote option" where
  "stream_quote market = (case (mv_bid market, mv_ask market, mv_quote_at market) of
     (Some b, Some a, Some q) \<Rightarrow> Some (b, a, q) | _ \<Rightarrow> None)"

definition entry_quote :: "bool \<Rightarrow> quote option \<Rightarrow> market_view \<Rightarrow> pyfloat \<Rightarrow> engine \<Rightarrow> quote option \<times> string \<times> engine" where
  "entry_quote asks answer market price g =
     (if \<not> asks then (stream_quote market, ''stream'', g)
      else case answer of
        None \<Rightarrow> (stream_quote market, ''stream'', g\<lparr>en_sources := bump ''unanswered'' (en_sources g)\<rparr>)
      | Some q \<Rightarrow> if plausible q price then (Some q, ''massive'', g)
          else (stream_quote market, ''stream'', g\<lparr>en_sources := bump ''mismatch'' (en_sources g)\<rparr>))"

definition usable_entry_quote :: "quote \<Rightarrow> string \<Rightarrow> int \<Rightarrow> bool" where
  "usable_entry_quote q source moment = (case q of (bid, ask, quoted_at) \<Rightarrow>
     ordered_quote bid ask \<and> moment - quoted_at \<le> (if source = ''massive'' then NBBO_MAX_AGE else QUOTE_MAX_AGE))"

definition spread_ok :: "pyfloat \<Rightarrow> bool" where
  "spread_ok spread_bps \<longleftrightarrow> \<not> flt (fadd SPREAD_MAX_BPS BOUND_BPS) spread_bps"

text \<open>How the loop over the crosses goes on after one of them.\<close>

datatype loop_end = GoesOn | Breaks | Raises

definition skip :: "string \<Rightarrow> engine \<Rightarrow> engine" where
  "skip why g = g\<lparr>en_skips := bump why (en_skips g)\<rparr>"

definition refused_spread :: "string \<Rightarrow> pyfloat \<Rightarrow> pyfloat \<Rightarrow> int \<Rightarrow> engine \<Rightarrow> engine" where
  "refused_spread symbol ask spread_bps moment g =
     on_state (\<lambda>s. case shadow_open symbol ask spread_bps moment s of None \<Rightarrow> s | Some s' \<Rightarrow> s') (skip ''spread'' g)"

definition stream_would_refuse :: "string \<Rightarrow> market_view \<Rightarrow> int \<Rightarrow> bool" where
  "stream_would_refuse source market moment \<longleftrightarrow> source = ''massive'' \<and> quote_fresh moment market \<and>
     (case (mv_bid market, mv_ask market) of
        (Some b, Some a) \<Rightarrow> flt (fadd SPREAD_MAX_BPS BOUND_BPS) (spread_of b a) | _ \<Rightarrow> False)"

definition try_entry ::
    "session \<Rightarrow> int \<Rightarrow> bool \<Rightarrow> quote option \<Rightarrow> reading \<Rightarrow> string \<times> pyfloat \<times> pyfloat \<Rightarrow> engine \<Rightarrow> engine \<times> fill list \<times> loop_end" where
  "try_entry ses last_entry asks answer r cross g = (case cross of (symbol, gap, price) \<Rightarrow>
     if SLOTS \<le> length (positions_of g) then (skip ''slots'' g, [], GoesOn)
     else
       let market = rd_market r; moment = rd_moment r in
       case entry_quote asks answer market price g of
         (None, source, g) \<Rightarrow> (skip ''noquote'' g, [], GoesOn)
       | (Some q, source, g) \<Rightarrow>
         if \<not> plausible q price then (skip ''implausible'' g, [], GoesOn)
         else if last_entry < ses_local ses moment then (skip ''late'' g, [], Breaks)
         else
           let g = g\<lparr>en_sources := bump source (en_sources g)\<rparr>; bid = fst q; ask = fst (snd q) in
           if \<not> usable_entry_quote q source moment then (skip ''stale'' g, [], GoesOn)
           else
             let spread_bps = spread_of bid ask in
             if \<not> spread_ok spread_bps then (refused_spread symbol ask spread_bps moment g, [], GoesOn)
             else
               let g = (if stream_would_refuse source market moment
                        then g\<lparr>en_sources := bump ''stream_would_refuse'' (en_sources g)\<rparr> else g) in
               (case (map_of (en_members g) symbol, position_size (es_nav (en_state g)) spread_bps) of
                  (Some m, Some money) \<Rightarrow>
                    (case buy symbol m ask gap spread_bps moment source bid money g of (g, f) \<Rightarrow> (g, [f], GoesOn))
                | _ \<Rightarrow> (g, [], Raises)))"

fun entry_loop ::
    "session \<Rightarrow> int \<Rightarrow> bool \<Rightarrow> (string \<Rightarrow> quote option) \<Rightarrow> (string \<Rightarrow> reading) \<Rightarrow> (string \<times> pyfloat \<times> pyfloat) list \<Rightarrow>
     engine \<Rightarrow> outcome" where
  "entry_loop ses last_entry asks answers read [] g = (g, [], False)"
| "entry_loop ses last_entry asks answers read (cross # rest) g =
     (case try_entry ses last_entry asks (answers (fst cross)) (read (fst cross)) cross g of (g, fs, going) \<Rightarrow>
        case going of Breaks \<Rightarrow> (g, fs, False) | Raises \<Rightarrow> (g, fs, True)
        | GoesOn \<Rightarrow> (case entry_loop ses last_entry asks answers read rest g of (g, fs', raised) \<Rightarrow> (g, fs @ fs', raised)))"

section \<open>\<open>step\<close>\<close>

record step_io =
  io_pushed :: "(string \<Rightarrow> reading) option"
  io_asks :: bool
  io_exit_wait :: "(string \<Rightarrow> reading) list"
  io_exit_answers :: "string \<Rightarrow> quote option"
  io_exit_reads :: "string \<Rightarrow> reading"
  io_shadow_reads :: "string \<Rightarrow> market_view"
  io_signal :: "(string \<Rightarrow> (pyfloat \<times> pyfloat) option) option"
  io_signal_reads :: "string \<Rightarrow> market_view"
  io_entry_wait :: "(string \<Rightarrow> reading) list"
  io_entry_answers :: "string \<Rightarrow> quote option"
  io_entry_reads :: "string \<Rightarrow> reading"

definition last_entry_of :: "engine \<Rightarrow> int" where
  "last_entry_of g = (if CLOSE_FLAT then min (en_last_entry g) FLAT_LAST_ENTRY else en_last_entry g)"

definition step_exits :: "session \<Rightarrow> step_io \<Rightarrow> engine \<Rightarrow> outcome" where
  "step_exits ses io g =
     (let symbols = map fst (positions_of g) in
      case (case io_pushed io of None \<Rightarrow> ((g, [], False), symbols) | Some read \<Rightarrow> pushed_loop ses read symbols [] g) of
        ((g, fs, raised), pending) \<Rightarrow>
          if raised then (g, fs, True)
          else
            let marked_before = en_marked g; asked = io_asks io \<and> pending \<noteq> [];
                g = (if asked then wait_passes ses (io_exit_wait io) g else g) in
            case asked_loop ses (if asked then io_exit_answers io else (\<lambda>_. None)) (io_exit_reads io) marked_before pending g of
              (g, fs', raised) \<Rightarrow> (g, fs @ fs', raised))"

definition step_entries :: "session \<Rightarrow> int \<Rightarrow> step_io \<Rightarrow> engine \<Rightarrow> outcome" where
  "step_entries ses now io g =
     (let local = ses_local ses now; last_entry = last_entry_of g in
      if last_entry < local then (g, [], False)
      else
        let g = on_state (\<lambda>s. s\<lparr>es_last_minute := local div 60000000\<rparr>) g in
        case fold (cross_step (signal_of (io_signal io) (io_signal_reads io))) (es_candidates (en_state g)) (g, []) of
          (g, crosses) \<Rightarrow>
            let asked = io_asks io \<and> crosses \<noteq> [] \<and> length (positions_of g) < SLOTS;
                g = (if asked then wait_passes ses (io_entry_wait io) g else g) in
            entry_loop ses last_entry (io_asks io) (if asked then io_entry_answers io else (\<lambda>_. None)) (io_entry_reads io) crosses g)"

definition step :: "session \<Rightarrow> int \<Rightarrow> step_io \<Rightarrow> engine \<Rightarrow> outcome" where
  "step ses now io g =
     and_then (step_exits ses io g) (\<lambda>g. step_entries ses now io (shadow_exits ses now (io_shadow_reads io) g))"

section \<open>The close, the book and the marks\<close>

fun flat_sales :: "int \<Rightarrow> live_position list \<Rightarrow> engine \<Rightarrow> engine option" where
  "flat_sales close_at [] g = Some g"
| "flat_sales close_at (p # ps) g =
     (case lp_mark p of None \<Rightarrow> flat_sales close_at ps g
      | Some mark \<Rightarrow> Option.bind (net_percent p mark) (\<lambda>net. flat_sales close_at ps (fst (sell p mark net T30Flat close_at g))))"

definition close_shadow :: "string \<times> shadow \<Rightarrow> engine_state \<Rightarrow> engine_state" where
  "close_shadow entry s = (case entry of (symbol, row) \<Rightarrow>
     case sh_net row of None \<Rightarrow> s\<lparr>es_shadow := without symbol (es_shadow s)\<rparr> | Some net \<Rightarrow> shadow_close symbol row net s)"

definition close_session :: "session \<Rightarrow> engine \<Rightarrow> engine option" where
  "close_session ses g =
     Option.bind (if CLOSE_FLAT then flat_sales (ses_close ses) (map snd (positions_of g)) g else Some g) (\<lambda>g.
       Some (on_state (\<lambda>s.
         let s = fold close_shadow (es_shadow s) s in
         s\<lparr>es_bands_closed := Some (en_day g, es_bands s),
           es_positions := map (\<lambda>(k, p). (k, p\<lparr>lp_days := lp_days p + 1\<rparr>)) (es_positions s),
           es_last_session := en_day g, es_session := []\<rparr>) g))"

record book_row =
  br_position :: live_position
  br_last :: pyfloat
  br_result :: pyfloat
  br_return :: pyfloat
  br_stop :: pyfloat

record book =
  bk_nav_start :: pyfloat
  bk_nav :: pyfloat
  bk_realized :: pyfloat
  bk_cash :: pyfloat
  bk_rows :: "book_row list"

definition book_row_of :: "string \<Rightarrow> live_position \<Rightarrow> book_row option" where
  "book_row_of config p = do {
     let mark = (case lp_mark p of None \<Rightarrow> lp_entry p | Some x \<Rightarrow> if x = Fin 0 then lp_entry p else x);
     net \<leftarrow> net_percent p mark;
     stop \<leftarrow> exit_price p config;
     Some \<lparr>br_position = p, br_last = mark, br_result = fdiv (fmul (lp_cost p) net) (Fin 100), br_return = net, br_stop = stop\<rparr> }"

definition nav_start_of :: "engine_state \<Rightarrow> pyfloat" where
  "nav_start_of s = (case es_nav_start s of None \<Rightarrow> es_nav s | Some x \<Rightarrow> x)"

definition book_of :: "engine_state \<Rightarrow> book option" where
  "book_of s = map_option (\<lambda>rows.
     \<lparr>bk_nav_start = nav_start_of s,
      bk_nav = fadd (es_nav s) (foldl fadd (Fin 0) (map br_result rows)), bk_realized = es_nav s,
      bk_cash = fsub (es_nav s) (py_sum (map (lp_cost \<circ> snd) (es_positions s))), bk_rows = rows\<rparr>)
     (those (map (book_row_of (es_config s) \<circ> snd) (es_positions s)))"

end
