(* ===== verification/LiveSafety.thy ===== *)
theory LiveSafety
  imports LiveEngine
begin

text \<open>
  What every step of the live engine keeps.  The contract \<open>engine_contract\<close> lists what a relation
  between the engines before and after must allow (a check of a held name, an entry, bookkeeping);
  inside it the loops and the whole \<open>step\<close> are shown to keep the relation.  It is interpreted for the
  rule of the trades (\<open>by_rule\<close>) and for the shape of the book (\<open>keeps_book\<close>).
\<close>

section \<open>What does not trade\<close>

definition quiet :: "engine \<Rightarrow> engine \<Rightarrow> bool" where
  "quiet g g' \<longleftrightarrow> es_nav (en_state g') = es_nav (en_state g) \<and> positions_of g' = positions_of g
     \<and> es_fills (en_state g') = es_fills (en_state g) \<and> es_candidates (en_state g') = es_candidates (en_state g)
     \<and> es_config (en_state g') = es_config (en_state g) \<and> en_members g' = en_members g \<and> en_last_entry g' = en_last_entry g"

lemma quiet_refl [simp]: "quiet g g"
  by (simp add: quiet_def)

lemma quiet_trans: "quiet g h \<Longrightarrow> quiet h k \<Longrightarrow> quiet g k"
  by (simp add: quiet_def)

lemma quiet_counters [simp]:
  "quiet g (g\<lparr>en_exit_sources := c\<rparr>)" "quiet g (g\<lparr>en_sources := c\<rparr>)" "quiet g (skip why g)"
  by (simp_all add: quiet_def skip_def)

lemma quiet_cross: "quiet g h \<Longrightarrow> quiet g (fst (cross_step sig c (h, cs)))"
  by (auto simp: cross_step_def Let_def quiet_def split: prod.splits option.splits)

text \<open>Every cross is one of the candidates.\<close>

definition named :: "(string \<times> pyfloat \<times> pyfloat) list \<Rightarrow> (string \<times> pyfloat) set" where
  "named crosses = set (map (\<lambda>c. (fst c, fst (snd c))) crosses)"

lemma named_cross: "named (snd (cross_step sig c acc)) \<subseteq> insert c (named (snd acc))"
  by (auto simp: cross_step_def Let_def named_def split: prod.splits option.splits)

lemma quiet_crosses:
  "quiet g (fst acc) \<Longrightarrow> quiet g (fst (fold (cross_step sig) cands acc))
     \<and> named (snd (fold (cross_step sig) cands acc)) \<subseteq> set cands \<union> named (snd acc)"
proof (induction cands arbitrary: acc)
  case (Cons c cands)
  have "quiet g (fst (cross_step sig c acc))" using Cons.prems quiet_cross [of g "fst acc" sig c "snd acc"] by simp
  from Cons.IH [OF this] named_cross [of sig c acc] show ?case by auto
qed simp

definition shadow_quiet :: "engine_state \<Rightarrow> engine_state \<Rightarrow> bool" where
  "shadow_quiet s s' \<longleftrightarrow> es_nav s' = es_nav s \<and> es_positions s' = es_positions s \<and> es_fills s' = es_fills s
     \<and> es_candidates s' = es_candidates s \<and> es_config s' = es_config s"

lemma shadow_quietI [simp]: "shadow_quiet s s" "shadow_quiet s (es_shadow_update f t) = shadow_quiet s t"
  "shadow_quiet s (es_bands_update h t) = shadow_quiet s t"
  by (simp_all add: shadow_quiet_def)

lemma shadow_quiet_trans: "shadow_quiet s t \<Longrightarrow> shadow_quiet t u \<Longrightarrow> shadow_quiet s u"
  by (simp add: shadow_quiet_def)

lemma shadow_close_quiet [simp]: "shadow_quiet s (shadow_close symbol row net t) = shadow_quiet s t"
  by (simp add: shadow_close_def Let_def shadow_quiet_def)

lemma shadow_check_quiet: "shadow_check late now market symbol row s = Some s' \<Longrightarrow> shadow_quiet s s'"
  unfolding shadow_check_def
  by (auto simp: Let_def split: option.splits if_splits elim!: bind_Some)

lemma shadow_loop_quiet: "shadow_quiet s (shadow_loop late now read rows s)"
proof (induction rows arbitrary: s)
  case (Cons r rows)
  obtain symbol row where r: "r = (symbol, row)" by (cases r)
  show ?case
  proof (cases "shadow_check late now (read symbol) symbol row s")
    case None
    then show ?thesis by (simp add: r)
  next
    case (Some t)
    then show ?thesis using shadow_quiet_trans [OF shadow_check_quiet [OF Some] Cons.IH] by (simp add: r)
  qed
qed simp

lemma quiet_on_state: "shadow_quiet (en_state g) (f (en_state g)) \<Longrightarrow> quiet g (on_state f g)"
  by (simp add: shadow_quiet_def quiet_def)

lemma quiet_shadow_exits [simp]: "quiet g (shadow_exits ses now read g)"
  unfolding shadow_exits_def by (rule quiet_on_state) (rule shadow_loop_quiet)

lemma shadow_open_quiet: "shadow_open symbol ask sp m s = Some s' \<Longrightarrow> shadow_quiet s s'"
  unfolding shadow_open_def
  by (auto simp: Let_def shadow_quiet_def split: if_splits elim!: bind_Some)

lemma quiet_refused [simp]: "quiet g (refused_spread symbol ask sp m g)"
  unfolding refused_spread_def
  by (rule quiet_trans [OF quiet_counters(3) quiet_on_state]) (auto split: option.split dest: shadow_open_quiet)

section \<open>The contract\<close>

locale engine_contract =
  fixes ses :: session and rel :: "engine \<Rightarrow> engine \<Rightarrow> bool"
  assumes quiet_ok: "quiet g g' \<Longrightarrow> rel g g'"
    and trans: "rel g h \<Longrightarrow> rel h k \<Longrightarrow> rel g k"
    and rules: "rel g h \<Longrightarrow> es_candidates (en_state h) = es_candidates (en_state g) \<and> en_last_entry h = en_last_entry g"
    and check: "map_of (positions_of g) symbol = Some p \<Longrightarrow> \<not> after_close ses moment \<Longrightarrow>
      rel g (fst (exit_check ses p market moment bid source g))"
    and entry: "(symbol, gap) \<in> set (es_candidates (en_state g)) \<Longrightarrow>
      rel g (fst (try_entry ses (last_entry_of g) asks answer r (symbol, gap, price) g))"
begin

lemma same: "rel g g"
  by (rule quiet_ok) simp

lemma and_then_rel: "rel g (fst out) \<Longrightarrow> (\<And>h. rel g h \<Longrightarrow> rel g (fst (rest h))) \<Longrightarrow> rel g (fst (and_then out rest))"
proof (cases out)
  case (fields h fs raised)
  assume h: "rel g (fst out)" and rest: "\<And>h. rel g h \<Longrightarrow> rel g (fst (rest h))"
  obtain k fs' r where k: "rest h = (k, fs', r)" by (cases "rest h")
  then show ?thesis using h rest [of h] by (simp add: and_then_def fields)
qed

lemma fast_loop: "rel g h \<Longrightarrow> rel g (fst (fast_loop ses read symbols h))"
proof (induction symbols arbitrary: h)
  case (Cons s ss)
  show ?case
  proof (cases "map_of (positions_of h) s")
    case (Some p)
    have "rel g (fst (exit_check ses p (rd_market (read s)) (rd_moment (read s)) bid ''fast'' h))"
      if "\<not> after_close ses (rd_moment (read s))" for bid
      by (rule trans [OF Cons.prems check [OF Some that]])
    then show ?thesis using Cons Some
      by (cases "after_close ses (rd_moment (read s))"; cases "exit_bid (rd_quote (read s)) (rd_moment (read s))")
        (simp_all add: and_then_rel Let_def)
  qed (use Cons.prems in simp)
qed simp

lemma wait_passes: "rel g h \<Longrightarrow> rel g (wait_passes ses reads h)"
proof (induction reads arbitrary: h)
  case (Cons read reads)
  then show ?case using fast_loop [OF Cons.prems, of read "map fst (positions_of h)"]
    by (auto simp: fast_exits_def split: prod.split)
qed simp

lemma pushed_loop: "rel g h \<Longrightarrow> rel g (fst (fst (pushed_loop ses read symbols pending h)))"
proof (induction symbols arbitrary: h pending)
  case (Cons s ss)
  show ?case
  proof (cases "map_of (positions_of h) s")
    case (Some p)
    let ?h = "h\<lparr>en_exit_sources := bump ''pushed'' (en_exit_sources h)\<rparr>"
    have hp: "map_of (positions_of ?h) s = Some p" using Some by simp
    have h: "rel g ?h" by (rule trans [OF Cons.prems quiet_ok]) simp
    have "rel g (fst (exit_check ses p (rd_market (read s)) (rd_moment (read s)) bid ''massive'' ?h))"
      if "\<not> after_close ses (rd_moment (read s))" for bid
      by (rule trans [OF h check [OF hp that]])
    note checked = this
    show ?thesis
    proof (cases "\<not> after_close ses (rd_moment (read s)) \<and> exit_bid (rd_quote (read s)) (rd_moment (read s)) \<noteq> None")
      case True
      then obtain bid where b: "exit_bid (rd_quote (read s)) (rd_moment (read s)) = Some bid" by blast
      obtain k fs raised where k: "exit_check ses p (rd_market (read s)) (rd_moment (read s)) bid ''massive'' ?h = (k, fs, raised)"
        by (cases "exit_check ses p (rd_market (read s)) (rd_moment (read s)) bid ''massive'' ?h")
      have "rel g k" using checked [of bid] True k by simp
      then show ?thesis using Cons.IH [of k pending] Some True b k by (auto split: prod.split; metis fst_conv)
    next
      case False
      then show ?thesis using Cons Some by (cases "after_close ses (rd_moment (read s))") auto
    qed
  qed (use Cons.prems in simp)
qed simp

lemma asked_loop: "rel g h \<Longrightarrow> rel g (fst (asked_loop ses answers read marked symbols h))"
proof (induction symbols arbitrary: h)
  case (Cons s ss)
  show ?case
  proof (cases "map_of (positions_of h) s")
    case (Some p)
    have "rel g (fst (exit_check ses p (rd_market (read s)) (rd_moment (read s)) bid source h))"
      if "\<not> after_close ses (rd_moment (read s))" for bid source
      by (rule trans [OF Cons.prems check [OF Some that]])
    moreover have "rel g (h\<lparr>en_exit_sources := bump ''none'' (en_exit_sources h)\<rparr>)"
      by (rule trans [OF Cons.prems quiet_ok]) simp
    ultimately show ?thesis using Cons Some
      by (cases "after_close ses (rd_moment (read s))"; cases "asked_mark (answers s) (rd_market (read s)) (rd_moment (read s))")
        (auto simp: and_then_rel Let_def)
  qed (use Cons in simp)
qed simp

lemma exits: "rel g (fst (step_exits ses io g))"
proof -
  define part where "part = (case io_pushed io of None \<Rightarrow> ((g, [], False), map fst (positions_of g))
      | Some read \<Rightarrow> pushed_loop ses read (map fst (positions_of g)) [] g)"
  obtain h fs raised pending where p: "part = ((h, fs, raised), pending)" by (metis prod_cases3 surj_pair)
  have h: "rel g h"
    using p pushed_loop [OF same, of g] by (cases "io_pushed io") (auto simp: part_def same dest: arg_cong [of _ _ "\<lambda>x. fst (fst x)"], metis fst_conv)
  have "rel g (if io_asks io \<and> pending \<noteq> [] then wait_passes ses (io_exit_wait io) h else h)"
    using wait_passes [OF h] h by simp
  from asked_loop [OF this] show ?thesis
    using h by (auto simp: step_exits_def Let_def part_def [symmetric] p split: prod.split; metis fst_conv)
qed

lemma entry_loop:
  "rel g h \<Longrightarrow> named crosses \<subseteq> set (es_candidates (en_state g)) \<Longrightarrow>
   rel g (fst (entry_loop ses (last_entry_of g) asks answers read crosses h))"
proof (induction crosses arbitrary: h)
  case (Cons c cs)
  obtain s gap price where c: "c = (s, gap, price)" by (cases c)
  have "last_entry_of h = last_entry_of g" using rules [OF Cons.prems(1)] by (simp add: last_entry_of_def)
  then have "rel g (fst (try_entry ses (last_entry_of g) asks (answers s) (read s) c h))"
    using trans [OF Cons.prems(1) entry [of s gap h asks "answers s" "read s" price]] rules [OF Cons.prems(1)] Cons.prems(2)
    by (simp add: c named_def)
  then show ?case using Cons.IH Cons.prems(2)
    by (auto simp: c named_def split: prod.split loop_end.split; metis fst_conv)
qed simp

lemma entries: "rel g (fst (step_entries ses now io g))"
proof (cases "last_entry_of g < ses_local ses now")
  case True
  then show ?thesis by (simp add: step_entries_def Let_def same)
next
  case False
  let ?g = "on_state (\<lambda>s. s\<lparr>es_last_minute := ses_local ses now div 60000000\<rparr>) g"
  let ?sig = "signal_of (io_signal io) (io_signal_reads io)"
  obtain h crosses where f: "fold (cross_step ?sig) (es_candidates (en_state ?g)) (?g, []) = (h, crosses)" by fastforce
  have q: "quiet g ?g" by (simp add: quiet_def)
  have "quiet ?g h" and cs: "named crosses \<subseteq> set (es_candidates (en_state g))"
    using quiet_crosses [of ?g "(?g, [])" ?sig "es_candidates (en_state ?g)"] f by (auto simp: named_def)
  then have h: "rel g h" using quiet_ok quiet_trans [OF q] by blast
  let ?asked = "io_asks io \<and> crosses \<noteq> [] \<and> length (positions_of h) < SLOTS"
  have "rel g (if ?asked then wait_passes ses (io_entry_wait io) h else h)" using wait_passes [OF h] h by simp
  from entry_loop [OF this cs] show ?thesis using False f by (simp add: step_entries_def Let_def)
qed

lemma step: "rel g (fst (step ses now io g))"
  unfolding step_def
proof (rule and_then_rel [OF exits])
  fix h
  assume "rel g h"
  then have "rel g (shadow_exits ses now (io_shadow_reads io) h)" by (rule trans [OF _ quiet_ok]) simp
  then show "rel g (fst (step_entries ses now io (shadow_exits ses now (io_shadow_reads io) h)))"
    by (rule trans [OF _ entries])
qed

end

section \<open>Every trade is by the rule\<close>

text \<open>
  A purchase: of a candidate at its gap, at a price within the screen's bound, at a spread within the
  limit, no later than the last entry.  A sale: before the close, at a net at or under the stop, at
  or under an armed lock's level, or positive in the last thirty seconds.
\<close>

definition bought_by_rule :: "session \<Rightarrow> engine \<Rightarrow> fill \<Rightarrow> bool" where
  "bought_by_rule ses g f \<longleftrightarrow> fl_pnl f = None \<and> flt (Fin 0) (fl_price f) \<and> fle (fl_price f) MAX_PRICE
     \<and> ses_local ses (fl_at f) \<le> last_entry_of g
     \<and> (case fl_reason f of Bought gap spread_bps _ \<Rightarrow>
          (fl_symbol f, gap) \<in> set (es_candidates (en_state g)) \<and> spread_ok spread_bps | _ \<Rightarrow> False)"

definition sold_by_rule :: "session \<Rightarrow> string \<Rightarrow> fill \<Rightarrow> bool" where
  "sold_by_rule ses config f \<longleftrightarrow> \<not> after_close ses (fl_at f) \<and>
     (\<exists>net. fl_return f = Some net \<and> (\<exists>pnl. fl_pnl f = Some pnl) \<and>
       (case fl_reason f of
          SoldFor HardStop _ \<Rightarrow> fle net (fneg (stop_of config))
        | SoldFor Lock _ \<Rightarrow> \<exists>peak level. lock_floor peak config = Some level \<and> fle net level
        | SoldFor T30Positive _ \<Rightarrow> SELL_POSITIVES_FROM \<le> ses_local ses (fl_at f) \<and> flt (Fin 0) net
        | _ \<Rightarrow> False))"

definition by_rule :: "session \<Rightarrow> engine \<Rightarrow> engine \<Rightarrow> bool" where
  "by_rule ses g g' \<longleftrightarrow>
     es_candidates (en_state g') = es_candidates (en_state g) \<and> es_config (en_state g') = es_config (en_state g) \<and>
     en_last_entry g' = en_last_entry g \<and>
     (\<exists>new. es_fills (en_state g') = es_fills (en_state g) @ new
        \<and> es_nav (en_state g') = foldl fadd (es_nav (en_state g)) (List.map_filter fl_pnl new)
        \<and> (\<forall>f\<in>set new. if fl_buy f then bought_by_rule ses g f else sold_by_rule ses (es_config (en_state g)) f))"

lemma by_rule_quiet: "quiet g g' \<Longrightarrow> by_rule ses g g'"
  by (auto simp: quiet_def by_rule_def intro!: exI [of _ "[]"])

lemma by_rule_trans: "by_rule ses g h \<Longrightarrow> by_rule ses h k \<Longrightarrow> by_rule ses g k"
proof -
  assume gh: "by_rule ses g h" and hk: "by_rule ses h k"
  have same: "es_candidates (en_state h) = es_candidates (en_state g)" "es_config (en_state h) = es_config (en_state g)"
    "en_last_entry h = en_last_entry g" using gh by (simp_all add: by_rule_def)
  then have last: "last_entry_of h = last_entry_of g" by (simp add: last_entry_of_def)
  obtain xs where xs: "es_fills (en_state h) = es_fills (en_state g) @ xs"
    "es_nav (en_state h) = foldl fadd (es_nav (en_state g)) (List.map_filter fl_pnl xs)"
    "\<forall>f\<in>set xs. if fl_buy f then bought_by_rule ses g f else sold_by_rule ses (es_config (en_state g)) f"
    using gh by (auto simp only: by_rule_def)
  obtain ys where ys: "es_fills (en_state k) = es_fills (en_state h) @ ys"
    "es_nav (en_state k) = foldl fadd (es_nav (en_state h)) (List.map_filter fl_pnl ys)"
    "\<forall>f\<in>set ys. if fl_buy f then bought_by_rule ses h f else sold_by_rule ses (es_config (en_state h)) f"
    using hk by (auto simp only: by_rule_def)
  have "\<forall>f\<in>set ys. if fl_buy f then bought_by_rule ses g f else sold_by_rule ses (es_config (en_state g)) f"
    using ys(3) unfolding bought_by_rule_def last same .
  then show ?thesis
    using hk xs ys same unfolding by_rule_def
    by (intro conjI exI [of _ "xs @ ys"]) (auto simp: List.map_filter_def)
qed

lemma exit_reason_sound:
  "exit_reason_of ses config p net moment = Some (Some reason) \<Longrightarrow>
   (case reason of HardStop \<Rightarrow> fle net (fneg (stop_of config))
    | Lock \<Rightarrow> \<exists>peak level. lock_floor peak config = Some level \<and> fle net level
    | T30Positive \<Rightarrow> SELL_POSITIVES_FROM \<le> ses_local ses moment \<and> flt (Fin 0) net
    | T30Flat \<Rightarrow> False)"
  unfolding exit_reason_of_def CLOSE_FLAT_def
  by (auto split: if_splits exit_reason.splits elim!: bind_Some; blast)

lemma confirmed_reason_same:
  "confirmed_reason ses config p market moment source reason = Some (Some reason') \<Longrightarrow> reason' = reason"
  unfolding confirmed_reason_def CLOSE_FLAT_def by (auto split: if_splits elim!: bind_Some)

text \<open>The three ways a check ends: nothing but a mark, nothing at all, a sale.\<close>

lemma exit_check_cases:
  fixes g p market moment bid source
  obtains (raised) "quiet g (fst (exit_check ses p market moment bid source g))"
  | (marked) net c k where
      "net_percent p bid = Some net"
      "fst (exit_check ses p market moment bid source g) =
         on_state (\<lambda>s. s\<lparr>es_positions := AList.update (lp_symbol p) (marked_position p bid net) (es_positions s)\<rparr>)
           (g\<lparr>en_exit_sources := c, en_marked := k\<rparr>)"
  | (sold) net reason c k where
      "net_percent p bid = Some net"
      "exit_reason_of ses (es_config (en_state g)) (marked_position p bid net) net moment = Some (Some reason)"
      "confirmed_reason ses (es_config (en_state g)) (marked_position p bid net) market moment source reason = Some (Some reason)"
      "fst (exit_check ses p market moment bid source g) = fst (sell (marked_position p bid net) bid net reason moment
         (on_state (\<lambda>s. s\<lparr>es_positions := AList.update (lp_symbol p) (marked_position p bid net) (es_positions s)\<rparr>)
           (g\<lparr>en_exit_sources := c, en_marked := k\<rparr>)))"
proof (cases "net_percent p bid")
  case None
  then show ?thesis using raised by (simp add: exit_check_def)
next
  case (Some net)
  let ?q = "marked_position p bid net"
  let ?g = "on_state (\<lambda>s. s\<lparr>es_positions := AList.update (lp_symbol p) ?q (es_positions s)\<rparr>)
     (g\<lparr>en_exit_sources := bump source (en_exit_sources g), en_marked := (en_marked g)(lp_symbol p \<mapsto> moment)\<rparr>)"
  have sym: "lp_symbol ?q = lp_symbol p" by (simp add: marked_position_def)
  let ?wanted = "exit_reason_of ses (es_config (en_state g)) ?q net moment"
  show ?thesis
  proof (cases "\<exists>reason. ?wanted = Some (Some reason)")
    case False
    then have "fst (exit_check ses p market moment bid source g) = ?g"
      using Some by (auto simp: exit_check_def Let_def sym split: option.split)
    then show ?thesis using marked [OF Some] by blast
  next
    case True
    then obtain reason where r: "?wanted = Some (Some reason)" by blast
    let ?conf = "confirmed_reason ses (es_config (en_state g)) ?q market moment source reason"
    show ?thesis
    proof (cases "\<exists>r. ?conf = Some (Some r)")
      case True
      then have c: "?conf = Some (Some reason)" using confirmed_reason_same by blast
      have "fst (exit_check ses p market moment bid source g) = fst (sell ?q bid net reason moment ?g)"
        using Some r c by (simp add: exit_check_def Let_def sym split: prod.split)
      then show ?thesis using sold [OF Some r c] by blast
    next
      case False
      then consider "?conf = None" | "?conf = Some None" by (metis option.exhaust)
      then show ?thesis
      proof cases
        case 1
        then have "fst (exit_check ses p market moment bid source g) = ?g"
          using Some r by (simp add: exit_check_def Let_def sym)
        then show ?thesis using marked [OF Some] by blast
      next
        case 2
        then have "fst (exit_check ses p market moment bid source g)
          = on_state (\<lambda>s. s\<lparr>es_positions := AList.update (lp_symbol p) ?q (es_positions s)\<rparr>)
             (g\<lparr>en_exit_sources := bump ''unconfirmed'' (bump source (en_exit_sources g)), en_marked := (en_marked g)(lp_symbol p \<mapsto> moment)\<rparr>)"
          using Some r by (simp add: exit_check_def Let_def sym)
        then show ?thesis using marked [OF Some] by blast
      qed
    qed
  qed
qed

lemma by_rule_check:
  assumes "\<not> after_close ses moment"
  shows "by_rule ses g (fst (exit_check ses p market moment bid source g))"
proof (cases rule: exit_check_cases [of g ses p market moment bid source])
  case raised
  then show ?thesis by (rule by_rule_quiet)
next
  case (marked net c k)
  then show ?thesis by (simp add: by_rule_def)
next
  case (sold net reason c k)
  define f where "f = snd (sell (marked_position p bid net) bid net reason moment g)"
  have "es_fills (en_state (fst (exit_check ses p market moment bid source g))) = es_fills (en_state g) @ [f]"
    unfolding sold(4) by (simp add: sell_def Let_def f_def)
  moreover have "es_nav (en_state (fst (exit_check ses p market moment bid source g)))
      = foldl fadd (es_nav (en_state g)) (List.map_filter fl_pnl [f])"
    unfolding sold(4) by (simp add: sell_def Let_def f_def map_filter_simps)
  moreover have "sold_by_rule ses (es_config (en_state g)) f" and "\<not> fl_buy f"
    using exit_reason_sound [OF sold(2)] assms
    by (auto simp: sold_by_rule_def f_def sell_def Let_def split: exit_reason.splits)
  moreover have "es_candidates (en_state (fst (exit_check ses p market moment bid source g))) = es_candidates (en_state g)"
    "es_config (en_state (fst (exit_check ses p market moment bid source g))) = es_config (en_state g)"
    "en_last_entry (fst (exit_check ses p market moment bid source g)) = en_last_entry g"
    unfolding sold(4) by (simp_all add: sell_def Let_def)
  ultimately show ?thesis unfolding by_rule_def by (intro conjI exI [of _ "[f]"]) auto
qed

text \<open>The ways an attempt to enter ends: no trade, or a purchase with the quote that allowed it.\<close>

lemma quiet_entry_quote: "entry_quote asks answer market price g = (q, source, g') \<Longrightarrow> quiet g g'"
  by (auto simp: entry_quote_def split: if_splits option.splits)

lemma plausible_price: "plausible (bid, ask, q) price \<Longrightarrow> flt (Fin 0) ask \<and> fle ask MAX_PRICE"
  by (auto simp: plausible_def ordered_quote_def intro: flt_fle_trans)

lemma try_entry_cases:
  fixes g r answer
  obtains (none) "quiet g (fst (try_entry ses last_entry asks answer r (symbol, gap, price) g))"
  | (bought) m bid ask source money h where
      "quiet g h" "length (positions_of g) < SLOTS" "flt (Fin 0) ask" "fle ask MAX_PRICE"
      "ses_local ses (rd_moment r) \<le> last_entry" "spread_ok (spread_of bid ask)"
      "position_size (es_nav (en_state h)) (spread_of bid ask) = Some money"
      "fst (try_entry ses last_entry asks answer r (symbol, gap, price) g)
         = fst (buy symbol m ask gap (spread_of bid ask) (rd_moment r) source bid money h)"
proof -
  let ?res = "try_entry ses last_entry asks answer r (symbol, gap, price) g"
  obtain q source h where e: "entry_quote asks answer (rd_market r) price g = (q, source, h)"
    by (metis prod_cases3)
  have h: "quiet g h" by (rule quiet_entry_quote [OF e])
  have sk: "quiet g (skip why h)" for why by (rule quiet_trans [OF h]) simp
  show ?thesis
  proof (cases "SLOTS \<le> length (positions_of g) \<or> q = None")
    case True
    then have "quiet g (fst ?res)" using e sk by (auto simp: try_entry_def Let_def)
    then show ?thesis by (rule none)
  next
    case False
    then obtain bid ask at_q where q: "q = Some (bid, ask, at_q)" by (cases q) auto
    show ?thesis
    proof (cases "plausible (bid, ask, at_q) price \<and> \<not> last_entry < ses_local ses (rd_moment r)")
      case False
      then have "quiet g (fst ?res)" using \<open>\<not> (SLOTS \<le> length (positions_of g) \<or> q = None)\<close> e q sk
        by (auto simp: try_entry_def Let_def)
      then show ?thesis by (rule none)
    next
      case True
      let ?h = "h\<lparr>en_sources := bump source (en_sources h)\<rparr>"
      have hh: "quiet g ?h" by (rule quiet_trans [OF h]) simp
      have sk': "quiet g (skip why ?h)" for why by (rule quiet_trans [OF hh]) simp
      show ?thesis
      proof (cases "usable_entry_quote (bid, ask, at_q) source (rd_moment r) \<and> spread_ok (spread_of bid ask)")
        case False
        have "quiet g (refused_spread symbol ask (spread_of bid ask) (rd_moment r) ?h)"
          by (rule quiet_trans [OF hh]) simp
        then have "quiet g (fst ?res)" using \<open>\<not> (SLOTS \<le> length (positions_of g) \<or> q = None)\<close> e q True False sk'
          by (auto simp: try_entry_def Let_def)
        then show ?thesis by (rule none)
      next
        case ok: True
        let ?k = "if stream_would_refuse source (rd_market r) (rd_moment r)
          then ?h\<lparr>en_sources := bump ''stream_would_refuse'' (en_sources ?h)\<rparr> else ?h"
        have k: "quiet g ?k" using h by (simp add: quiet_def)
        have res: "?res = (case (map_of (en_members ?k) symbol, position_size (es_nav (en_state ?k)) (spread_of bid ask)) of
             (Some m, Some money) \<Rightarrow>
               (case buy symbol m ask gap (spread_of bid ask) (rd_moment r) source bid money ?k of (g, f) \<Rightarrow> (g, [f], GoesOn))
           | _ \<Rightarrow> (?k, [], Raises))"
          using \<open>\<not> (SLOTS \<le> length (positions_of g) \<or> q = None)\<close> e q True ok by (simp add: try_entry_def Let_def)
        show ?thesis
        proof (cases "map_of (en_members ?k) symbol = None \<or> position_size (es_nav (en_state ?k)) (spread_of bid ask) = None")
          case True
          then have "fst ?res = ?k" unfolding res by (auto split: option.split)
          then show ?thesis using k none by simp
        next
          case False
          then obtain m money where mm: "map_of (en_members ?k) symbol = Some m"
            "position_size (es_nav (en_state ?k)) (spread_of bid ask) = Some money" by auto
          have "fst ?res = fst (buy symbol m ask gap (spread_of bid ask) (rd_moment r) source bid money ?k)"
            unfolding res mm by (simp split: prod.split)
          from bought [OF k _ _ _ _ _ mm(2) this] show ?thesis
            using \<open>\<not> (SLOTS \<le> length (positions_of g) \<or> q = None)\<close> True ok
              plausible_price [of bid ask at_q price] by simp
        qed
      qed
    qed
  qed
qed

lemma by_rule_entry:
  assumes c: "(symbol, gap) \<in> set (es_candidates (en_state g))"
  shows "by_rule ses g (fst (try_entry ses (last_entry_of g) asks answer r (symbol, gap, price) g))"
proof (cases rule: try_entry_cases [of g ses "last_entry_of g" asks answer r symbol gap price])
  case none
  then show ?thesis by (rule by_rule_quiet)
next
  case (bought m bid ask source money h)
  define f where "f = snd (buy symbol m ask gap (spread_of bid ask) (rd_moment r) source bid money h)"
  define k where "k = fst (buy symbol m ask gap (spread_of bid ask) (rd_moment r) source bid money h)"
  have "es_fills (en_state k) = es_fills (en_state g) @ [f]" "fl_pnl f = None" "fl_buy f"
    "es_nav (en_state k) = es_nav (en_state g)" "es_candidates (en_state k) = es_candidates (en_state g)"
    "es_config (en_state k) = es_config (en_state g)" "en_last_entry k = en_last_entry g"
    using bought(1) by (simp_all add: k_def f_def buy_def Let_def quiet_def)
  moreover have "bought_by_rule ses g f"
    using bought(3-6) c by (simp add: bought_by_rule_def f_def buy_def Let_def)
  ultimately show ?thesis unfolding bought(8) k_def [symmetric] by_rule_def
    by (intro conjI exI [of _ "[f]"]) (simp_all add: List.map_filter_def)
qed

lemma by_rule_rules: "by_rule ses g h \<Longrightarrow> es_candidates (en_state h) = es_candidates (en_state g) \<and> en_last_entry h = en_last_entry g"
  by (simp add: by_rule_def)

interpretation tr: engine_contract ses "by_rule ses" for ses
  by unfold_locales
    (erule by_rule_quiet, erule (1) by_rule_trans, erule by_rule_rules, erule by_rule_check, erule by_rule_entry)

section \<open>The shape of the book\<close>

definition book_ok :: "engine \<Rightarrow> bool" where
  "book_ok g \<longleftrightarrow> distinct (map fst (positions_of g)) \<and> (\<forall>(s, p) \<in> set (positions_of g). lp_symbol p = s)
     \<and> length (positions_of g) \<le> SLOTS"

definition keeps_book :: "engine \<Rightarrow> engine \<Rightarrow> bool" where
  "keeps_book g g' \<longleftrightarrow> es_candidates (en_state g') = es_candidates (en_state g) \<and> en_last_entry g' = en_last_entry g
     \<and> (book_ok g \<longrightarrow> book_ok g')"

lemma length_update: "length (AList.update k v xs) = (if k \<in> fst ` set xs then length xs else Suc (length xs))"
  by (induction xs) auto

lemma update_symbols:
  "lp_symbol p = k \<Longrightarrow> \<forall>(s, p) \<in> set xs. lp_symbol p = s \<Longrightarrow> \<forall>(s, p) \<in> set (AList.update k p xs). lp_symbol p = s"
  by (induction xs) auto

lemma book_ok_update:
  assumes "book_ok g" and "lp_symbol p = k" and "k \<in> fst ` set (positions_of g) \<or> length (positions_of g) < SLOTS"
    and "positions_of h = AList.update k p (positions_of g)"
  shows "book_ok h"
  using assms update_symbols [OF assms(2)] by (auto simp: book_ok_def length_update distinct_update)

lemma book_ok_without:
  assumes "book_ok g" and "positions_of h = without k (positions_of g)"
  shows "book_ok h"
  using assms
  by (auto simp: book_ok_def without_def distinct_map inj_on_def intro: order_trans [OF length_filter_le])

lemma book_ok_quiet: "quiet g h \<Longrightarrow> book_ok g \<Longrightarrow> book_ok h"
  by (simp add: quiet_def book_ok_def)

lemma keeps_book_check:
  assumes p: "map_of (positions_of g) symbol = Some p"
  shows "keeps_book g (fst (exit_check ses p market moment bid source g))"
proof (cases rule: exit_check_cases [of g ses p market moment bid source])
  case raised
  then show ?thesis using book_ok_quiet by (auto simp: keeps_book_def quiet_def)
next
  case (marked net c k)
  have "book_ok (fst (exit_check ses p market moment bid source g))" if ok: "book_ok g"
  proof (rule book_ok_update [OF ok, of "marked_position p bid net" symbol])
    have s: "lp_symbol p = symbol" using ok map_of_SomeD [OF p] by (auto simp: book_ok_def)
    then show "lp_symbol (marked_position p bid net) = symbol" by (simp add: marked_position_def)
    show "symbol \<in> fst ` set (positions_of g) \<or> length (positions_of g) < SLOTS"
      using map_of_SomeD [OF p] by force
    show "positions_of (fst (exit_check ses p market moment bid source g)) = AList.update symbol (marked_position p bid net) (positions_of g)"
      by (simp add: marked(2) s)
  qed
  then show ?thesis by (simp add: keeps_book_def marked(2))
next
  case (sold net reason c k)
  let ?q = "marked_position p bid net"
  let ?h = "on_state (\<lambda>s. s\<lparr>es_positions := AList.update (lp_symbol p) ?q (es_positions s)\<rparr>) (g\<lparr>en_exit_sources := c, en_marked := k\<rparr>)"
  have "book_ok (fst (exit_check ses p market moment bid source g))" if ok: "book_ok g"
  proof (rule book_ok_without [of ?h])
    have s: "lp_symbol p = symbol" using ok map_of_SomeD [OF p] by (auto simp: book_ok_def)
    show "book_ok ?h"
      by (rule book_ok_update [OF ok, of ?q symbol])
        (use s map_of_SomeD [OF p] in \<open>auto simp: marked_position_def intro: rev_image_eqI\<close>)
    show "positions_of (fst (exit_check ses p market moment bid source g)) = without (lp_symbol ?q) (positions_of ?h)"
      by (simp add: sold(4) sell_def Let_def)
  qed
  then show ?thesis by (simp add: keeps_book_def sold(4) sell_def Let_def)
qed

lemma keeps_book_entry: "keeps_book g (fst (try_entry ses (last_entry_of g) asks answer r (symbol, gap, price) g))"
proof (cases rule: try_entry_cases [of g ses "last_entry_of g" asks answer r symbol gap price])
  case none
  then show ?thesis using book_ok_quiet by (auto simp: keeps_book_def quiet_def)
next
  case (bought m bid ask source money h)
  define k where "k = fst (buy symbol m ask gap (spread_of bid ask) (rd_moment r) source bid money h)"
  have "\<exists>p. positions_of k = AList.update symbol p (positions_of g) \<and> lp_symbol p = symbol"
    using bought(1) by (simp add: k_def buy_def Let_def quiet_def) (rule exI, rule conjI, rule refl, simp)
  then obtain p where p: "lp_symbol p = symbol" "positions_of k = AList.update symbol p (positions_of g)" by blast
  have "book_ok g \<Longrightarrow> book_ok k" by (rule book_ok_update [OF _ p(1) _ p(2)]) (use bought(2) in simp_all)
  then show ?thesis unfolding bought(8) k_def [symmetric] keeps_book_def
    using bought(1) by (simp add: k_def buy_def Let_def quiet_def)
qed

lemma keeps_book_quiet: "quiet g h \<Longrightarrow> keeps_book g h"
  using book_ok_quiet by (auto simp: keeps_book_def quiet_def)

interpretation bk: engine_contract ses keeps_book for ses
proof unfold_locales
  fix g h k :: engine
  assume "keeps_book g h" and "keeps_book h k"
  then show "keeps_book g k" by (simp add: keeps_book_def)
next
  fix g h :: engine
  assume "keeps_book g h"
  then show "es_candidates (en_state h) = es_candidates (en_state g) \<and> en_last_entry h = en_last_entry g"
    by (simp add: keeps_book_def)
qed (rule keeps_book_quiet keeps_book_check keeps_book_entry; assumption?)+

section \<open>The level a position sells at\<close>

text \<open>A peak is a number, and an armed position's peak has reached the least step of the lock.\<close>

definition lock_ok :: "live_position \<Rightarrow> bool" where
  "lock_ok p \<longleftrightarrow> (case lp_peak p of None \<Rightarrow> \<not> lp_armed p
     | Some x \<Rightarrow> finite_float x \<and> (\<not> lp_armed p \<or> fle LOCK_MIN x))"

lemma lock_min_fin: "\<exists>a. LOCK_MIN = Fin a \<and> 0 < a"
proof -
  obtain a :: rat where "LOCK_MIN = Fin a" "0 < a" by (rule ladder_fin)
  then show ?thesis by blast
qed

lemma stop_fin: "\<exists>s. stop_of config = Fin s \<and> 0 < s"
proof -
  have p: "(case STOP_PERCENT of Fin s \<Rightarrow> 0 < s | _ \<Rightarrow> False)" "(case flit 20 100 of Fin s \<Rightarrow> 0 < s | _ \<Rightarrow> False)"
    by code_simp+
  have "stop_of config = STOP_PERCENT \<or> stop_of config = flit 20 100 \<or> stop_of config = Fin 1"
    by (auto simp: stop_of_def STOPS_def split: option.splits if_splits)
  then show ?thesis using p by (auto split: pyfloat.splits)
qed

lemma marked_lock_ok:
  assumes "lock_ok p"
  shows "lock_ok (marked_position p bid (Fin n))"
proof -
  obtain a where a: "LOCK_MIN = Fin a" "0 < a" using lock_min_fin by blast
  show ?thesis
    using assms by (auto simp: a lock_ok_def marked_position_def finite_float_def pyf split: option.splits pyfloat.splits)
qed

text \<open>
  The level a held position sells at never loosens: over any exit check it stays or rises, from
  the stop to the lock and from one step of the lock to a higher one, on the ladder of any session's
  rule; and the invariant that makes it so (an armed peak has reached the first step) is kept.
\<close>

theorem level_never_loosens:
  assumes ok: "lock_ok p" and l: "sale_level p config = Some (Fin l)"
    and l': "sale_level (marked_position p bid (Fin n)) config = Some (Fin l')"
  shows "l \<le> l' \<and> lock_ok (marked_position p bid (Fin n))"
proof
  let ?q = "marked_position p bid (Fin n)"
  obtain a where a: "LOCK_MIN = Fin a" "0 < a" using lock_min_fin by blast
  obtain s where s: "stop_of config = Fin s" "0 < s" using stop_fin by blast
  have q: "lock_ok ?q" by (rule marked_lock_ok [OF ok])
  then show "lock_ok ?q" .
  obtain y where y: "lp_peak ?q = Some (Fin y)" and ya: "lp_armed ?q \<Longrightarrow> a \<le> y"
    using q by (auto simp: a lock_ok_def marked_position_def finite_float_def split: option.splits pyfloat.splits)
  show "l \<le> l'"
  proof (cases "lp_armed ?q")
    case False
    then have "\<not> lp_armed p" by (simp add: marked_position_def)
    with False l l' show ?thesis by (simp add: sale_level_def)
  next
    case armed: True
    have ly: "lock_floor (Fin y) config = Some (Fin l')"
      using l' armed y ya a by (simp add: sale_level_def peak_or_min_def)
    show ?thesis
    proof (cases "lp_armed p")
      case False
      then have "l = - s" using l s by (simp add: sale_level_def)
      moreover have "a \<le> l'" by (rule lock_floor_least [OF ly a(1) ya [OF armed]])
      ultimately show ?thesis using s a by simp
    next
      case True
      then obtain x where x: "lp_peak p = Some (Fin x)" "a \<le> x"
        using ok by (auto simp: a lock_ok_def finite_float_def split: option.splits pyfloat.splits)
      have lx: "lock_floor (Fin x) config = Some (Fin l)"
        using l True x a by (simp add: sale_level_def peak_or_min_def)
      have "x \<le> y" using y x(1) by (simp add: marked_position_def pyf)
      then show ?thesis by (rule lock_floor_mono [OF lx ly])
    qed
  qed
qed

definition sample_position :: live_position where
  "sample_position = \<lparr>lp_symbol = ''AAPL'', lp_market = ''NASDAQ'', lp_shares = Fin 10, lp_entry = Fin 100, lp_cost = Fin 1000,
     lp_opened = 0, lp_peak = None, lp_armed = False, lp_days = 0, lp_mark = None\<rparr>"

lemma level_never_loosens_witness:
  "\<exists>l l'. sale_level sample_position CONFIG = Some (Fin l)
     \<and> sale_level (marked_position sample_position (Fin 101) (Fin 1)) CONFIG = Some (Fin l') \<and> l \<le> l'"
proof -
  have ok: "lock_ok sample_position" by (simp add: lock_ok_def sample_position_def)
  have "\<exists>l. sale_level sample_position CONFIG = Some (Fin l)"
  proof -
    have "(case sale_level sample_position CONFIG of Some (Fin l) \<Rightarrow> True | _ \<Rightarrow> False)" by code_simp
    then show ?thesis by (auto split: option.splits pyfloat.splits)
  qed
  moreover have "\<exists>l'. sale_level (marked_position sample_position (Fin 101) (Fin 1)) CONFIG = Some (Fin l')"
  proof -
    have "(case sale_level (marked_position sample_position (Fin 101) (Fin 1)) CONFIG of Some (Fin l) \<Rightarrow> True | _ \<Rightarrow> False)"
      by code_simp
    then show ?thesis by (auto split: option.splits pyfloat.splits)
  qed
  ultimately show ?thesis using level_never_loosens [OF ok] by blast
qed

text \<open>
  A sale on the feed's own bid happens only with the confirmation of a fresh last trade at the
  same level.
\<close>

theorem stream_sale_confirmed:
  assumes "exit_check ses p market moment bid ''stream'' g = (g', fs, raised)" and "fs \<noteq> []"
  shows "\<exists>net reason. net_percent p bid = Some net \<and> fs = [snd (sell (marked_position p bid net) bid net reason moment g)]
    \<and> trade_confirms (marked_position p bid net) market moment reason (es_config (en_state g)) = Some True"
proof -
  from assms obtain net where n: "net_percent p bid = Some net" by (cases "net_percent p bid") (auto simp: exit_check_def)
  let ?q = "marked_position p bid net"
  have sym: "lp_symbol ?q = lp_symbol p" by (simp add: marked_position_def)
  from assms n obtain reason where w: "exit_reason_of ses (es_config (en_state g)) ?q net moment = Some (Some reason)"
    by (auto simp: exit_check_def Let_def split: option.splits)
  with assms n obtain r where c: "confirmed_reason ses (es_config (en_state g)) ?q market moment ''stream'' reason = Some (Some r)"
    by (auto simp: exit_check_def Let_def split: option.splits)
  have r: "r = reason" by (rule confirmed_reason_same [OF c])
  have "fs = [snd (sell ?q bid net reason moment g)]"
    using assms n w c r by (simp add: exit_check_def Let_def sell_def)
  moreover have "trade_confirms ?q market moment reason (es_config (en_state g)) = Some True"
    using c unfolding confirmed_reason_def CLOSE_FLAT_def by (auto elim!: bind_Some split: if_splits)
  ultimately show ?thesis using n by blast
qed


text \<open>
  A step never holds more than twenty names nor two positions of one name, and every position is
  filed under its own symbol.
\<close>

theorem step_within_slots: "book_ok g \<Longrightarrow> book_ok (fst (step ses now io g))"
  using bk.step [of g ses now io] by (simp add: keeps_book_def)

text \<open>A session with one held name, and a step on a pushed quote under its stop.\<close>

definition sample_session :: session where
  "sample_session = \<lparr>ses_day = ''2026-11-06'', ses_local = (\<lambda>t. t), ses_close = time_of_day 16 0 0\<rparr>"

definition sample_engine :: engine where
  "sample_engine = \<lparr>en_state = \<lparr>es_nav = Fin 20000, es_positions = [(''AAPL'', sample_position)], es_last_session = [],
      es_session = ''2026-11-06'', es_nav_start = Some (Fin 20000), es_candidates = [], es_below = \<lambda>_. False, es_signals = 0,
      es_fills = [], es_last_minute = 0, es_fixed = True, es_context = [], es_floor = None, es_config = CONFIG, es_shadow = [],
      es_bands = [], es_bands_closed = None\<rparr>,
    en_day = ''2026-11-06'', en_members = [], en_resumed = True, en_skips = \<lambda>_. 0, en_sources = \<lambda>_. 0, en_exit_sources = \<lambda>_. 0,
    en_marked = Map.empty, en_last_entry = LAST_ENTRY\<rparr>"

definition no_view :: market_view where
  "no_view = \<lparr>mv_price = None, mv_trade_at = None, mv_vwap = None, mv_bid = None, mv_ask = None, mv_quote_at = None\<rparr>"

definition sample_io :: step_io where
  "sample_io = (let r = \<lambda>_. \<lparr>rd_market = no_view, rd_quote = Some (Fin 99, Fin 99, time_of_day 12 0 0), rd_moment = time_of_day 12 0 0\<rparr> in
     \<lparr>io_pushed = Some r, io_asks = False, io_exit_wait = [], io_exit_answers = \<lambda>_. None, io_exit_reads = r,
      io_shadow_reads = \<lambda>_. no_view, io_signal = None, io_signal_reads = \<lambda>_. no_view, io_entry_wait = [],
      io_entry_answers = \<lambda>_. None, io_entry_reads = r\<rparr>)"

lemma sample_book_ok: "book_ok sample_engine"
  by (simp add: book_ok_def sample_engine_def sample_position_def SLOTS_def)

lemma step_within_slots_witness: "book_ok (fst (step sample_session (time_of_day 12 0 0) sample_io sample_engine))"
  by (rule step_within_slots [OF sample_book_ok])

definition stop_view :: market_view where
  "stop_view = no_view\<lparr>mv_price := Some (Fin 99), mv_trade_at := Some 0\<rparr>"

lemma stream_sale_confirmed_witness:
  "\<exists>net reason. trade_confirms (marked_position sample_position (Fin 99) net) stop_view 0 reason (es_config (en_state sample_engine)) = Some True"
proof -
  obtain g' fs raised where e: "exit_check sample_session sample_position stop_view 0 (Fin 99) ''stream'' sample_engine = (g', fs, raised)"
    by (metis prod_cases3)
  have "fst (snd (exit_check sample_session sample_position stop_view 0 (Fin 99) ''stream'' sample_engine)) \<noteq> []" by code_simp
  then have "fs \<noteq> []" by (simp add: e)
  from stream_sale_confirmed [OF e this] show ?thesis by blast
qed

end
