(* ===== verification/PaperBook.thy ===== *)
theory PaperBook
  imports Prelude PyDate Strategy "HOL-Library.AList"
begin

text \<open>
  The book of the R2D2 paper service (\<open>r2d2.py\<close>): execution costs, \<open>execute_trade\<close> on cash, positions and
  the trade ledger, the marks of its two risk loops, order sizes, the fast risk watcher, the entry
  confirmation and the flat-to-flat episodes.  The store is the in-memory one, whose numbers are Python
  floats, over the experiment row in force; instants are microseconds (UTC).
\<close>

section \<open>Execution costs\<close>

definition slippage_rate :: "string \<Rightarrow> pyfloat" where
  "slippage_rate market = (if market = ''B3'' then flit 15 10000 else flit 10 10000)"

definition fee_rate :: "string \<Rightarrow> pyfloat" where
  "fee_rate market = (if market = ''B3'' then flit 6 10000 else flit 4 10000)"

record execution =
  ex_fill :: pyfloat
  ex_gross :: pyfloat
  ex_fees :: pyfloat
  ex_slippage :: pyfloat

definition paper_exit_execution :: "string \<Rightarrow> pyfloat \<Rightarrow> pyfloat \<Rightarrow> pyfloat \<Rightarrow> execution" where
  "paper_exit_execution market price quantity fx =
     (let fill = fmul price (fsub (Fin 1) (slippage_rate market)); gross = fmul (fmul quantity fill) fx in
      \<lparr>ex_fill = fill, ex_gross = gross, ex_fees = fmul gross (fee_rate market), ex_slippage = fmul (fmul quantity (fsub price fill)) fx\<rparr>)"

definition paper_buy_execution :: "string \<Rightarrow> pyfloat \<Rightarrow> pyfloat \<Rightarrow> pyfloat \<Rightarrow> execution" where
  "paper_buy_execution market price quantity fx =
     (let fill = fmul price (fadd (Fin 1) (slippage_rate market)); gross = fmul (fmul quantity fill) fx in
      \<lparr>ex_fill = fill, ex_gross = gross, ex_fees = fmul gross (fee_rate market), ex_slippage = fmul (fmul quantity (fsub fill price)) fx\<rparr>)"

definition realized_return_percent :: "pyfloat \<Rightarrow> pyfloat \<Rightarrow> pyfloat option \<Rightarrow> pyfloat option" where
  "realized_return_percent gross fees realized =
     (case realized of
        None \<Rightarrow> None
      | Some r \<Rightarrow>
          let basis = fsub (fsub gross fees) r in
          if fle basis (Fin 0) then None else Some (py_round 4 (fmul (fdiv r basis) (Fin 100))))"

section \<open>The book\<close>

type_synonym book_key = "string \<times> string"

definition or0 :: "pyfloat option \<Rightarrow> pyfloat" where
  "or0 v = (case v of None \<Rightarrow> Fin 0 | Some x \<Rightarrow> x)"

text \<open>
  \<open>bp_atr_percent\<close> and \<open>bp_pending_price\<close> are the two values the watcher reads from the position's
  strategy snapshot: the cached technical's \<open>atr_percent\<close> and the pending anomalous price.
\<close>

record book_position =
  bp_quantity :: pyfloat
  bp_cost_local :: pyfloat
  bp_cost_usd :: pyfloat
  bp_last :: pyfloat
  bp_fx :: pyfloat
  bp_high :: pyfloat
  bp_stop :: pyfloat
  bp_hard :: "pyfloat option"
  bp_atr :: "pyfloat option"
  bp_atr_at :: "int option"
  bp_chandelier :: "pyfloat option"
  bp_count :: nat
  bp_confirmed_at :: "int option"
  bp_opened :: int
  bp_atr_percent :: pyfloat
  bp_pending_price :: pyfloat

datatype paper_side = Paper_Buy | Paper_Sell
datatype watch_rule = Hard_Stop_Rule | End_Of_Day_Rule | Chandelier_Rule

record paper_trade =
  pt_id :: string
  pt_key :: book_key
  pt_side :: paper_side
  pt_quantity :: pyfloat
  pt_fill :: pyfloat
  pt_fx :: pyfloat
  pt_gross :: pyfloat
  pt_fees :: pyfloat
  pt_realized :: "pyfloat option"
  pt_return :: "pyfloat option"
  pt_rule :: "watch_rule option"
  pt_at :: int
  pt_corrected :: bool
  pt_wind_down :: bool

record paper_book =
  pb_cash :: pyfloat
  pb_positions :: "(book_key \<times> book_position) list"
  pb_trades :: "paper_trade list"

datatype paper_error = Exceeds_Cash | Exceeds_Position | Zero_Division | No_Integer | Flat_Sell | Excess_Sell | Bad_Quantity

text \<open>What \<open>execute_trade\<close> is given; \<open>od_at\<close> is the effect instant it reads, \<open>od_id\<close> the new identifier.\<close>

record paper_order =
  od_id :: string
  od_key :: book_key
  od_side :: paper_side
  od_quantity :: pyfloat
  od_fill :: pyfloat
  od_fx :: pyfloat
  od_fees :: pyfloat
  od_stop :: pyfloat
  od_atr_percent :: pyfloat
  od_rule :: "watch_rule option"
  od_wind_down :: bool
  od_at :: int

definition order_trade :: "paper_order \<Rightarrow> pyfloat option \<Rightarrow> paper_trade" where
  "order_trade od realized =
     (let gross = fmul (fmul (od_quantity od) (od_fill od)) (od_fx od) in
      \<lparr>pt_id = od_id od, pt_key = od_key od, pt_side = od_side od, pt_quantity = od_quantity od, pt_fill = od_fill od, pt_fx = od_fx od,
       pt_gross = gross, pt_fees = od_fees od, pt_realized = realized, pt_return = realized_return_percent gross (od_fees od) realized,
       pt_rule = od_rule od, pt_at = od_at od, pt_corrected = False, pt_wind_down = od_wind_down od\<rparr>)"

definition buy_position :: "paper_order \<Rightarrow> book_position option \<Rightarrow> pyfloat \<Rightarrow> pyfloat \<Rightarrow> pyfloat \<Rightarrow> book_position" where
  "buy_position od current new_qty avg_local avg_usd =
     \<lparr>bp_quantity = new_qty, bp_cost_local = avg_local, bp_cost_usd = avg_usd, bp_last = od_fill od, bp_fx = od_fx od, bp_high = od_fill od,
      bp_stop = od_stop od, bp_hard = Some (od_stop od), bp_atr = None, bp_atr_at = None, bp_chandelier = None, bp_count = 0,
      bp_confirmed_at = None, bp_opened = (case current of None \<Rightarrow> od_at od | Some p \<Rightarrow> bp_opened p),
      bp_atr_percent = od_atr_percent od, bp_pending_price = Fin 0\<rparr>"

definition execute_buy :: "paper_order \<Rightarrow> paper_book \<Rightarrow> paper_error + paper_book" where
  "execute_buy od b =
     (let gross = fmul (fmul (od_quantity od) (od_fill od)) (od_fx od); total = fadd gross (od_fees od);
          current = map_of (pb_positions b) (od_key od) in
      if flt (fadd (pb_cash b) (flit 1 100)) total then Inl Exceeds_Cash
      else
        let old_qty = (case current of None \<Rightarrow> Fin 0 | Some p \<Rightarrow> bp_quantity p);
            old_cost = (case current of None \<Rightarrow> Fin 0 | Some p \<Rightarrow> bp_cost_usd p);
            new_qty = fadd old_qty (od_quantity od) in
        case py_div (fadd (fadd (fmul old_qty old_cost) gross) (od_fees od)) new_qty of
          None \<Rightarrow> Inl Zero_Division
        | Some avg_usd \<Rightarrow>
            (case py_div avg_usd (od_fx od) of
               None \<Rightarrow> Inl Zero_Division
             | Some avg_local \<Rightarrow>
                 Inr (b\<lparr>pb_cash := fsub (pb_cash b) total,
                        pb_positions := AList.update (od_key od) (buy_position od current new_qty avg_local avg_usd) (pb_positions b),
                        pb_trades := pb_trades b @ [order_trade od None]\<rparr>)))"

definition execute_sell :: "paper_order \<Rightarrow> paper_book \<Rightarrow> paper_error + paper_book" where
  "execute_sell od b =
     (let gross = fmul (fmul (od_quantity od) (od_fill od)) (od_fx od) in
      case map_of (pb_positions b) (od_key od) of
        None \<Rightarrow> Inl Exceeds_Position
      | Some p \<Rightarrow>
          if flt (fadd (bp_quantity p) (fl (1 / 10 ^ 8))) (od_quantity od) then Inl Exceeds_Position
          else
            let realized = fsub (fsub gross (od_fees od)) (fmul (od_quantity od) (bp_cost_usd p));
                remaining = fsub (bp_quantity p) (od_quantity od) in
            Inr (b\<lparr>pb_cash := fsub (fadd (pb_cash b) gross) (od_fees od),
                   pb_positions := (if fle remaining (fl (1 / 10 ^ 8)) then AList.delete (od_key od) (pb_positions b)
                                    else AList.update (od_key od) (p\<lparr>bp_quantity := remaining, bp_last := od_fill od\<rparr>) (pb_positions b)),
                   pb_trades := pb_trades b @ [order_trade od (Some realized)]\<rparr>))"

definition execute_trade :: "paper_order \<Rightarrow> paper_book \<Rightarrow> paper_error + paper_book" where
  "execute_trade od b = (case od_side od of Paper_Buy \<Rightarrow> execute_buy od b | Paper_Sell \<Rightarrow> execute_sell od b)"

section \<open>Marks\<close>

definition change_position :: "book_key \<Rightarrow> (book_position \<Rightarrow> book_position) \<Rightarrow> paper_book \<Rightarrow> paper_book" where
  "change_position k f b =
     (case map_of (pb_positions b) k of None \<Rightarrow> b | Some p \<Rightarrow> b\<lparr>pb_positions := AList.update k (f p) (pb_positions b)\<rparr>)"

text \<open>\<open>notes\<close> are the new values read from the strategy snapshot, when one is given.\<close>

definition mark_position :: "pyfloat \<Rightarrow> pyfloat \<Rightarrow> pyfloat \<Rightarrow> pyfloat \<Rightarrow> (pyfloat \<times> pyfloat) option \<Rightarrow> bool \<Rightarrow> book_position \<Rightarrow> book_position" where
  "mark_position price fx high_water stop notes write_high p =
     p\<lparr>bp_last := price, bp_fx := fx, bp_stop := stop,
       bp_high := (if write_high then py_max (bp_high p) high_water else bp_high p),
       bp_atr_percent := (case notes of None \<Rightarrow> bp_atr_percent p | Some (a, q) \<Rightarrow> a),
       bp_pending_price := (case notes of None \<Rightarrow> bp_pending_price p | Some (a, q) \<Rightarrow> q)\<rparr>"

definition chandelier_of :: "pyfloat \<Rightarrow> pyfloat \<Rightarrow> book_position \<Rightarrow> pyfloat option" where
  "chandelier_of high atr p = Some (py_max (or0 (bp_chandelier p)) (fsub high (fmul atr (flit 25 10))))"

definition anchor_position :: "pyfloat \<Rightarrow> pyfloat \<Rightarrow> int \<Rightarrow> book_position \<Rightarrow> book_position" where
  "anchor_position atr hard_stop as_of p =
     (if fle atr (Fin 0) then p
      else p\<lparr>bp_atr := Some atr, bp_atr_at := Some as_of, bp_hard := Some (py_max (or0 (bp_hard p)) hard_stop),
             bp_chandelier := chandelier_of (bp_high p) atr p\<rparr>)"

text \<open>\<open>observe_fast_risk_tick\<close>: the high water, the stop, and the count of distinct ticks at or below it.\<close>

definition raise_high_water :: "pyfloat \<Rightarrow> book_position \<Rightarrow> book_position" where
  "raise_high_water price p = p\<lparr>bp_high := py_max (bp_high p) price\<rparr>"

definition raise_chandelier :: "book_position \<Rightarrow> book_position" where
  "raise_chandelier p =
     (if flt (Fin 0) (or0 (bp_atr p)) then p\<lparr>bp_chandelier := chandelier_of (bp_high p) (or0 (bp_atr p)) p\<rparr> else p)"

definition confirm_tick :: "pyfloat \<Rightarrow> int \<Rightarrow> book_position \<Rightarrow> book_position" where
  "confirm_tick price tick p =
     (let stop = or0 (bp_chandelier p);
          distinct_tick = (case bp_confirmed_at p of None \<Rightarrow> True | Some t \<Rightarrow> t < tick) in
      if flt (Fin 0) stop \<and> fle price stop \<and> distinct_tick
      then p\<lparr>bp_count := Suc (bp_count p), bp_confirmed_at := Some tick\<rparr>
      else if flt (Fin 0) stop \<and> flt stop price then p\<lparr>bp_count := 0, bp_confirmed_at := None\<rparr>
      else p)"

definition observe_tick :: "pyfloat \<Rightarrow> int \<Rightarrow> book_position \<Rightarrow> book_position" where
  "observe_tick price tick p = confirm_tick price tick (raise_chandelier (raise_high_water price p))"

section \<open>Orders of the service\<close>

record paper_settings =
  ps_max_position_percent :: pyfloat
  ps_max_market_percent :: pyfloat
  ps_max_gross_percent :: pyfloat
  ps_min_cash_percent :: pyfloat
  ps_max_cash_percent :: pyfloat
  ps_daily_loss_percent :: pyfloat
  ps_max_loss_percent :: pyfloat
  ps_quote_max_age :: pyfloat
  ps_tick_max_age :: pyfloat
  ps_atr_max_age :: pyfloat
  ps_confirmation_reviews :: int

text \<open>\<open>math.floor(x) / n\<close>; infinities and NaN have no integer.\<close>

definition floor_over :: "int \<Rightarrow> pyfloat \<Rightarrow> pyfloat option" where
  "floor_over n x = (case x of Fin r \<Rightarrow> Some (flit \<lfloor>r\<rfloor> n) | _ \<Rightarrow> None)"

definition total_seconds :: "int \<Rightarrow> pyfloat" where "total_seconds us = flit us 1000000"

text \<open>\<open>_sell\<close>: hundredths of the wanted fraction, or everything when less than a hundredth would stay.\<close>

definition sell_quantity :: "pyfloat \<Rightarrow> pyfloat \<Rightarrow> pyfloat option" where
  "sell_quantity full wanted =
     map_option (\<lambda>quantity. if fle quantity (Fin 0) \<or> flt (fsub full quantity) (flit 1 100) then full else quantity)
       (floor_over 100 (fmul (fmul full (py_max (Fin 0) (py_min (Fin 1) wanted))) (Fin 100)))"

definition paper_sell :: "string \<Rightarrow> int \<Rightarrow> book_key \<Rightarrow> pyfloat \<Rightarrow> pyfloat \<Rightarrow> pyfloat \<Rightarrow> watch_rule option \<Rightarrow> bool \<Rightarrow> book_position \<Rightarrow> paper_book
    \<Rightarrow> paper_error + paper_book" where
  "paper_sell ident effect_at k price fx wanted rule wind_down p b =
     (case sell_quantity (bp_quantity p) wanted of
        None \<Rightarrow> Inl No_Integer
      | Some quantity \<Rightarrow>
          let ex = paper_exit_execution (fst k) price quantity fx in
          execute_trade \<lparr>od_id = ident, od_key = k, od_side = Paper_Sell, od_quantity = quantity, od_fill = ex_fill ex, od_fx = fx,
             od_fees = ex_fees ex, od_stop = Fin 0, od_atr_percent = Fin 0, od_rule = rule, od_wind_down = wind_down, od_at = effect_at\<rparr> b)"

text \<open>What \<open>_buy\<close> reads of the dashboard.\<close>

record dashboard_view =
  dv_nav :: pyfloat
  dv_cash :: pyfloat
  dv_gross :: pyfloat
  dv_daily_return :: pyfloat
  dv_values :: "(string \<times> pyfloat) list"

definition entry_capacity_usd :: "paper_settings \<Rightarrow> string \<Rightarrow> dashboard_view \<Rightarrow> pyfloat" where
  "entry_capacity_usd ps market dv =
     (let nav = dv_nav dv in
      if fle nav (Fin 0) then Fin 0
      else
        let market_exposure = py_sum (map snd (filter (\<lambda>(m, v). m = market) (dv_values dv)));
            max_market = fdiv (fmul nav (ps_max_market_percent ps)) (Fin 100);
            max_gross_percent = py_min (ps_max_gross_percent ps) (fsub (Fin 100) (ps_min_cash_percent ps));
            max_gross = fdiv (fmul nav max_gross_percent) (Fin 100);
            cost_buffer = fmul nav (flit 5 10000) in
        py_max (Fin 0)
          (py_min (py_min (py_min (fdiv (fmul nav (ps_max_position_percent ps)) (Fin 100)) (fsub max_market market_exposure))
             (fsub (fsub max_gross (dv_gross dv)) cost_buffer)) (dv_cash dv)))"

definition has_entry_capacity :: "paper_settings \<Rightarrow> string \<Rightarrow> dashboard_view \<Rightarrow> bool" where
  "has_entry_capacity ps market dv \<longleftrightarrow>
     fle (fmul (fdiv (fmul (dv_nav dv) MIN_POSITION_PERCENT) (Fin 100)) (flit 90 100)) (entry_capacity_usd ps market dv)"

text \<open>The candidate as \<open>_buy\<close> reads it; \<open>bc_indicators\<close> is its technical dictionary.\<close>

record buy_candidate =
  bc_key :: book_key
  bc_price :: pyfloat
  bc_quote_at :: "int option"
  bc_live :: bool
  bc_indicators :: pydict

text \<open>\<open>_buy\<close> up to its order: \<open>fresh\<close> is the stream's newer quote, \<open>now\<close> the clock at the fill, \<open>usd_fx\<close> the quote of USDBRL.\<close>

definition plan_buy :: "paper_settings \<Rightarrow> bool \<Rightarrow> (pyfloat \<times> int) option \<Rightarrow> int \<Rightarrow> pyfloat \<Rightarrow> dashboard_view \<Rightarrow> string \<Rightarrow> int \<Rightarrow> buy_candidate
    \<Rightarrow> paper_error + paper_order option" where
  "plan_buy ps paused fresh now usd_fx dv ident effect_at c0 =
     (let market = fst (bc_key c0) in
      if paused \<or> market \<notin> set ACTIVE_MARKETS \<or> \<not> bc_live c0 then Inr None
      else
        let c = (case fresh of None \<Rightarrow> c0 | Some (price, as_of) \<Rightarrow> c0\<lparr>bc_price := price, bc_quote_at := Some as_of\<rparr>) in
        case bc_quote_at c of
          None \<Rightarrow> Inr None
        | Some as_of \<Rightarrow>
            if flt (ps_quote_max_age ps) (total_seconds (now - as_of)) then Inr None
            else if fle (dv_daily_return dv) (fneg (ps_daily_loss_percent ps)) then Inr None
            else
              let nav = dv_nav dv;
                  target = target_position_percent (bc_indicators c) (ps_max_position_percent ps);
                  capacity = entry_capacity_usd ps market dv in
              if flt capacity (fmul (fdiv (fmul nav MIN_POSITION_PERCENT) (Fin 100)) (flit 90 100)) then Inr None
              else
                let allocation = py_min capacity (fdiv (fmul nav target) (Fin 100));
                    fx = (if market = ''B3'' then fdiv (Fin 1) usd_fx else Fin 1);
                    fill = fmul (bc_price c) (fadd (Fin 1) (slippage_rate market));
                    precision = (if market = ''B3'' then 1 else 100) in
                case py_div allocation (fmul fill fx) of
                  None \<Rightarrow> Inl Zero_Division
                | Some units \<Rightarrow>
                    (case floor_over precision (fmul units (fint precision)) of
                       None \<Rightarrow> Inl No_Integer
                     | Some quantity \<Rightarrow>
                         if fle quantity (Fin 0) then Inr None
                         else
                           let ex = paper_buy_execution market (bc_price c) quantity fx in
                           case py_div (fadd (ex_gross ex) (ex_fees ex)) (fmul quantity fx) of
                             None \<Rightarrow> Inl Zero_Division
                           | Some average_cost \<Rightarrow>
                               let atr_percent = py_max (Fin 0) (float_or (dget (bc_indicators c) ''atr_percent'') (Fin 0));
                                   max_loss = py_max (ps_max_loss_percent ps) (py_min (flit 15 10) (fmul atr_percent (Fin 2)));
                                   stop = py_max (entry_stop_quote_price (bc_price c) (float_or (dget (bc_indicators c) ''atr'') (Fin 0)) (ps_max_loss_percent ps))
                                            (hard_stop_quote_price average_cost max_loss (slippage_rate market) (fee_rate market)) in
                               Inr (Some \<lparr>od_id = ident, od_key = bc_key c, od_side = Paper_Buy, od_quantity = quantity, od_fill = ex_fill ex, od_fx = fx,
                                     od_fees = ex_fees ex, od_stop = stop,
                                     od_atr_percent = float_or (dget (bc_indicators c) ''atr_percent'') (flit 15 10),
                                     od_rule = None, od_wind_down = False, od_at = effect_at\<rparr>)))"

section \<open>The fast risk watcher\<close>

definition quote_is_anomalous :: "book_position \<Rightarrow> pyfloat \<Rightarrow> bool" where
  "quote_is_anomalous p price \<longleftrightarrow>
     (if fle (bp_last p) (Fin 0) \<or> fle price (Fin 0) then True
      else
        let move = fmul (fabs (fsub (fdiv price (bp_last p)) (Fin 1))) (Fin 100);
            threshold = py_max (Fin 8) (fmul (bp_atr_percent p) (Fin 5)) in
        if fle move threshold then False
        else bp_pending_price p = Fin 0 \<or> flt (flit 12 1000) (fabs (fsub (fdiv price (bp_pending_price p)) (Fin 1))))"

datatype alert = Stale_Tick book_key | Missing_Hard_Stop book_key | Stale_Atr book_key

record watcher =
  wa_book :: paper_book
  wa_alerts :: "alert list"
  wa_seen :: "(book_key \<times> int) list"

definition raise_alert :: "alert \<Rightarrow> watcher \<Rightarrow> watcher" where
  "raise_alert a w = (if a \<in> set (wa_alerts w) then w else w\<lparr>wa_alerts := wa_alerts w @ [a]\<rparr>)"

definition drop_alert :: "alert \<Rightarrow> watcher \<Rightarrow> watcher" where
  "drop_alert a w = w\<lparr>wa_alerts := removeAll a (wa_alerts w)\<rparr>"

definition see_tick :: "book_key \<Rightarrow> int \<Rightarrow> watcher \<Rightarrow> watcher" where
  "see_tick k tick w = w\<lparr>wa_seen := AList.update k tick (wa_seen w)\<rparr>"

definition on_book :: "(paper_book \<Rightarrow> paper_book) \<Rightarrow> watcher \<Rightarrow> watcher" where
  "on_book f w = w\<lparr>wa_book := f (wa_book w)\<rparr>"

text \<open>What the watcher reads of one position's market: the stream's quote, the seconds to the close.\<close>

record tick_input =
  ti_quote :: "(pyfloat \<times> int) option"
  ti_to_close :: "pyfloat option"
  ti_trade_id :: string
  ti_effect_at :: int

text \<open>The rule a fresh tick meets before the Chandelier is looked at.\<close>

definition price_rule :: "pyfloat \<Rightarrow> pyfloat \<Rightarrow> pyfloat option \<Rightarrow> pyfloat \<Rightarrow> watch_rule option" where
  "price_rule price hard to_close net =
     (if fle price hard then Some Hard_Stop_Rule
      else case to_close of
             None \<Rightarrow> None
           | Some s \<Rightarrow> if fle (Fin 0) s \<and> fle s END_OF_DAY_PROFIT_EXIT_LEAD_SECONDS \<and> flt (Fin 0) net then Some End_Of_Day_Rule else None)"

definition chandelier_hit :: "pyfloat \<Rightarrow> book_position \<Rightarrow> bool" where
  "chandelier_hit price p \<longleftrightarrow> flt (Fin 0) (or0 (bp_chandelier p)) \<and> fle price (or0 (bp_chandelier p)) \<and> 2 \<le> bp_count p"

definition watch_exit :: "tick_input \<Rightarrow> book_key \<Rightarrow> pyfloat \<Rightarrow> int \<Rightarrow> watch_rule \<Rightarrow> book_position \<Rightarrow> watcher \<Rightarrow> paper_error + watcher" where
  "watch_exit io k price tick rule p w =
     ebind (paper_sell (ti_trade_id io) (ti_effect_at io) k price (bp_fx p) (Fin 1) (Some rule) False p (wa_book w))
       (\<lambda>b. Inr (see_tick k tick (w\<lparr>wa_book := b\<rparr>)))"

definition watch_position :: "paper_settings \<Rightarrow> int \<Rightarrow> tick_input \<Rightarrow> book_key \<times> book_position \<Rightarrow> watcher \<Rightarrow> paper_error + watcher" where
  "watch_position ps now io kp w =
     (case (kp, ti_quote io) of
        ((k, p), Some (price, tick)) \<Rightarrow>
          if fst k \<notin> set ACTIVE_MARKETS then Inr w
          else if flt (ps_tick_max_age ps) (py_max (Fin 0) (total_seconds (now - tick))) then Inr (raise_alert (Stale_Tick k) w)
          else
            let w = drop_alert (Stale_Tick k) w in
            if map_of (wa_seen w) k = Some tick \<or> quote_is_anomalous p price then Inr w
            else
              let hard = or0 (bp_hard p) in
              if fle hard (Fin 0) then Inr (raise_alert (Missing_Hard_Stop k) (on_book (change_position k (raise_high_water price)) w))
              else
                let w = drop_alert (Missing_Hard_Stop k) w; atr = or0 (bp_atr p);
                    atr_age = (case bp_atr_at p of None \<Rightarrow> PInf | Some t \<Rightarrow> py_max (Fin 0) (total_seconds (now - t)));
                    net = estimated_net_exit_pnl_percent price (bp_cost_local p) (slippage_rate (fst k)) (fee_rate (fst k)) in
                if bp_cost_local p = Fin 0 then Inl Zero_Division
                else case price_rule price hard (ti_to_close io) net of
                  Some rule \<Rightarrow> watch_exit io k price tick rule p w
                | None \<Rightarrow>
                    if fle atr (Fin 0) \<or> flt (ps_atr_max_age ps) atr_age
                    then Inr (raise_alert (Stale_Atr k) (on_book (change_position k (raise_high_water price)) w))
                    else
                      let w = on_book (change_position k (observe_tick price tick)) (drop_alert (Stale_Atr k) w) in
                      (case map_of (pb_positions (wa_book w)) k of
                         None \<Rightarrow> Inr w
                       | Some seen \<Rightarrow>
                           if chandelier_hit price seen then watch_exit io k price tick Chandelier_Rule p w
                           else Inr (see_tick k tick w))
      | _ \<Rightarrow> Inr w)"

text \<open>
  One cycle: \<open>allowed\<close> when a risk market is open, the stream exists and the risk lock was acquired; the
  positions as they were, in order, and a raised error ends the cycle.
\<close>

definition watcher_cycle :: "paper_settings \<Rightarrow> bool \<Rightarrow> int \<Rightarrow> (book_key \<Rightarrow> tick_input) \<Rightarrow> watcher \<Rightarrow> paper_error + watcher" where
  "watcher_cycle ps allowed now io w =
     (if pb_positions (wa_book w) = [] \<or> \<not> allowed then Inr w
      else efold (\<lambda>kp. watch_position ps now (io (fst kp)) kp) (pb_positions (wa_book w)) w)"

section \<open>Runs of the service\<close>

text \<open>The marks the two risk loops put on a position, and what a service run does to the book.\<close>

datatype mark =
    Market_Mark pyfloat pyfloat pyfloat pyfloat "(pyfloat \<times> pyfloat) option" bool
  | Anchor_Mark pyfloat pyfloat int
  | Tick_Mark pyfloat int
  | High_Mark pyfloat

fun mark_step :: "mark \<Rightarrow> book_position \<Rightarrow> book_position" where
  "mark_step (Market_Mark price fx high_water stop notes write_high) p = mark_position price fx high_water stop notes write_high p"
| "mark_step (Anchor_Mark atr hard_stop as_of) p = anchor_position atr hard_stop as_of p"
| "mark_step (Tick_Mark price tick) p = observe_tick price tick p"
| "mark_step (High_Mark price) p = raise_high_water price p"

datatype paper_op =
    Op_Buy bool "(pyfloat \<times> int) option" int pyfloat dashboard_view string int buy_candidate
  | Op_Sell string int book_key pyfloat pyfloat pyfloat "watch_rule option" bool
  | Op_Mark book_key mark

text \<open>An operation that raises leaves the book as it was: every check precedes the first write.\<close>

definition attempted :: "paper_book \<Rightarrow> paper_error + paper_book \<Rightarrow> paper_book" where
  "attempted b r = (case r of Inl e \<Rightarrow> b | Inr b' \<Rightarrow> b')"

fun service_step :: "paper_settings \<Rightarrow> paper_op \<Rightarrow> paper_book \<Rightarrow> paper_book" where
  "service_step ps (Op_Buy paused fresh now usd_fx dv ident effect_at c) b =
     (case plan_buy ps paused fresh now usd_fx dv ident effect_at c of
        Inr (Some od) \<Rightarrow> attempted b (execute_trade od b) | _ \<Rightarrow> b)"
| "service_step ps (Op_Sell ident effect_at k price fx wanted rule wind_down) b =
     (case map_of (pb_positions b) k of
        None \<Rightarrow> b | Some p \<Rightarrow> attempted b (paper_sell ident effect_at k price fx wanted rule wind_down p b))"
| "service_step ps (Op_Mark k m) b = change_position k (mark_step m) b"

definition opening_book :: "pyfloat \<Rightarrow> paper_book" where
  "opening_book cash = \<lparr>pb_cash = cash, pb_positions = [], pb_trades = []\<rparr>"

section \<open>Entry confirmation\<close>

record confirmation =
  cf_generation :: int
  cf_quote_at :: "int option"
  cf_reviews :: int

type_synonym confirmations = "(book_key \<times> confirmation) list"

text \<open>The key is upper-cased by the caller; a candidate's quote instant is \<open>None\<close> when it has no timestamp.\<close>

definition confirm_entry_setup :: "int \<Rightarrow> int \<Rightarrow> book_key \<Rightarrow> int option \<Rightarrow> confirmations \<Rightarrow> (int \<times> bool) \<times> confirmations" where
  "confirm_entry_setup required generation k quote cs =
     (let previous = map_of cs k;
          consecutive = (case previous of None \<Rightarrow> False | Some c \<Rightarrow> cf_generation c = generation - 1);
          previous_quote = Option.bind previous cf_quote_at;
          distinct_live = (case quote of None \<Rightarrow> False | Some q \<Rightarrow> (case previous_quote of None \<Rightarrow> True | Some q' \<Rightarrow> q' < q));
          before = (case previous of None \<Rightarrow> 0 | Some c \<Rightarrow> cf_reviews c);
          reviews = (if consecutive \<and> distinct_live then before + 1 else if consecutive then before else if quote \<noteq> None then 1 else 0) in
      ((reviews, max 1 required \<le> reviews),
       AList.update k \<lparr>cf_generation = generation, cf_quote_at = (case quote of None \<Rightarrow> previous_quote | Some q \<Rightarrow> Some q), cf_reviews = reviews\<rparr> cs))"

definition reset_entry_confirmation :: "book_key \<Rightarrow> confirmations \<Rightarrow> confirmations" where
  "reset_entry_confirmation k cs = AList.delete k cs"

definition expire_entry_confirmations :: "int \<Rightarrow> confirmations \<Rightarrow> confirmations" where
  "expire_entry_confirmations generation cs = filter (\<lambda>(k, c). cf_generation c = generation) cs"

section \<open>Episodes\<close>

record paper_episode =
  pe_quantity :: pyfloat
  pe_pnl :: pyfloat
  pe_excluded :: bool
  pe_first :: string

record closed_episode =
  ce_key :: book_key
  ce_first :: string
  ce_pnl :: pyfloat
  ce_at :: int

record episode_state =
  ep_open :: "(book_key \<times> paper_episode) list"
  ep_positive :: nat
  ep_negative :: nat
  ep_flat :: nat
  ep_closed :: "closed_episode list"

text \<open>\<open>executed_at.astimezone(SAO_PAULO).date()\<close>, the ordinal of the day three hours behind UTC.\<close>

definition sao_paulo_day :: "int \<Rightarrow> int" where
  "sao_paulo_day t = (t - 3 * 3600 * 1000000) div 86400000000"

definition trade_before :: "paper_trade \<Rightarrow> paper_trade \<Rightarrow> bool" where
  "trade_before a b \<longleftrightarrow> pt_at a < pt_at b \<or> pt_at a = pt_at b \<and> str_less (pt_id a) (pt_id b)"

fun insert_trade :: "paper_trade \<Rightarrow> paper_trade list \<Rightarrow> paper_trade list" where
  "insert_trade t [] = [t]"
| "insert_trade t (x # xs) = (if trade_before t x then t # x # xs else x # insert_trade t xs)"

definition by_execution :: "paper_trade list \<Rightarrow> paper_trade list" where
  "by_execution ts = foldl (\<lambda>acc t. insert_trade t acc) [] ts"

definition trade_is_corrected :: "paper_trade \<Rightarrow> bool" where "trade_is_corrected t = pt_corrected t"
definition trade_is_strategy_excluded :: "paper_trade \<Rightarrow> bool" where
  "trade_is_strategy_excluded t = (pt_corrected t \<or> pt_wind_down t)"

definition count_result :: "pyfloat \<Rightarrow> episode_state \<Rightarrow> episode_state" where
  "count_result pnl st =
     (if flt (Fin 0) pnl then st\<lparr>ep_positive := Suc (ep_positive st)\<rparr>
      else if flt pnl (Fin 0) then st\<lparr>ep_negative := Suc (ep_negative st)\<rparr>
      else st\<lparr>ep_flat := Suc (ep_flat st)\<rparr>)"

definition close_episode :: "int \<Rightarrow> paper_trade \<Rightarrow> paper_episode \<Rightarrow> episode_state \<Rightarrow> episode_state" where
  "close_episode day t e st =
     (let st = (if \<not> pe_excluded e \<and> sao_paulo_day (pt_at t) = day
                then (count_result (pe_pnl e) st)\<lparr>ep_closed := ep_closed st @
                       [\<lparr>ce_key = pt_key t, ce_first = pe_first e, ce_pnl = py_round 6 (pe_pnl e), ce_at = pt_at t\<rparr>]\<rparr>
                else st) in
      st\<lparr>ep_open := AList.delete (pt_key t) (ep_open st)\<rparr>)"

definition episode_buy :: "paper_trade \<Rightarrow> episode_state \<Rightarrow> episode_state" where
  "episode_buy t st =
     (let e = (case map_of (ep_open st) (pt_key t) of
                 None \<Rightarrow> \<lparr>pe_quantity = Fin 0, pe_pnl = Fin 0, pe_excluded = False, pe_first = pt_id t\<rparr> | Some e \<Rightarrow> e) in
      st\<lparr>ep_open := AList.update (pt_key t) (e\<lparr>pe_quantity := fadd (pe_quantity e) (pt_quantity t),
           pe_excluded := pe_excluded e \<or> trade_is_strategy_excluded t\<rparr>) (ep_open st)\<rparr>)"

definition episode_sell :: "int \<Rightarrow> paper_trade \<Rightarrow> episode_state \<Rightarrow> paper_error + episode_state" where
  "episode_sell day t st =
     (case map_of (ep_open st) (pt_key t) of
        None \<Rightarrow> if trade_is_corrected t then Inr st else Inl Flat_Sell
      | Some e \<Rightarrow>
          if flt (fadd (pe_quantity e) (fl (1 / 10 ^ 6))) (pt_quantity t) then Inl Excess_Sell
          else
            let e = e\<lparr>pe_quantity := py_max (Fin 0) (fsub (pe_quantity e) (pt_quantity t)),
                      pe_pnl := (if trade_is_corrected t then pe_pnl e else fadd (pe_pnl e) (or0 (pt_realized t))),
                      pe_excluded := pe_excluded e \<or> trade_is_strategy_excluded t\<rparr> in
            if flt (fl (1 / 10 ^ 6)) (pe_quantity e) then Inr (st\<lparr>ep_open := AList.update (pt_key t) e (ep_open st)\<rparr>)
            else Inr (close_episode day t e st))"

definition episode_step :: "int \<Rightarrow> paper_trade \<Rightarrow> episode_state \<Rightarrow> paper_error + episode_state" where
  "episode_step day t st =
     (if fle (pt_quantity t) (Fin 0) then Inl Bad_Quantity
      else case pt_side t of Paper_Buy \<Rightarrow> Inr (episode_buy t st) | Paper_Sell \<Rightarrow> episode_sell day t st)"

definition no_episodes :: episode_state where
  "no_episodes = \<lparr>ep_open = [], ep_positive = 0, ep_negative = 0, ep_flat = 0, ep_closed = []\<rparr>"

definition episode_summary :: "paper_trade list \<Rightarrow> int \<Rightarrow> paper_error + episode_state" where
  "episode_summary trades day = efold (episode_step day) (by_execution trades) no_episodes"

definition win_rate_percent :: "episode_state \<Rightarrow> pyfloat" where
  "win_rate_percent st =
     (let decided = ep_positive st + ep_negative st in
      if decided = 0 then Fin 0 else py_round 2 (fmul (flit (int (ep_positive st)) (int decided)) (Fin 100)))"

section \<open>Realized results by session\<close>

definition add_bucket :: "int \<Rightarrow> pyfloat \<Rightarrow> (int \<times> pyfloat) list \<Rightarrow> (int \<times> pyfloat) list" where
  "add_bucket day v m = AList.update day (fadd (case map_of m day of None \<Rightarrow> Fin 0 | Some x \<Rightarrow> x) v) m"

definition realized_pnl_by_session :: "paper_trade list \<Rightarrow> (int \<times> pyfloat) list" where
  "realized_pnl_by_session trades =
     sort_key fst (fold (\<lambda>t m. case (pt_side t, pt_realized t) of
         (Paper_Sell, Some v) \<Rightarrow> if trade_is_corrected t then m else add_bucket (sao_paulo_day (pt_at t)) v m
       | _ \<Rightarrow> m) trades [])"

definition symbol_in_cooldown :: "book_key \<Rightarrow> int \<Rightarrow> paper_book \<Rightarrow> bool" where
  "symbol_in_cooldown k since b \<longleftrightarrow> list_ex (\<lambda>t. pt_key t = k \<and> since \<le> pt_at t) (pb_trades b)"

definition loss_exit_on_session :: "book_key \<Rightarrow> int \<Rightarrow> paper_book \<Rightarrow> bool" where
  "loss_exit_on_session k day b \<longleftrightarrow>
     list_ex (\<lambda>t. pt_key t = k \<and> pt_side t = Paper_Sell \<and> sao_paulo_day (pt_at t) = day \<and> fle (or0 (pt_realized t)) (Fin 0)
        \<and> \<not> trade_is_strategy_excluded t) (pb_trades b)"

record track_row =
  tr_day :: int
  tr_nav :: pyfloat
  tr_cumulative :: pyfloat
  tr_pnl :: pyfloat
  tr_return :: pyfloat
  tr_final :: bool

definition track_step :: "(int \<times> bool) list \<Rightarrow> (int \<times> pyfloat) list \<Rightarrow> pyfloat \<Rightarrow> int \<Rightarrow> pyfloat \<times> track_row list \<Rightarrow> pyfloat \<times> track_row list" where
  "track_step snapshots realized start day acc =
     (case acc of (nav, rows) \<Rightarrow>
        let pnl = py_round 2 (case map_of realized day of None \<Rightarrow> Fin 0 | Some v \<Rightarrow> v); nav' = py_round 2 (fadd nav pnl) in
        (nav', rows @ [\<lparr>tr_day = day, tr_nav = nav', tr_cumulative = py_round 2 (fsub nav' start), tr_pnl = pnl,
           tr_return = (if nav = Fin 0 then Fin 0 else fmul (fdiv pnl nav) (Fin 100)),
           tr_final = (case map_of snapshots day of None \<Rightarrow> False | Some f \<Rightarrow> f)\<rparr>]))"

definition realized_daily_track :: "(int \<times> bool) list \<Rightarrow> (int \<times> pyfloat) list \<Rightarrow> pyfloat \<Rightarrow> int option \<Rightarrow> track_row list" where
  "realized_daily_track snapshots realized start through =
     (let snaps = rev (filter (\<lambda>(d, v). case through of None \<Rightarrow> True | Some t \<Rightarrow> d \<le> t) snapshots);
          pnls = rev (filter (\<lambda>(d, v). case through of None \<Rightarrow> True | Some t \<Rightarrow> d \<le> t) realized) in
      snd (fold (track_step snaps pnls start) (sorted_list_of_set (set (map fst snaps) \<union> set (map fst pnls))) (py_round 2 start, [])))"

end
