(* ===== verification/PaperBookSafety.thy ===== *)
theory PaperBookSafety
  imports PaperBook "HOL-Library.Sublist"
begin

text \<open>
  What the R2D2 paper service promises: its stops never fall and the Chandelier needs as many distinct ticks
  as it counts; the fast watcher sells for a cause; the ledger it writes is one the episodes accept.
\<close>

section \<open>Stops under marks\<close>

text \<open>The values a mark starts from are numbers.\<close>

definition stops_numbers :: "book_position \<Rightarrow> bool" where
  "stops_numbers p \<longleftrightarrow> bp_high p \<noteq> NaN \<and> or0 (bp_hard p) \<noteq> NaN \<and> or0 (bp_chandelier p) \<noteq> NaN"

definition stops_below :: "book_position \<Rightarrow> book_position \<Rightarrow> bool" where
  "stops_below p q \<longleftrightarrow> fle (bp_high p) (bp_high q) \<and> fle (or0 (bp_hard p)) (or0 (bp_hard q)) \<and> fle (or0 (bp_chandelier p)) (or0 (bp_chandelier q))"

lemma or0_Some [simp]: "or0 (Some x) = x"
  by (simp add: or0_def)

lemmas mark_defs = mark_position_def anchor_position_def observe_tick_def confirm_tick_def raise_chandelier_def raise_high_water_def chandelier_of_def Let_def

lemma mark_keeps_numbers: "stops_numbers p \<Longrightarrow> stops_numbers (mark_step m p)"
  by (cases m) (auto simp: stops_numbers_def mark_defs py_max_number)

lemma mark_raises_stops: "stops_numbers p \<Longrightarrow> stops_below p (mark_step m p)"
  by (cases m) (auto simp: stops_numbers_def stops_below_def mark_defs py_max_number py_max_ge1 fle_refl_iff)

lemma stops_below_trans: "stops_below p q \<Longrightarrow> stops_below q r \<Longrightarrow> stops_below p r"
  by (auto simp: stops_below_def intro: fle_trans)

lemma marks_keep_numbers: "stops_numbers p \<Longrightarrow> stops_numbers (run_ops mark_step ms p)"
  by (rule run_ops_invariant) (auto intro: mark_keeps_numbers)

lemma stops_below_refl: "stops_numbers p \<Longrightarrow> stops_below p p"
  by (simp add: stops_below_def stops_numbers_def fle_refl_iff)

theorem stops_never_fall: "stops_numbers p \<Longrightarrow> stops_below p (run_ops mark_step ms p)"
proof (induction ms arbitrary: p)
  case (Cons m ms)
  then show ?case using mark_keeps_numbers mark_raises_stops stops_below_trans by fastforce
qed (simp add: stops_below_refl)

section \<open>The Chandelier's confirmations\<close>

fun observed :: "mark list \<Rightarrow> (pyfloat \<times> int) list" where
  "observed [] = []"
| "observed (Tick_Mark price tick # ms) = (price, tick) # observed ms"
| "observed (_ # ms) = observed ms"

lemma observed_append [simp]: "observed (xs @ ys) = observed xs @ observed ys"
  by (induction xs rule: observed.induct) auto

text \<open>
  The evidence of a count: the marks since some point hold that many ticks, at strictly later instants, each at
  or below the stop; none since then was above it.
\<close>

definition confirmed_by :: "mark list \<Rightarrow> book_position \<Rightarrow> bool" where
  "confirmed_by ms p \<longleftrightarrow>
     (\<exists>before since ticks. ms = before @ since \<and> subseq ticks (observed since) \<and> length ticks = bp_count p
        \<and> sorted_wrt (<) (map snd ticks) \<and> (\<forall>t\<in>set ticks. fle (fst t) (or0 (bp_chandelier p)))
        \<and> (ticks \<noteq> [] \<longrightarrow> bp_confirmed_at p = Some (snd (last ticks)))
        \<and> (\<forall>t\<in>set (observed since). \<not> flt (or0 (bp_chandelier p)) (fst t)))"

definition armed :: "book_position \<Rightarrow> bool" where
  "armed p \<longleftrightarrow> stops_numbers p \<and> (bp_count p \<noteq> 0 \<longrightarrow> flt (Fin 0) (or0 (bp_chandelier p)))"

lemma mark_keeps_armed: "armed p \<Longrightarrow> armed (mark_step m p)"
  using mark_keeps_numbers [of p m] mark_raises_stops [of p m]
  by (cases m) (auto simp: armed_def stops_below_def mark_defs intro: flt_fle_trans split: if_splits)

text \<open>A later, higher stop keeps the evidence.\<close>

lemma confirmed_later:
  assumes "confirmed_by ms p" and "stops_below p q" and "bp_count q = bp_count p" and "bp_confirmed_at q = bp_confirmed_at p"
    and "\<forall>t\<in>set (observed new). \<not> flt (or0 (bp_chandelier q)) (fst t)"
  shows "confirmed_by (ms @ new) q"
proof -
  have up: "fle (or0 (bp_chandelier p)) (or0 (bp_chandelier q))" using assms(2) by (simp add: stops_below_def)
  from assms(1) obtain before since ticks where e: "ms = before @ since" "subseq ticks (observed since)" "length ticks = bp_count p"
      "sorted_wrt (<) (map snd ticks)" "\<forall>t\<in>set ticks. fle (fst t) (or0 (bp_chandelier p))"
      "ticks \<noteq> [] \<longrightarrow> bp_confirmed_at p = Some (snd (last ticks))" "\<forall>t\<in>set (observed since). \<not> flt (or0 (bp_chandelier p)) (fst t)"
    unfolding confirmed_by_def by blast
  have "ms @ new = before @ since @ new" using e(1) by simp
  moreover have "subseq ticks (observed (since @ new))" using e(2) list_emb_append_mono [of _ ticks "observed since" "[]" "observed new"] by simp
  moreover have "\<forall>t\<in>set (observed (since @ new)). \<not> flt (or0 (bp_chandelier q)) (fst t)"
    using e(7) assms(5) up by (auto dest: fle_flt_trans)
  moreover have "\<forall>t\<in>set ticks. fle (fst t) (or0 (bp_chandelier q))" using e(5) up by (auto intro: fle_trans)
  ultimately show ?thesis unfolding confirmed_by_def using e(3,4,6) assms(3,4) by metis
qed

text \<open>Clearing the count starts the evidence again.\<close>

lemma confirmed_cleared: "bp_count q = 0 \<Longrightarrow> confirmed_by ms q"
  unfolding confirmed_by_def by (intro exI [of _ ms] exI [of _ "[]"]) simp

text \<open>A counted tick extends it.\<close>

lemma confirmed_counted:
  assumes "confirmed_by ms p" and "stops_below p q" and "bp_count q = Suc (bp_count p)" and "bp_confirmed_at q = Some tick"
    and "fle price (or0 (bp_chandelier q))" and "bp_confirmed_at p = None \<or> (\<exists>t. bp_confirmed_at p = Some t \<and> t < tick)"
  shows "confirmed_by (ms @ [Tick_Mark price tick]) q"
proof -
  have up: "fle (or0 (bp_chandelier p)) (or0 (bp_chandelier q))" using assms(2) by (simp add: stops_below_def)
  from assms(1) obtain before since ticks where e: "ms = before @ since" "subseq ticks (observed since)" "length ticks = bp_count p"
      "sorted_wrt (<) (map snd ticks)" "\<forall>t\<in>set ticks. fle (fst t) (or0 (bp_chandelier p))"
      "ticks \<noteq> [] \<longrightarrow> bp_confirmed_at p = Some (snd (last ticks))" "\<forall>t\<in>set (observed since). \<not> flt (or0 (bp_chandelier p)) (fst t)"
    unfolding confirmed_by_def by blast
  let ?since = "since @ [Tick_Mark price tick]" and ?ticks = "ticks @ [(price, tick)]"
  have below: "snd t < tick" if "t \<in> set ticks" for t
  proof -
    have "ticks \<noteq> []" using that by auto
    then obtain ts l where l: "ticks = ts @ [l]" by (metis rev_exhaust)
    have "snd l < tick" using e(6) assms(6) l by auto
    then show ?thesis using that e(4) l by (auto simp: sorted_wrt_append)
  qed
  have "ms @ [Tick_Mark price tick] = before @ ?since" using e(1) by simp
  moreover have "subseq ?ticks (observed ?since)" using e(2) by (simp add: list_emb_append_mono)
  moreover have "sorted_wrt (<) (map snd ?ticks)" using e(4) below by (auto simp: sorted_wrt_append)
  moreover have "\<forall>t\<in>set ?ticks. fle (fst t) (or0 (bp_chandelier q))" using e(5) up assms(5) by (auto intro: fle_trans)
  moreover have "\<forall>t\<in>set (observed ?since). \<not> flt (or0 (bp_chandelier q)) (fst t)"
    using e(7) up assms(5) by (auto dest: fle_flt_trans flt_not_fle)
  moreover have "length ?ticks = bp_count q" "bp_confirmed_at q = Some (snd (last ?ticks))" using e(3) assms(3,4) by simp_all
  ultimately show ?thesis unfolding confirmed_by_def by metis
qed

text \<open>An observed tick is counted, clears the count, or leaves it and is not above a stop in force.\<close>

lemma observe_cases:
  obtains (counted) "bp_count (observe_tick price tick p) = Suc (bp_count p)" "bp_confirmed_at (observe_tick price tick p) = Some tick"
      "fle price (or0 (bp_chandelier (observe_tick price tick p)))"
      "bp_confirmed_at p = None \<or> (\<exists>t. bp_confirmed_at p = Some t \<and> t < tick)"
    | (cleared) "bp_count (observe_tick price tick p) = 0"
    | (kept) "bp_count (observe_tick price tick p) = bp_count p" "bp_confirmed_at (observe_tick price tick p) = bp_confirmed_at p"
        "\<not> (flt (Fin 0) (or0 (bp_chandelier (observe_tick price tick p))) \<and> flt (or0 (bp_chandelier (observe_tick price tick p))) price)"
proof -
  let ?r = "raise_chandelier (raise_high_water price p)"
  have same: "bp_count ?r = bp_count p" "bp_confirmed_at ?r = bp_confirmed_at p"
    by (simp_all add: raise_chandelier_def raise_high_water_def)
  let ?hit = "flt (Fin 0) (or0 (bp_chandelier ?r)) \<and> fle price (or0 (bp_chandelier ?r))
    \<and> (case bp_confirmed_at ?r of None \<Rightarrow> True | Some t \<Rightarrow> t < tick)"
  let ?above = "flt (Fin 0) (or0 (bp_chandelier ?r)) \<and> flt (or0 (bp_chandelier ?r)) price"
  have split: "observe_tick price tick p =
      (if ?hit then ?r\<lparr>bp_count := Suc (bp_count ?r), bp_confirmed_at := Some tick\<rparr>
       else if ?above then ?r\<lparr>bp_count := 0, bp_confirmed_at := None\<rparr> else ?r)"
    by (simp only: observe_tick_def confirm_tick_def Let_def)
  show ?thesis
  proof (cases ?hit)
    case True
    then show ?thesis using counted same unfolding split by (auto split: option.splits)
  next
    case no: False
    show ?thesis
    proof (cases ?above)
      case True
      then have "bp_count (observe_tick price tick p) = 0" unfolding split if_not_P [OF no] if_P [OF True] by simp
      then show ?thesis by (rule cleared)
    next
      case False
      have "observe_tick price tick p = ?r" unfolding split if_not_P [OF no] if_not_P [OF False] ..
      then show ?thesis using kept same False by presburger
    qed
  qed
qed

lemma mark_keeps_evidence:
  assumes "armed p" and "confirmed_by ms p"
  shows "confirmed_by (ms @ [m]) (mark_step m p)"
proof -
  note up = mark_raises_stops [of p m]
  have numbers: "stops_numbers p" and armed: "bp_count p \<noteq> 0 \<Longrightarrow> flt (Fin 0) (or0 (bp_chandelier p))"
    using assms(1) by (simp_all add: armed_def)
  show ?thesis
  proof (cases m)
    case (Tick_Mark price tick)
    let ?q = "observe_tick price tick p"
    have up: "stops_below p ?q" using mark_raises_stops [OF numbers, of m] Tick_Mark by simp
    show ?thesis
    proof (cases rule: observe_cases [of price tick p])
      case counted
      then show ?thesis using confirmed_counted [OF assms(2) up] Tick_Mark by simp
    next
      case cleared
      then show ?thesis using confirmed_cleared Tick_Mark by simp
    next
      case kept
      show ?thesis
      proof (cases "bp_count p = 0")
        case True
        then show ?thesis using kept confirmed_cleared Tick_Mark by simp
      next
        case False
        then have "flt (Fin 0) (or0 (bp_chandelier ?q))" using armed up by (auto simp: stops_below_def intro: flt_fle_trans)
        then show ?thesis using confirmed_later [OF assms(2) up kept(1,2), of "[m]"] kept(3) Tick_Mark by simp
      qed
    qed
  qed (use confirmed_later [OF assms(2) up [OF numbers], of "[m]"] in \<open>auto simp: mark_defs\<close>)
qed

lemma marks_keep_evidence: "armed p \<Longrightarrow> confirmed_by ms p \<Longrightarrow> confirmed_by (ms @ new) (run_ops mark_step new p)"
proof (induction new arbitrary: ms p)
  case (Cons m new)
  then show ?case using mark_keeps_armed [of p m] mark_keeps_evidence [of p ms m] Cons.IH [of "mark_step m p" "ms @ [m]"] by simp
qed simp

text \<open>
  C8: A Chandelier exit has its ticks.  Whatever marks the two risk loops put on a position that starts
  unconfirmed, a count of \<open>n\<close> stands on \<open>n\<close> observed ticks at strictly later instants, each at or below the
  stop, with no observed tick above the stop since the marks they are taken from; and neither the high water
  nor the hard stop nor the Chandelier stop has fallen.
\<close>

theorem chandelier_needs_two_ticks:
  assumes "stops_numbers p" and "bp_count p = 0" and "n \<le> bp_count (run_ops mark_step ms p)"
  shows "\<exists>before since ticks. ms = before @ since \<and> subseq ticks (observed since) \<and> length ticks = n \<and> sorted_wrt (<) (map snd ticks)
    \<and> (\<forall>t\<in>set ticks. fle (fst t) (or0 (bp_chandelier (run_ops mark_step ms p))))
    \<and> (\<forall>t\<in>set (observed since). \<not> flt (or0 (bp_chandelier (run_ops mark_step ms p))) (fst t))
    \<and> stops_below p (run_ops mark_step ms p)"
proof -
  let ?q = "run_ops mark_step ms p"
  have "confirmed_by ms ?q"
    using marks_keep_evidence [of p "[]" ms] assms(1,2) confirmed_cleared [of p "[]"] by (simp add: armed_def)
  then obtain before since ticks where e: "ms = before @ since" "subseq ticks (observed since)" "length ticks = bp_count ?q"
      "sorted_wrt (<) (map snd ticks)" "\<forall>t\<in>set ticks. fle (fst t) (or0 (bp_chandelier ?q))"
      "\<forall>t\<in>set (observed since). \<not> flt (or0 (bp_chandelier ?q)) (fst t)"
    unfolding confirmed_by_def by blast
  have "subseq (take n ticks) (observed since)" using subseq_order.order_trans [OF prefix_imp_subseq [OF take_is_prefix] e(2)] .
  moreover have "length (take n ticks) = n" using e(3) assms(3) by simp
  moreover have "sorted_wrt (<) (map snd (take n ticks))" using e(4) by (simp add: take_map [symmetric] sorted_wrt_take)
  moreover have "\<forall>t\<in>set (take n ticks). fle (fst t) (or0 (bp_chandelier ?q))" using e(5) by (meson in_set_takeD)
  ultimately show ?thesis using e(1,6) stops_never_fall [OF assms(1)] by blast
qed

section \<open>The fast watcher\<close>

lemmas watcher_defs = raise_alert_def drop_alert_def see_tick_def on_book_def

lemma watch_book_simps [simp]:
  "wa_book (raise_alert a w) = wa_book w" "wa_book (drop_alert a w) = wa_book w" "wa_book (see_tick k tick w) = wa_book w"
  "wa_book (on_book f w) = f (wa_book w)" "wa_seen (raise_alert a w) = wa_seen w" "wa_seen (drop_alert a w) = wa_seen w"
  "wa_seen (on_book f w) = wa_seen w" "wa_seen (see_tick k tick w) = AList.update k tick (wa_seen w)"
  by (simp_all add: watcher_defs)

lemma change_position_trades [simp]: "pb_trades (change_position k f b) = pb_trades b" "pb_cash (change_position k f b) = pb_cash b"
  by (simp_all add: change_position_def split: option.splits)

lemma map_of_change_position:
  "map_of (pb_positions (change_position k f b)) i =
     (if i = k then map_option f (map_of (pb_positions b) k) else map_of (pb_positions b) i)"
  by (simp add: change_position_def update_conv' split: option.splits)

lemma paper_sell_trade:
  assumes "paper_sell ident effect_at k price fx wanted rule wind_down p b = Inr b'"
  shows "\<exists>t. pb_trades b' = pb_trades b @ [t] \<and> pt_key t = k \<and> pt_side t = Paper_Sell \<and> pt_rule t = rule
    \<and> sell_quantity (bp_quantity p) wanted = Some (pt_quantity t)"
  using assms unfolding paper_sell_def execute_trade_def execute_sell_def
  by (auto simp: Let_def order_trade_def split: option.splits if_splits)

lemma watch_exit_trade:
  assumes "watch_exit io k price tick rule p w = Inr w'"
  shows "\<exists>t. pb_trades (wa_book w') = pb_trades (wa_book w) @ [t] \<and> pt_key t = k \<and> pt_side t = Paper_Sell \<and> pt_rule t = Some rule
    \<and> map_of (wa_seen w') k = Some tick"
proof -
  obtain b where b: "paper_sell (ti_trade_id io) (ti_effect_at io) k price (bp_fx p) (Fin 1) (Some rule) False p (wa_book w) = Inr b"
    "w' = see_tick k tick (w\<lparr>wa_book := b\<rparr>)"
    using assms unfolding watch_exit_def by (auto elim: ebind_Inr)
  from paper_sell_trade [OF b(1)] show ?thesis unfolding b(2) by (simp add: update_conv') blast
qed

text \<open>When a rule may sell.\<close>

definition exit_cause :: "paper_settings \<Rightarrow> int \<Rightarrow> tick_input \<Rightarrow> pyfloat \<Rightarrow> int \<Rightarrow> watch_rule \<Rightarrow> book_key \<Rightarrow> book_position \<Rightarrow> paper_book \<Rightarrow> bool" where
  "exit_cause ps now io price tick rule k p b =
     (case rule of
        Hard_Stop_Rule \<Rightarrow> fle price (or0 (bp_hard p))
      | End_Of_Day_Rule \<Rightarrow>
          (\<exists>s. ti_to_close io = Some s \<and> fle (Fin 0) s \<and> fle s END_OF_DAY_PROFIT_EXIT_LEAD_SECONDS)
          \<and> flt (Fin 0) (estimated_net_exit_pnl_percent price (bp_cost_local p) (slippage_rate (fst k)) (fee_rate (fst k)))
      | Chandelier_Rule \<Rightarrow>
          \<not> fle (or0 (bp_atr p)) (Fin 0)
          \<and> (\<exists>t. bp_atr_at p = Some t \<and> \<not> flt (ps_atr_max_age ps) (py_max (Fin 0) (total_seconds (now - t))))
          \<and> (\<exists>q. map_of (pb_positions b) k = Some q \<and> chandelier_hit price (observe_tick price tick q)))"

lemma price_rule_cause:
  assumes "price_rule price (or0 (bp_hard p)) (ti_to_close io)
      (estimated_net_exit_pnl_percent price (bp_cost_local p) (slippage_rate (fst k)) (fee_rate (fst k))) = Some rule"
  shows "exit_cause ps now io price tick rule k p b"
  using assms by (auto simp: price_rule_def exit_cause_def split: if_splits option.splits)

text \<open>What a position that reached the rules met.\<close>

definition watch_guards :: "paper_settings \<Rightarrow> int \<Rightarrow> tick_input \<Rightarrow> pyfloat \<Rightarrow> int \<Rightarrow> book_key \<Rightarrow> book_position \<Rightarrow> watcher \<Rightarrow> bool" where
  "watch_guards ps now io price tick k p w \<longleftrightarrow>
     ti_quote io = Some (price, tick) \<and> fst k \<in> set ACTIVE_MARKETS
     \<and> \<not> flt (ps_tick_max_age ps) (py_max (Fin 0) (total_seconds (now - tick)))
     \<and> map_of (wa_seen w) k \<noteq> Some tick \<and> \<not> quote_is_anomalous p price
     \<and> \<not> fle (or0 (bp_hard p)) (Fin 0) \<and> bp_cost_local p \<noteq> Fin 0"

definition net_exit :: "pyfloat \<Rightarrow> book_key \<Rightarrow> book_position \<Rightarrow> pyfloat" where
  "net_exit price k p = estimated_net_exit_pnl_percent price (bp_cost_local p) (slippage_rate (fst k)) (fee_rate (fst k))"

definition atr_is_stale :: "paper_settings \<Rightarrow> int \<Rightarrow> book_position \<Rightarrow> bool" where
  "atr_is_stale ps now p \<longleftrightarrow> fle (or0 (bp_atr p)) (Fin 0)
     \<or> flt (ps_atr_max_age ps) (case bp_atr_at p of None \<Rightarrow> PInf | Some t \<Rightarrow> py_max (Fin 0) (total_seconds (now - t)))"

lemma watch_position_guarded:
  assumes "watch_guards ps now io price tick k p w"
  shows "watch_position ps now io (k, p) w =
    (let w = drop_alert (Missing_Hard_Stop k) (drop_alert (Stale_Tick k) w) in
     case price_rule price (or0 (bp_hard p)) (ti_to_close io) (net_exit price k p) of
       Some rule \<Rightarrow> watch_exit io k price tick rule p w
     | None \<Rightarrow>
         if atr_is_stale ps now p then Inr (raise_alert (Stale_Atr k) (on_book (change_position k (raise_high_water price)) w))
         else
           let w = on_book (change_position k (observe_tick price tick)) (drop_alert (Stale_Atr k) w) in
           (case map_of (pb_positions (wa_book w)) k of
              None \<Rightarrow> Inr w
            | Some seen \<Rightarrow>
                if chandelier_hit price seen then watch_exit io k price tick Chandelier_Rule p w else Inr (see_tick k tick w)))"
  using assms unfolding watch_guards_def net_exit_def atr_is_stale_def watch_position_def
  by (simp add: Let_def)

lemma watch_position_unguarded:
  assumes "watch_position ps now io (k, p) w = Inr w'" and "\<nexists>price tick. watch_guards ps now io price tick k p w"
  shows "pb_trades (wa_book w') = pb_trades (wa_book w)"
proof (cases "ti_quote io")
  case None
  then show ?thesis using assms(1) by (simp add: watch_position_def)
next
  case (Some q)
  then obtain price tick where q: "ti_quote io = Some (price, tick)" by (cases q) auto
  then have "\<not> watch_guards ps now io price tick k p w" using assms(2) by blast
  then show ?thesis using assms(1) q unfolding watch_guards_def watch_position_def
    by (auto simp: Let_def drop_alert_def raise_alert_def on_book_def split: if_splits)
qed

text \<open>
  C9: The fast watcher sells for a cause.  A trade appears only on a fresh tick not seen before, of an active
  market, not anomalous against the last price, under a positive hard stop; it is one sale of that position
  by one rule, the rule's condition held, and the tick is then remembered.
\<close>

theorem fast_exit_needs_cause:
  assumes "watch_position ps now io (k, p) w = Inr w'" and "pb_trades (wa_book w') \<noteq> pb_trades (wa_book w)"
    and "ps_atr_max_age ps = Fin limit"
  shows "\<exists>price tick rule t. watch_guards ps now io price tick k p w
    \<and> pb_trades (wa_book w') = pb_trades (wa_book w) @ [t] \<and> pt_key t = k \<and> pt_side t = Paper_Sell \<and> pt_rule t = Some rule
    \<and> exit_cause ps now io price tick rule k p (wa_book w) \<and> map_of (wa_seen w') k = Some tick"
proof -
  obtain price tick where g: "watch_guards ps now io price tick k p w" using watch_position_unguarded assms(1,2) by blast
  let ?w = "drop_alert (Missing_Hard_Stop k) (drop_alert (Stale_Tick k) w)"
  note run = assms(1) [unfolded watch_position_guarded [OF g] Let_def]
  show ?thesis
  proof (cases "price_rule price (or0 (bp_hard p)) (ti_to_close io) (net_exit price k p)")
    case (Some rule)
    then have "watch_exit io k price tick rule p ?w = Inr w'" using run by simp
    from watch_exit_trade [OF this] price_rule_cause [of price p io k] Some show ?thesis using g by (fastforce simp: net_exit_def)
  next
    case None
    let ?v = "on_book (change_position k (observe_tick price tick)) (drop_alert (Stale_Atr k) ?w)"
    have fresh: "\<not> atr_is_stale ps now p" using run None assms(2) by (auto split: if_splits)
    then obtain q where q: "map_of (pb_positions (wa_book ?v)) k = Some q" "chandelier_hit price q"
        "watch_exit io k price tick Chandelier_Rule p ?v = Inr w'"
      using run None assms(2) by (auto split: option.splits if_splits)
    obtain s where "map_of (pb_positions (wa_book w)) k = Some s" "q = observe_tick price tick s"
      using q(1) by (auto simp: map_of_change_position)
    then have "exit_cause ps now io price tick Chandelier_Rule k p (wa_book w)"
      using q(2) fresh assms(3) by (auto simp: exit_cause_def atr_is_stale_def split: option.splits)
    then show ?thesis using watch_exit_trade [OF q(3)] g by fastforce
  qed
qed

section \<open>A sample watcher\<close>

definition paper_sample_settings :: paper_settings where
  "paper_sample_settings = \<lparr>ps_max_position_percent = Fin 10, ps_max_market_percent = Fin 60, ps_max_gross_percent = Fin 95, ps_min_cash_percent = Fin 5,
     ps_max_cash_percent = Fin 20, ps_daily_loss_percent = Fin 2, ps_max_loss_percent = Fin 1, ps_quote_max_age = Fin 60, ps_tick_max_age = Fin 5,
     ps_atr_max_age = Fin 600, ps_confirmation_reviews = 2\<rparr>"

definition paper_sample_key :: book_key where "paper_sample_key = (''NYSE'', ''KO'')"

definition paper_sample_position :: book_position where
  "paper_sample_position = \<lparr>bp_quantity = Fin 10, bp_cost_local = Fin 100, bp_cost_usd = Fin 100, bp_last = Fin 100, bp_fx = Fin 1, bp_high = Fin 100,
     bp_stop = Fin 97, bp_hard = Some (Fin 97), bp_atr = None, bp_atr_at = None, bp_chandelier = None, bp_count = 0, bp_confirmed_at = None,
     bp_opened = 0, bp_atr_percent = Fin 1, bp_pending_price = Fin 0\<rparr>"

definition paper_sample_watcher :: watcher where
  "paper_sample_watcher = \<lparr>wa_book = \<lparr>pb_cash = Fin 1000, pb_positions = [(paper_sample_key, paper_sample_position)], pb_trades = []\<rparr>, wa_alerts = [], wa_seen = []\<rparr>"

definition paper_sample_tick :: tick_input where
  "paper_sample_tick = \<lparr>ti_quote = Some (Fin 96, 9000000), ti_to_close = None, ti_trade_id = ''t1'', ti_effect_at = 10000001\<rparr>"

lemma paper_sample_guards: "watch_guards paper_sample_settings 10000000 paper_sample_tick (Fin 96) 9000000 paper_sample_key paper_sample_position paper_sample_watcher"
  unfolding watch_guards_def by code_simp

lemma paper_sample_position_fields: "map_of (pb_positions (wa_book paper_sample_watcher)) paper_sample_key = Some paper_sample_position"
  "bp_quantity paper_sample_position = Fin 10" "or0 (bp_hard paper_sample_position) = Fin 97" "pb_trades (wa_book paper_sample_watcher) = []"
  by (simp_all add: paper_sample_watcher_def paper_sample_position_def)

lemma paper_sample_watched:
  "(case watch_position paper_sample_settings 10000000 paper_sample_tick (paper_sample_key, paper_sample_position) paper_sample_watcher of
     Inl e \<Rightarrow> [] | Inr w' \<Rightarrow> map (\<lambda>t. (pt_rule t, pt_quantity t)) (pb_trades (wa_book w'))) = [(Some Hard_Stop_Rule, Fin 10)]"
  by code_simp

theorem fast_exit_needs_cause_witness:
  "exit_cause paper_sample_settings 10000000 paper_sample_tick (Fin 96) 9000000 Hard_Stop_Rule paper_sample_key paper_sample_position (wa_book paper_sample_watcher)"
proof -
  obtain w' t where w: "watch_position paper_sample_settings 10000000 paper_sample_tick (paper_sample_key, paper_sample_position) paper_sample_watcher = Inr w'"
    "pb_trades (wa_book w') = [t]" "pt_rule t = Some Hard_Stop_Rule"
    using paper_sample_watched by (auto split: sum.splits)
  have "ps_atr_max_age paper_sample_settings = Fin 600" by (simp add: paper_sample_settings_def)
  from fast_exit_needs_cause [OF w(1) _ this] w(2,3) show ?thesis
    by (auto simp: paper_sample_position_fields watch_guards_def paper_sample_tick_def)
qed

definition paper_sample_marks:: "mark list" where
  "paper_sample_marks = [Anchor_Mark (Fin 2) (Fin 97) 1, High_Mark (Fin 104), Tick_Mark (Fin 98) 2, Tick_Mark (Fin 98) 2, Tick_Mark (Fin 97) 3]"

theorem chandelier_needs_two_ticks_witness:
  "\<exists>ticks. subseq ticks (observed paper_sample_marks) \<and> length ticks = 2 \<and> sorted_wrt (<) (map snd ticks) \<and> list_all (\<lambda>t. fle (fst t) (Fin 99)) ticks"
proof -
  have count: "bp_count (run_ops mark_step paper_sample_marks paper_sample_position) = 2" by code_simp
  have stop: "or0 (bp_chandelier (run_ops mark_step paper_sample_marks paper_sample_position)) = Fin 99" by code_simp
  have "stops_numbers paper_sample_position" "bp_count paper_sample_position = 0" by (simp_all add: stops_numbers_def paper_sample_position_def or0_def)
  from chandelier_needs_two_ticks [OF this, of 2 paper_sample_marks] count stop show ?thesis
    by (auto simp: list_all_iff) (metis list_emb_append2 observed_append)
qed

end
