(* ===== verification/PaperLedger.thy ===== *)
theory PaperLedger
  imports PaperBookSafety
begin

text \<open>
  The ledger of the R2D2 paper service: what it sells, that its trades consolidate into episodes which agree
  with the book, that a hard stop sells; the guards of a buy, the entry confirmation and the realized track.
\<close>

section \<open>Quantities\<close>

text \<open>A positive finite or infinite float that arithmetic produced.\<close>

definition positive_float :: "pyfloat \<Rightarrow> bool" where
  "positive_float x \<longleftrightarrow> flt (Fin 0) x \<and> (\<forall>r. x = Fin r \<longrightarrow> fl r = Fin r)"

lemma positive_sum: "positive_float x \<Longrightarrow> positive_float y \<Longrightarrow> positive_float (fadd x y)"
proof -
  assume x: "positive_float x" and y: "positive_float y"
  show ?thesis
  proof (cases "\<exists>a b. x = Fin a \<and> y = Fin b")
    case True
    then obtain a b where e: "x = Fin a" "y = Fin b" by blast
    then have "fl a = Fin a" "0 < a" "0 < b" using x y by (auto simp: positive_float_def)
    then have "fle (Fin a) (fl (a + b))" using fl_above [of a "a + b"] by simp
    then have "flt (Fin 0) (fl (a + b))" using \<open>0 < a\<close> by (cases "fl (a + b)") (auto simp: fle_def)
    then show ?thesis using e fl_idem by (auto simp: positive_float_def)
  qed (use x y in \<open>cases x; cases y; auto simp: positive_float_def\<close>)
qed

lemma positive_alone: "positive_float y \<Longrightarrow> fadd (Fin 0) y = y"
  by (cases y) (auto simp: positive_float_def)

definition hundredth :: pyfloat where "hundredth = flit 1 100"

lemma residues:
  "flt (fl (1 / 10 ^ 6)) hundredth" "flt (fl (1 / 10 ^ 8)) hundredth" "flt (Fin 0) (fl (1 / 10 ^ 6))" "flt (Fin 0) (fl (1 / 10 ^ 8))"
  "flt (Fin 0) hundredth" "flt MInf hundredth"
  by code_simp+

text \<open>What \<open>_sell\<close> asks for: everything, or a part that leaves at least a hundredth.\<close>

lemma sell_quantity_range:
  assumes "sell_quantity full wanted = Some q" and "positive_float full"
  shows "positive_float q \<and> (\<exists>f. full = Fin f) \<and> (q = full \<or> \<not> flt (fsub full q) hundredth \<and> (\<exists>f a. full = Fin f \<and> q = Fin a \<and> a < f))"
proof -
  obtain f where f: "full = Fin f" "0 < f"
    using assms clamp_range [of 0 1 wanted]
    by (cases full) (auto simp: sell_quantity_def floor_over_def positive_float_def inf_of_sign_def split: if_splits)
  obtain n where "floor_over 100 (fmul (fmul full (py_max (Fin 0) (py_min (Fin 1) wanted))) (Fin 100)) = Some (flit n 100)"
    and q: "q = (if fle (flit n 100) (Fin 0) \<or> flt (fsub full (flit n 100)) (flit 1 100) then full else flit n 100)"
    using assms(1) by (auto simp: sell_quantity_def floor_over_def split: pyfloat.splits)
  show ?thesis
  proof (cases "fle (flit n 100) (Fin 0) \<or> flt (fsub full (flit n 100)) (flit 1 100)")
    case True
    then show ?thesis using q f assms(2) by simp
  next
    case False
    then have positive: "flt (Fin 0) (flit n 100)" using not_fle_flt [of "flit n 100" "Fin 0"] flit_number by simp
    moreover have "\<not> flt (fsub full (flit n 100)) hundredth" using False by (simp add: hundredth_def)
    ultimately obtain a where a: "flit n 100 = Fin a" using f residues(6) by (cases "flit n 100") (auto simp: fsub_def flt_fle_trans)
    have "a < f"
    proof (rule ccontr)
      assume "\<not> a < f"
      then have "fle (fl (f - a)) (Fin 0)" using fl_fle [of "f - a" 0] by simp
      then have "flt (fl (f - a)) hundredth" using residues(5) by (rule fle_flt_trans)
      then show False using False a f by (simp add: fsub_def hundredth_def)
    qed
    then show ?thesis using False q a f positive flit_reached [OF a] by (simp add: positive_float_def hundredth_def)
  qed
qed


lemma tolerance_covers:
  assumes "fl f = Fin f" and "a \<le> f" and "flt (Fin 0) (fl e)"
  shows "\<not> flt (fadd (Fin f) (fl e)) (Fin a)"
proof -
  obtain x where "fadd (Fin f) (fl e) = PInf \<or> fadd (Fin f) (fl e) = fl (f + x) \<and> 0 < x"
    using assms(3) by (cases "fl e") auto
  then show ?thesis using fl_above [OF assms(1), of "f + x"] assms(2) by (cases "fl (f + x)") (auto simp: fle_def)
qed

section \<open>The ledger and the episodes\<close>

definition episodes_match :: "paper_book \<Rightarrow> episode_state \<Rightarrow> bool" where
  "episodes_match b st \<longleftrightarrow> (\<forall>k. map_option pe_quantity (map_of (ep_open st) k) = map_option bp_quantity (map_of (pb_positions b) k))"

text \<open>What a run keeps of its book: positive quantities, a ledger the episodes accept, the cash its trades leave.\<close>

definition trade_cash :: "paper_trade \<Rightarrow> pyfloat \<Rightarrow> pyfloat" where
  "trade_cash t cash = (case pt_side t of
     Paper_Buy \<Rightarrow> fsub cash (fadd (pt_gross t) (pt_fees t)) | Paper_Sell \<Rightarrow> fsub (fadd cash (pt_gross t)) (pt_fees t))"

definition paper_ledger_ok :: "pyfloat \<Rightarrow> int \<Rightarrow> paper_book \<Rightarrow> bool" where
  "paper_ledger_ok cash day b \<longleftrightarrow>
     (\<forall>k p. map_of (pb_positions b) k = Some p \<longrightarrow> positive_float (bp_quantity p))
     \<and> (\<exists>st. efold (episode_step day) (pb_trades b) no_episodes = Inr st \<and> episodes_match b st)
     \<and> pb_cash b = fold trade_cash (pb_trades b) cash"

lemma paper_ledger_okI:
  assumes "paper_ledger_ok cash day b" and "pb_trades b' = pb_trades b @ [t]" and "pb_cash b' = trade_cash t (pb_cash b)"
    and "\<And>k p. map_of (pb_positions b') k = Some p \<Longrightarrow> positive_float (bp_quantity p)"
    and "\<And>st. episodes_match b st \<Longrightarrow> \<exists>st'. episode_step day t st = Inr st' \<and> episodes_match b' st'"
  shows "paper_ledger_ok cash day b'"
proof -
  obtain st where st: "efold (episode_step day) (pb_trades b) no_episodes = Inr st" "episodes_match b st" "pb_cash b = fold trade_cash (pb_trades b) cash"
    using assms(1) unfolding paper_ledger_ok_def by blast
  from assms(5) [OF st(2)] obtain st' where "episode_step day t st = Inr st'" "episodes_match b' st'" by blast
  with st(1,3) assms(2-4) show ?thesis unfolding paper_ledger_ok_def by simp
qed

lemma ledger_quantity: "paper_ledger_ok cash day b \<Longrightarrow> map_of (pb_positions b) k = Some p \<Longrightarrow> positive_float (bp_quantity p)"
  unfolding paper_ledger_ok_def by blast

lemma episode_quantity:
  "episodes_match b st \<Longrightarrow> map_of (pb_positions b) k = Some p \<Longrightarrow> \<exists>e. map_of (ep_open st) k = Some e \<and> pe_quantity e = bp_quantity p"
  "episodes_match b st \<Longrightarrow> map_of (pb_positions b) k = None \<Longrightarrow> map_of (ep_open st) k = None"
  unfolding episodes_match_def by (metis (no_types, lifting) map_option_eq_Some, metis map_option_is_None)

lemma episodes_matchD:
  "episodes_match b st \<Longrightarrow> map_option pe_quantity (map_of (ep_open st) k) = map_option bp_quantity (map_of (pb_positions b) k)"
  by (simp only: episodes_match_def)

lemma close_episode_open [simp]: "ep_open (close_episode day t e st) = AList.delete (pt_key t) (ep_open st)"
  by (simp add: close_episode_def count_result_def Let_def)

lemma positive_not_fle: "positive_float q \<Longrightarrow> \<not> fle q (Fin 0)"
  by (auto simp: positive_float_def dest: flt_not_fle)

lemma buy_keeps_ledger:
  assumes ok: "paper_ledger_ok cash day b" and q: "positive_float (od_quantity od)" and run: "execute_buy od b = Inr b'" and buy: "od_side od = Paper_Buy"
  shows "paper_ledger_ok cash day b'"
proof -
  define new_qty where "new_qty = fadd (case map_of (pb_positions b) (od_key od) of None \<Rightarrow> Fin 0 | Some p \<Rightarrow> bp_quantity p) (od_quantity od)"
  obtain usd local where b': "b' = b\<lparr>pb_cash := fsub (pb_cash b) (fadd (fmul (fmul (od_quantity od) (od_fill od)) (od_fx od)) (od_fees od)),
      pb_positions := AList.update (od_key od) (buy_position od (map_of (pb_positions b) (od_key od)) new_qty local usd) (pb_positions b),
      pb_trades := pb_trades b @ [order_trade od None]\<rparr>"
    using run unfolding execute_buy_def Let_def new_qty_def by (auto split: if_splits option.splits)
  have t: "pt_key (order_trade od None) = od_key od" "pt_quantity (order_trade od None) = od_quantity od" "pt_side (order_trade od None) = Paper_Buy"
    using buy by (simp_all add: order_trade_def Let_def)
  have new: "positive_float new_qty"
    using q positive_sum [OF _ q] ledger_quantity [OF ok] unfolding new_qty_def
    by (cases "map_of (pb_positions b) (od_key od)") (simp_all add: positive_alone)
  show ?thesis
  proof (rule paper_ledger_okI [OF ok, of b' "order_trade od None"])
    fix st
    assume m: "episodes_match b st"
    have "episodes_match b' (episode_buy (order_trade od None) st)"
      unfolding episodes_match_def
    proof
      fix i
      show "map_option pe_quantity (map_of (ep_open (episode_buy (order_trade od None) st)) i) = map_option bp_quantity (map_of (pb_positions b') i)"
        using episodes_matchD [OF m, of i] episode_quantity [OF m, of "od_key od"] unfolding b' new_qty_def
        by (cases "map_of (pb_positions b) (od_key od)")
          (auto simp: episode_buy_def update_conv' t buy_position_def Let_def)
    qed
    then show "\<exists>st'. episode_step day (order_trade od None) st = Inr st' \<and> episodes_match b' st'"
      using positive_not_fle [OF q] by (simp add: episode_step_def t)
  next
    fix k p
    assume "map_of (pb_positions b') k = Some p"
    then show "positive_float (bp_quantity p)"
      using new ledger_quantity [OF ok, of k] unfolding b' by (auto simp: update_conv' buy_position_def split: if_splits)
  qed (use buy in \<open>auto simp: b' trade_cash_def order_trade_def Let_def\<close>)
qed


lemma sell_keeps_ledger:
  assumes ok: "paper_ledger_ok cash day b" and p: "map_of (pb_positions b) k = Some p"
    and run: "paper_sell ident effect_at k price fx wanted rule wind_down p b = Inr b'"
  shows "paper_ledger_ok cash day b'"
proof -
  obtain q where q: "sell_quantity (bp_quantity p) wanted = Some q" using run by (auto simp: paper_sell_def split: option.splits)
  define t where "t = the (if pb_trades b' = [] then None else Some (last (pb_trades b')))"
  define remaining where "remaining = fsub (bp_quantity p) q"
  have b': "pb_trades b' = pb_trades b @ [t]" "pt_key t = k" "pt_quantity t = q" "pt_side t = Paper_Sell" "\<not> pt_corrected t"
      "pb_cash b' = trade_cash t (pb_cash b)"
      "map_of (pb_positions b') = (if fle remaining (fl (1 / 10 ^ 8)) then (map_of (pb_positions b))(k := None)
         else (map_of (pb_positions b))(k \<mapsto> p\<lparr>bp_quantity := remaining, bp_last := ex_fill (paper_exit_execution (fst k) price q fx)\<rparr>))"
    using run q p unfolding paper_sell_def execute_trade_def execute_sell_def remaining_def t_def
    by (auto simp: Let_def order_trade_def trade_cash_def update_conv' delete_conv' split: if_splits)
  have full: "positive_float (bp_quantity p)" using ledger_quantity [OF ok p] .
  obtain f where f: "bp_quantity p = Fin f" "fl f = Fin f" and pos: "positive_float q"
    and part: "q = Fin f \<or> \<not> flt remaining hundredth \<and> (\<exists>a. q = Fin a \<and> a < f)"
    using sell_quantity_range [OF q full] full unfolding remaining_def positive_float_def by auto
  obtain a where a: "q = Fin a" "a \<le> f" using part by auto
  have difference: "fsub (Fin f) (Fin a) = remaining" using f a by (simp add: remaining_def)
  have left: "remaining = Fin 0 \<or> flt (fl (1 / 10 ^ 6)) remaining \<and> flt (fl (1 / 10 ^ 8)) remaining \<and> positive_float remaining"
  proof (cases "q = Fin f")
    case True
    then show ?thesis using f by (simp add: remaining_def fsub_def)
  next
    case False
    then have "\<not> flt remaining hundredth" using part by simp
    moreover have "remaining = fl (f - a)" using f a by (simp add: remaining_def fsub_def)
    moreover have "hundredth \<noteq> NaN" by (simp add: hundredth_def flit_number)
    ultimately have "fle hundredth remaining" using not_fle_flt [of hundredth remaining] by (cases remaining) (auto simp: fl_def Let_def split: if_splits)
    then show ?thesis using residues \<open>remaining = fl (f - a)\<close> fl_idem by (auto simp: positive_float_def intro: flt_fle_trans)
  qed
  then have book_closes: "fle remaining (fl (1 / 10 ^ 8)) \<longleftrightarrow> remaining = Fin 0"
    using flt_imp_fle [OF residues(4)] by (auto simp: positive_float_def dest: flt_not_fle)
  have episode_goes_on: "flt (fl (1 / 10 ^ 6)) remaining \<longleftrightarrow> remaining \<noteq> Fin 0"
    using left flt_not_fle [OF residues(3)] by (auto dest: flt_imp_fle simp: positive_float_def)
  have kept_quantity: "py_max (Fin 0) remaining = remaining"
    using left by (auto simp: py_max_def positive_float_def)
  show ?thesis
  proof (rule paper_ledger_okI [OF ok b'(1) b'(6)])
    fix i r
    assume "map_of (pb_positions b') i = Some r"
    then show "positive_float (bp_quantity r)"
      using left ledger_quantity [OF ok, of i] unfolding b'(7) book_closes by (auto split: if_splits)
  next
    fix st
    assume m: "episodes_match b st"
    obtain e where e: "map_of (ep_open st) k = Some e" "pe_quantity e = bp_quantity p" using episode_quantity(1) [OF m p] by blast
    have within_tolerance: "\<not> flt (fadd (Fin f) (fl (1 / 10 ^ 6))) (Fin a)" using tolerance_covers [OF f(2) a(2) residues(3)] .
    define e' where "e' = e\<lparr>pe_quantity := remaining, pe_pnl := fadd (pe_pnl e) (or0 (pt_realized t)),
      pe_excluded := pe_excluded e \<or> trade_is_strategy_excluded t\<rparr>"
    have step: "episode_step day t st =
        (if flt (fl (1 / 10 ^ 6)) remaining then Inr (st\<lparr>ep_open := AList.update k e' (ep_open st)\<rparr>) else Inr (close_episode day t e' st))"
      using e f a b'(2-5) within_tolerance positive_not_fle [OF pos] kept_quantity difference
      by (simp add: episode_step_def episode_sell_def trade_is_corrected_def Let_def e'_def)
    show "\<exists>st'. episode_step day t st = Inr st' \<and> episodes_match b' st'"
    proof (cases "remaining = Fin 0")
      case True
      have "episode_step day t st = Inr (close_episode day t e' st)"
        using step True episode_goes_on by simp
      moreover have "episodes_match b' (close_episode day t e' st)"
        unfolding episodes_match_def b'(7) using episodes_matchD [OF m] book_closes True b'(2) by (simp add: delete_conv')
      ultimately show ?thesis by blast
    next
      case False
      have "episode_step day t st = Inr (st\<lparr>ep_open := AList.update k e' (ep_open st)\<rparr>)"
        using step False episode_goes_on by simp
      moreover have "episodes_match b' (st\<lparr>ep_open := AList.update k e' (ep_open st)\<rparr>)"
        unfolding episodes_match_def b'(7) using episodes_matchD [OF m] book_closes False by (simp add: update_conv' e'_def)
      ultimately show ?thesis by blast
    qed
  qed
qed


lemma change_keeps_ledger:
  assumes "paper_ledger_ok cash day b" and "\<And>p. bp_quantity (g p) = bp_quantity p"
  shows "paper_ledger_ok cash day (change_position k g b)"
proof -
  have "map_option bp_quantity (map_of (pb_positions (change_position k g b)) i) = map_option bp_quantity (map_of (pb_positions b) i)" for i
    using assms(2) by (simp add: map_of_change_position option.map_comp comp_def)
  then have "episodes_match (change_position k g b) st = episodes_match b st" for st by (simp only: episodes_match_def)
  moreover have "map_of (pb_positions (change_position k g b)) i = Some p \<Longrightarrow> positive_float (bp_quantity p)" for i p
    using ledger_quantity [OF assms(1), of i] assms(2) by (auto simp: map_of_change_position split: if_splits)
  ultimately show ?thesis using assms(1) unfolding paper_ledger_ok_def change_position_trades by blast
qed

lemma mark_quantity [simp]: "bp_quantity (mark_step m p) = bp_quantity p"
  by (cases m) (simp_all add: mark_defs)

lemma floor_over_flit: "floor_over n x = Some q \<Longrightarrow> \<exists>y. q = flit y n"
  by (auto simp: floor_over_def split: pyfloat.splits)

lemma plan_buy_order: "plan_buy ps paused fresh now usd_fx dv ident effect_at c = Inr (Some od) \<Longrightarrow> positive_float (od_quantity od) \<and> od_side od = Paper_Buy"
proof -
  assume "plan_buy ps paused fresh now usd_fx dv ident effect_at c = Inr (Some od)"
  then obtain n x where "floor_over n x = Some (od_quantity od)" "\<not> fle (od_quantity od) (Fin 0)" "od_side od = Paper_Buy"
    unfolding plan_buy_def Let_def by (auto split: if_splits option.splits)
  moreover from this(1) obtain y where "od_quantity od = flit y n" using floor_over_flit by blast
  ultimately show ?thesis
    using not_fle_flt [of "od_quantity od" "Fin 0"] flit_number [of y n] flit_reached [of y n] by (auto simp: positive_float_def)
qed

lemma service_keeps_ledger: "paper_ledger_ok cash day b \<Longrightarrow> paper_ledger_ok cash day (service_step ps x b)"
proof (cases x)
  case (Op_Buy paused fresh now usd_fx dv ident effect_at c)
  assume ok: "paper_ledger_ok cash day b"
  show ?thesis
  proof (cases "plan_buy ps paused fresh now usd_fx dv ident effect_at c")
    case (Inr order)
    then show ?thesis
      using Op_Buy ok plan_buy_order [of ps paused fresh now usd_fx dv ident effect_at c] buy_keeps_ledger [OF ok]
      by (cases order) (auto simp: attempted_def execute_trade_def split: sum.split)
  qed (simp add: Op_Buy ok)
next
  case (Op_Sell ident effect_at k price fx wanted rule wind_down)
  assume ok: "paper_ledger_ok cash day b"
  then show ?thesis
    using Op_Sell sell_keeps_ledger [OF ok, of k] by (auto simp: attempted_def split: option.split sum.split)
next
  case (Op_Mark k m)
  assume "paper_ledger_ok cash day b"
  then show ?thesis using Op_Mark change_keeps_ledger by simp
qed

section \<open>The order of the ledger\<close>

lemma insert_last: "list_all (\<lambda>x. pt_at x < pt_at t) xs \<Longrightarrow> insert_trade t xs = xs @ [t]"
  by (induction xs) (auto simp: trade_before_def)

lemma by_execution_sorted: "sorted_wrt (<) (map pt_at ts) \<Longrightarrow> by_execution ts = ts"
proof (induction ts rule: rev_induct)
  case (snoc t ts)
  then show ?case using insert_last [of t ts] by (simp add: by_execution_def sorted_wrt_append list_all_iff)
qed (simp add: by_execution_def)

lemma opening_ledger: "paper_ledger_ok cash day (opening_book cash)"
  by (simp add: paper_ledger_ok_def opening_book_def episodes_match_def no_episodes_def)

text \<open>The instants at which the operations take effect; an operation that trades does so at its own.\<close>

fun op_instants :: "paper_op list \<Rightarrow> int list" where
  "op_instants [] = []"
| "op_instants (Op_Buy paused fresh now usd_fx dv ident effect_at c # ops) = effect_at # op_instants ops"
| "op_instants (Op_Sell ident effect_at k price fx wanted rule wind_down # ops) = effect_at # op_instants ops"
| "op_instants (Op_Mark k m # ops) = op_instants ops"

lemma buy_instant: "execute_buy od b = Inr b' \<Longrightarrow> map pt_at (pb_trades b') = map pt_at (pb_trades b) @ [od_at od]"
  by (auto simp: execute_buy_def order_trade_def Let_def split: if_splits option.splits)

lemma plan_instant: "plan_buy ps paused fresh now usd_fx dv ident effect_at c = Inr (Some od) \<Longrightarrow> od_at od = effect_at \<and> od_side od = Paper_Buy"
  unfolding plan_buy_def Let_def by (auto split: if_splits option.splits)

lemma sell_instant:
  "paper_sell ident effect_at k price fx wanted rule wind_down p b = Inr b' \<Longrightarrow> map pt_at (pb_trades b') = map pt_at (pb_trades b) @ [effect_at]"
  unfolding paper_sell_def execute_trade_def execute_sell_def
  by (auto simp: Let_def order_trade_def split: option.splits if_splits)

lemma step_instants:
  "map pt_at (pb_trades (service_step ps x b)) = map pt_at (pb_trades b)
   \<or> map pt_at (pb_trades (service_step ps x b)) = map pt_at (pb_trades b) @ op_instants [x]"
proof (cases x)
  case (Op_Buy paused fresh now usd_fx dv ident effect_at c)
  show ?thesis
  proof (cases "plan_buy ps paused fresh now usd_fx dv ident effect_at c")
    case (Inr order)
    then show ?thesis
      using Op_Buy plan_instant [of ps paused fresh now usd_fx dv ident effect_at c]
      by (cases order) (auto simp: attempted_def execute_trade_def dest: buy_instant split: sum.split)
  qed (simp add: Op_Buy)
qed (auto simp: attempted_def dest: sell_instant split: option.split sum.split)

lemma run_instants:
  "sorted_wrt (<) (map pt_at (pb_trades b) @ op_instants ops) \<Longrightarrow> sorted_wrt (<) (map pt_at (pb_trades (run_ops (service_step ps) ops b)))"
proof (induction ops arbitrary: b)
  case (Cons x ops)
  have "op_instants (x # ops) = op_instants [x] @ op_instants ops" by (cases x) simp_all
  then have order: "sorted_wrt (<) (map pt_at (pb_trades b) @ op_instants [x] @ op_instants ops)" using Cons.prems by simp
  have "sorted_wrt (<) (map pt_at (pb_trades (service_step ps x b)) @ op_instants ops)"
    using step_instants [of ps x b]
  proof
    assume e: "map pt_at (pb_trades (service_step ps x b)) = map pt_at (pb_trades b)"
    show ?thesis unfolding e using order by (auto simp: sorted_wrt_append)
  next
    assume e: "map pt_at (pb_trades (service_step ps x b)) = map pt_at (pb_trades b) @ op_instants [x]"
    show ?thesis unfolding e using order by simp
  qed
  from Cons.IH [OF this] show ?case by simp
qed simp

text \<open>
  C4: The ledger of the service is one its episodes accept.  However buys, partial and full sales and marks
  follow each other, at increasing instants, the flat-to-flat consolidation of the trades never raises, its
  open episodes hold the quantities of the book's positions, and the cash is what the trades leave of the
  opening cash.
\<close>

theorem service_ledger_consolidates:
  fixes ps ops cash day
  defines "b \<equiv> run_ops (service_step ps) ops (opening_book cash)"
  assumes "sorted_wrt (<) (op_instants ops)"
  shows "(\<exists>st. episode_summary (pb_trades b) day = Inr st
      \<and> (\<forall>k. map_option pe_quantity (map_of (ep_open st) k) = map_option bp_quantity (map_of (pb_positions b) k)))
    \<and> pb_cash b = fold trade_cash (pb_trades b) cash"
proof -
  have "paper_ledger_ok cash day b" unfolding b_def by (rule run_ops_invariant [where I = "paper_ledger_ok cash day", OF service_keeps_ledger opening_ledger])
  moreover have "sorted_wrt (<) (map pt_at (pb_trades b))"
    unfolding b_def using run_instants [of "opening_book cash" ops ps] assms(2) by (simp add: opening_book_def)
  ultimately show ?thesis
    using by_execution_sorted unfolding paper_ledger_ok_def episode_summary_def episodes_match_def by fastforce
qed

section \<open>A hard stop sells\<close>

text \<open>
  C19: A hard stop always sells.  On a tick that passes the watcher's guards, a price at or below the hard stop
  ends in a sale of the position by that rule, without an error (for up to 10^13 units), and what it leaves is
  nothing or at least a hundredth of a unit.
\<close>

theorem hard_stop_always_sells:
  assumes g: "watch_guards ps now io price tick k p w" and "fle price (or0 (bp_hard p))"
    and p: "map_of (pb_positions (wa_book w)) k = Some p" and q: "bp_quantity p = Fin f" "0 < f" "fl f = Fin f" "f \<le> 10 ^ 13"
  shows "\<exists>w' t. watch_position ps now io (k, p) w = Inr w' \<and> pb_trades (wa_book w') = pb_trades (wa_book w) @ [t]
    \<and> pt_key t = k \<and> pt_side t = Paper_Sell \<and> pt_rule t = Some Hard_Stop_Rule
    \<and> (pt_quantity t = bp_quantity p \<or> \<not> flt (fsub (bp_quantity p) (pt_quantity t)) (flit 1 100))"
proof -
  have one: "py_max (Fin 0) (py_min (Fin 1) (Fin 1)) = Fin 1" by (simp add: py_max_def py_min_def)
  obtain r where r: "fl (f * 100) = Fin r" using fl_between_int [of 0 "f * 100" "10 ^ 15"] q(2,4) by auto
  then obtain qty where qty: "sell_quantity (bp_quantity p) (Fin 1) = Some qty"
    using q by (simp add: sell_quantity_def one floor_over_def)
  have range: "positive_float qty \<and> (\<exists>f. bp_quantity p = Fin f) \<and> (qty = bp_quantity p \<or> \<not> flt (fsub (bp_quantity p) qty) hundredth
      \<and> (\<exists>f a. bp_quantity p = Fin f \<and> qty = Fin a \<and> a < f))"
    using sell_quantity_range [OF qty] q by (simp add: positive_float_def)
  then obtain a where a: "qty = Fin a" "a \<le> f" using q by auto
  have rule: "price_rule price (or0 (bp_hard p)) (ti_to_close io) (net_exit price k p) = Some Hard_Stop_Rule"
    using assms(2) by (simp add: price_rule_def)
  let ?w = "drop_alert (Missing_Hard_Stop k) (drop_alert (Stale_Tick k) w)"
  have "\<not> flt (fadd (bp_quantity p) (fl (1 / 10 ^ 8))) qty" using tolerance_covers [OF q(3) a(2) residues(4)] q(1) a(1) by simp
  then obtain b where b: "paper_sell (ti_trade_id io) (ti_effect_at io) k price (bp_fx p) (Fin 1) (Some Hard_Stop_Rule) False p (wa_book w) = Inr b"
    using qty p by (auto simp: paper_sell_def execute_trade_def execute_sell_def Let_def)
  then have "watch_position ps now io (k, p) w = Inr (see_tick k tick (?w\<lparr>wa_book := b\<rparr>))"
    unfolding watch_position_guarded [OF g] rule Let_def by (simp add: watch_exit_def)
  then show ?thesis using paper_sell_trade [OF b] qty range by (auto simp: hundredth_def)
qed

theorem hard_stop_always_sells_witness:
  "\<exists>w' t. watch_position paper_sample_settings 10000000 paper_sample_tick (paper_sample_key, paper_sample_position) paper_sample_watcher = Inr w'
     \<and> pb_trades (wa_book w') = [t] \<and> pt_rule t = Some Hard_Stop_Rule"
  using hard_stop_always_sells [OF paper_sample_guards, of 10] fl_int [of 10] by (auto simp: paper_sample_position_fields)

section \<open>A buy passes every guard\<close>

lemma four_min_not_above:
  "m = py_max (Fin 0) (py_min (py_min (py_min w x) y) z) \<Longrightarrow> m = Fin 0 \<or> (\<forall>c \<in> set [w, x, y, z]. \<not> flt c m)"
  using py_min_not_above flt_irrefl unfolding py_max_def by auto

text \<open>The four limits of an entry; a capacity is none, or above none of them.\<close>

definition entry_limits :: "paper_settings \<Rightarrow> string \<Rightarrow> dashboard_view \<Rightarrow> pyfloat list" where
  "entry_limits ps market dv =
     [fdiv (fmul (dv_nav dv) (ps_max_position_percent ps)) (Fin 100),
      fsub (fdiv (fmul (dv_nav dv) (ps_max_market_percent ps)) (Fin 100)) (py_sum (map snd (filter (\<lambda>(m, v). m = market) (dv_values dv)))),
      fsub (fsub (fdiv (fmul (dv_nav dv) (py_min (ps_max_gross_percent ps) (fsub (Fin 100) (ps_min_cash_percent ps)))) (Fin 100)) (dv_gross dv))
        (fmul (dv_nav dv) (flit 5 10000)),
      dv_cash dv]"

lemma capacity_limits: "entry_capacity_usd ps market dv = Fin 0 \<or> (\<forall>c \<in> set (entry_limits ps market dv). \<not> flt c (entry_capacity_usd ps market dv))"
proof (cases "fle (dv_nav dv) (Fin 0)")
  case True
  then show ?thesis by (simp add: entry_capacity_usd_def)
next
  case False
  show ?thesis unfolding entry_limits_def by (rule four_min_not_above) (simp only: entry_capacity_usd_def Let_def False if_False)
qed


section \<open>Entry confirmation\<close>

fun scan_quotes :: "int \<Rightarrow> book_key \<Rightarrow> int option list \<Rightarrow> int \<Rightarrow> confirmations \<Rightarrow> confirmations" where
  "scan_quotes required k [] g cs = cs"
| "scan_quotes required k (q # qs) g cs = scan_quotes required k qs (g + 1) (snd (confirm_entry_setup required (g + 1) k q cs))"

lemma scan_append: "scan_quotes required k (xs @ ys) g cs = scan_quotes required k ys (g + int (length xs)) (scan_quotes required k xs g cs)"
  by (induction xs arbitrary: g cs) (simp_all add: algebra_simps)

definition known_quotes :: "int option list \<Rightarrow> int list" where
  "known_quotes qs = List.map_filter (\<lambda>q. q) qs"

lemma known_append [simp]: "known_quotes (xs @ ys) = known_quotes xs @ known_quotes ys" "known_quotes [None] = []" "known_quotes [Some q] = [q]"
  "known_quotes [] = []"
  by (simp_all add: known_quotes_def List.map_filter_def)

lemma sorted_upto_last: "sorted xs \<Longrightarrow> xs \<noteq> [] \<Longrightarrow> x \<in> set xs \<Longrightarrow> x \<le> last xs"
  by (induction xs rule: rev_induct) (auto simp: sorted_append)

theorem reviews_count_distinct_ticks:
  assumes "sorted (known_quotes qs)" and "qs \<noteq> []"
  shows "map_of (scan_quotes required k qs g []) k =
    Some \<lparr>cf_generation = g + int (length qs), cf_quote_at = (if known_quotes qs = [] then None else Some (last (known_quotes qs))),
      cf_reviews = int (card (set (known_quotes qs)))\<rparr>"
  using assms
proof (induction qs rule: rev_induct)
  case (snoc q qs)
  show ?case
  proof (cases "qs = []")
    case True
    then show ?thesis by (cases q) (simp_all add: confirm_entry_setup_def Let_def)
  next
    case False
    have sorted: "sorted (known_quotes qs)" using snoc.prems(1) by (simp add: sorted_append)
    note known = snoc.IH [OF sorted False]
    show ?thesis
    proof (cases q)
      case None
      then show ?thesis using known by (simp add: scan_append confirm_entry_setup_def Let_def update_conv' algebra_simps)
    next
      case (Some t)
      have upper: "u \<le> t" if "u \<in> set (known_quotes qs)" for u using snoc.prems(1) that Some by (simp add: sorted_append)
      show ?thesis
      proof (cases "known_quotes qs = []")
        case True
        then show ?thesis using known Some by (simp add: scan_append confirm_entry_setup_def Let_def update_conv' algebra_simps)
      next
        case nonempty: False
        have later: "last (known_quotes qs) < t \<longleftrightarrow> t \<notin> set (known_quotes qs)"
          using upper [of "last (known_quotes qs)"] sorted_upto_last [OF sorted nonempty, of t] last_in_set [OF nonempty] by (metis linorder_not_less order_le_less)
        show ?thesis
        proof (cases "t \<in> set (known_quotes qs)")
          case True
          then show ?thesis using known Some nonempty later
            by (simp add: scan_append confirm_entry_setup_def Let_def update_conv' algebra_simps insert_absorb)
        next
          case False
          then show ?thesis using known Some nonempty later
            by (simp add: scan_append confirm_entry_setup_def Let_def update_conv' algebra_simps)
        qed
      qed
    qed
  qed
qed simp

lemma concat_replicate_end: "concat (replicate n [x, y]) @ [x, y] = x # y # concat (replicate n [x, y])"
  by (induction n) simp_all

text \<open>An older quote in between lets the same tick count again, and again.\<close>

text \<open>
  C39: The same tick confirms again and again.  The confirmation remembers the last quote instant, not the
  latest: when an older quote comes in between, the newer one counts once more each time it is seen.
\<close>

theorem same_tick_confirms_again:
  assumes "t1 < t2"
  shows "cf_reviews (the (map_of (scan_quotes required k (Some t2 # concat (replicate n [Some t1, Some t2])) g []) k)) = int n + 1"
proof -
  define qs where "qs = (\<lambda>n. Some t2 # concat (replicate n [Some t1, Some t2]))"
  have "map_of (scan_quotes required k (qs n) g []) k =
    Some \<lparr>cf_generation = g + int (length (qs n)), cf_quote_at = Some t2, cf_reviews = int n + 1\<rparr>"
  proof (induction n)
    case 0
    then show ?case by (simp add: qs_def confirm_entry_setup_def Let_def)
  next
    case (Suc n)
    have more: "qs (Suc n) = qs n @ [Some t1, Some t2]" by (simp add: qs_def concat_replicate_end)
    show ?case unfolding more scan_append using Suc assms by (simp add: confirm_entry_setup_def Let_def update_conv' algebra_simps)
  qed
  then show ?thesis by (simp add: qs_def)
qed


section \<open>The realized track\<close>

lemma track_rows:
  assumes "\<And>d. d \<in> set days \<Longrightarrow> map_of snaps d = map_of snaps' d \<and> map_of pnls d = map_of pnls' d"
  shows "fold (track_step snaps pnls start) days acc = fold (track_step snaps' pnls' start) days acc"
  using assms
proof (induction days arbitrary: acc)
  case (Cons d days)
  have "track_step snaps pnls start d acc = track_step snaps' pnls' start d acc"
    using Cons.prems [of d] by (simp add: track_step_def)
  then show ?case using Cons by simp
qed simp

lemma track_appends:
  "\<exists>rows nav'. fold (track_step snaps pnls start) days (nav, before) = (nav', before @ rows) \<and> map tr_day rows = days"
proof (induction days arbitrary: nav before)
  case (Cons d days)
  obtain nav' row where step: "track_step snaps pnls start d (nav, before) = (nav', before @ [row])" "tr_day row = d"
    by (simp add: track_step_def Let_def)
  from Cons.IH [of nav' "before @ [row]"] show ?case using step by fastforce
qed simp

lemma map_of_rev_filter: "map_of (rev (filter (\<lambda>(d, v). P d) xs)) x = (if P x then map_of (rev xs) x else None)"
proof (induction xs rule: rev_induct)
  case (snoc y ys)
  then show ?case by (cases y) auto
qed simp

lemma sorted_split:
  "finite S \<Longrightarrow> sorted_list_of_set S = sorted_list_of_set {x \<in> S. x \<le> (d::int)} @ sorted_list_of_set {x \<in> S. d < x}"
proof -
  assume "finite S"
  let ?xs = "sorted_list_of_set {x \<in> S. x \<le> d} @ sorted_list_of_set {x \<in> S. d < x}"
  have "sorted ?xs" "distinct ?xs" "set ?xs = S" using \<open>finite S\<close> by (auto simp: sorted_append)
  then show ?thesis using sorted_list_of_set.idem_if_sorted_distinct [of ?xs] by metis
qed

text \<open>
  C34: The realized track of a day does not depend on later ones.  The track through a date is the whole track
  up to that date, row for row.
\<close>

theorem track_history_is_stable:
  "realized_daily_track snapshots realized start (Some d) = filter (\<lambda>r. tr_day r \<le> d) (realized_daily_track snapshots realized start None)"
proof -
  let ?snaps = "rev snapshots" and ?pnls = "rev realized"
  let ?snaps_d = "rev (filter (\<lambda>(x, v). x \<le> d) snapshots)" and ?pnls_d = "rev (filter (\<lambda>(x, v). x \<le> d) realized)"
  define S where "S = set (map fst snapshots) \<union> set (map fst realized)"
  define early late where "early = sorted_list_of_set {x \<in> S. x \<le> d}" and "late = sorted_list_of_set {x \<in> S. d < x}"
  have S: "finite S" by (simp add: S_def)
  have keys: "set (map fst ?snaps) \<union> set (map fst ?pnls) = S" "set (map fst ?snaps_d) \<union> set (map fst ?pnls_d) = {x \<in> S. x \<le> d}"
    unfolding S_def by force+
  have same: "map_of ?snaps_d x = map_of ?snaps x \<and> map_of ?pnls_d x = map_of ?pnls x" if "x \<in> set early" for x
    using that S by (simp add: early_def map_of_rev_filter)
  obtain rows nav where rows: "fold (track_step ?snaps ?pnls start) early (py_round 2 start, []) = (nav, rows)" "map tr_day rows = early"
    using track_appends [of ?snaps ?pnls start early "py_round 2 start" "[]"] by auto
  obtain more nav' where more: "fold (track_step ?snaps ?pnls start) late (nav, rows) = (nav', rows @ more)" "map tr_day more = late"
    using track_appends by blast
  have whole: "realized_daily_track snapshots realized start None = rows @ more"
    unfolding realized_daily_track_def Let_def using rows(1) more(1) keys(1) sorted_split [OF S, of d]
    by (simp add: early_def late_def split_def)
  have part: "realized_daily_track snapshots realized start (Some d) = rows"
    unfolding realized_daily_track_def Let_def using rows(1) keys(2) track_rows [of early ?snaps_d ?snaps ?pnls_d ?pnls] same
    by (simp add: early_def)
  have days: "tr_day ` set rows = {x \<in> S. x \<le> d}" "tr_day ` set more = {x \<in> S. d < x}"
    using S unfolding set_map [symmetric] rows(2) more(2) early_def late_def by simp_all
  have "\<forall>r \<in> set rows. tr_day r \<le> d" using days(1) by blast
  moreover have "\<forall>r \<in> set more. d < tr_day r" using days(2) by blast
  then have "\<forall>r \<in> set more. \<not> tr_day r \<le> d" by (simp add: not_le)
  ultimately show ?thesis unfolding whole part by (simp add: filter_id_conv filter_empty_conv)
qed

section \<open>A sample run\<close>

definition paper_sample_view :: dashboard_view where
  "paper_sample_view = \<lparr>dv_nav = Fin 10000, dv_cash = Fin 10000, dv_gross = Fin 0, dv_daily_return = Fin 0, dv_values = []\<rparr>"

definition paper_sample_candidate :: buy_candidate where
  "paper_sample_candidate = \<lparr>bc_key = paper_sample_key, bc_price = Fin 100, bc_quote_at = Some 9000000, bc_live = True,
     bc_indicators = [''atr_percent'' \<mapsto> VFloat (Fin 1), ''atr'' \<mapsto> VFloat (Fin 1)]\<rparr>"

definition paper_sample_ops :: "paper_op list" where
  "paper_sample_ops = [Op_Buy False None 10000000 (Fin 5) paper_sample_view ''t1'' 10000001 paper_sample_candidate, Op_Mark paper_sample_key (Tick_Mark (Fin 101) 11000000),
     Op_Sell ''t2'' 12000000 paper_sample_key (Fin 101) (Fin 1) (flit 1 2) None False, Op_Sell ''t3'' 13000000 paper_sample_key (Fin 102) (Fin 1) (Fin 1) None False]"

lemma paper_sample_order:
  "(case plan_buy paper_sample_settings False None 10000000 (Fin 5) paper_sample_view ''t1'' 10000001 paper_sample_candidate of
      Inr (Some od) \<Rightarrow> Some (od_key od, od_at od) | _ \<Rightarrow> None) = Some (paper_sample_key, 10000001)"
  by code_simp

lemma paper_sample_buys:
  "map_option bp_quantity (map_of (pb_positions (run_ops (service_step paper_sample_settings) (take 1 paper_sample_ops) (opening_book (Fin 10000)))) paper_sample_key)
   = Some (flit 199 100)"
  by code_simp


theorem service_ledger_consolidates_witness:
  "(\<exists>st. episode_summary (pb_trades (run_ops (service_step paper_sample_settings) paper_sample_ops (opening_book (Fin 10000)))) 0 = Inr st)
   \<and> (\<exists>st. episode_summary (pb_trades (run_ops (service_step paper_sample_settings) (take 1 paper_sample_ops) (opening_book (Fin 10000)))) 0 = Inr st
        \<and> map_option pe_quantity (map_of (ep_open st) paper_sample_key) = Some (flit 199 100))"
proof -
  have whole: "sorted_wrt (<) (op_instants paper_sample_ops)" and first: "sorted_wrt (<) (op_instants (take 1 paper_sample_ops))"
    by (simp_all add: paper_sample_ops_def)
  from service_ledger_consolidates [OF whole, of paper_sample_settings "Fin 10000" 0]
    service_ledger_consolidates [OF first, of paper_sample_settings "Fin 10000" 0] paper_sample_buys
  show ?thesis by metis
qed

theorem same_tick_confirms_again_witness:
  "cf_reviews (the (map_of (scan_quotes 2 paper_sample_key [Some 2, Some 1, Some 2] 0 []) paper_sample_key)) = 2"
  using same_tick_confirms_again [of 1 2 2 paper_sample_key 1 0] by simp


end
